(* ===== verification/Proxy_Prelude.thy ===== *)
theory Proxy_Prelude
  imports Main "HOL-Library.Word"
begin

text \<open>
  What the component theories share: names for the machine types of the C++ code, the
  collections of simplification rules, and generic lemmas on lists, options and words.

  \<^item> \<open>size_t\<close> and \<open>uint64\<close> are 64-bit words (the program is built for 64-bit targets),
    \<open>bytes\<close> is the contents of a \<open>beast::flat_buffer\<close> or of a \<open>std::string\<close>;
  \<^item> \<open>proxy_defs\<close> collects the definitions a component proof unfolds, \<open>io_simps\<close> the
    equations on logs of I/O events.
\<close>

type_synonym size_t = "64 word"
type_synonym uint64 = "64 word"
type_synonym bytes = "char list"

named_theorems proxy_defs "definitions unfolded by component proofs"
named_theorems io_simps "equations on logs of I/O events"

abbreviation CR :: char where "CR \<equiv> CHR 0x0D"
abbreviation LF :: char where "LF \<equiv> CHR 0x0A"
abbreviation TAB :: char where "TAB \<equiv> CHR 0x09"

text \<open>The largest value of \<open>std::size_t\<close>.\<close>

abbreviation size_max :: size_t where "size_max \<equiv> - 1"

section \<open>Words\<close>

lemma unat_size_max: "unat size_max = 2 ^ 64 - 1"
  by (simp add: unsigned_minus_1_eq_mask mask_eq_exp_minus_1)

lemma unat_less_size: "unat (a :: size_t) < 2 ^ 64"
  using unsigned_less [of a, where ?'a = nat] by simp

lemma unat_add_small:
  fixes a b :: size_t
  assumes "unat a + unat b < 2 ^ 64"
  shows "unat (a + b) = unat a + unat b"
  using assms by (simp add: unat_word_ariths)

lemma unat_of_nat_small: "n < 2 ^ 64 \<Longrightarrow> unat (of_nat n :: size_t) = n"
  by (simp add: unat_of_nat take_bit_nat_eq_self)

lemma unat_sub_of_nat:
  fixes a :: size_t
  assumes "n \<le> unat a"
  shows "unat (a - of_nat n) = unat a - n"
proof -
  have "n < 2 ^ 64"
    using assms unat_less_size [of a] by linarith
  then have *: "unat (of_nat n :: size_t) = n"
    by (rule unat_of_nat_small)
  then have "(of_nat n :: size_t) \<le> a"
    using assms by (simp add: word_le_nat_alt)
  then show ?thesis
    using * by (simp add: unat_sub)
qed

section \<open>Lists\<close>

lemma take_append_drop_min:
  "take n xs @ drop n xs @ ys = xs @ ys"
  by simp

lemma last_snoc_cases: "xs = [] \<or> (\<exists>ys y. xs = ys @ [y])"
  by (cases xs rule: rev_cases) auto

lemma takeWhile_all: "(\<And>x. x \<in> set xs \<Longrightarrow> P x) \<Longrightarrow> takeWhile P xs = xs"
  by (simp add: takeWhile_eq_all_conv)

section \<open>Numerals\<close>

text \<open>A natural number as \<open>fmt::format\<close> and \<open>operator<<\<close> print it.\<close>

fun decimal :: "nat \<Rightarrow> string" where
  "decimal n = (if n < 10 then [char_of (48 + n)] else decimal (n div 10) @ [char_of (48 + n mod 10)])"

declare decimal.simps [simp del]

definition decimal_int :: "int \<Rightarrow> string" where
  "decimal_int i = (if i < 0 then ''-'' @ decimal (nat (- i)) else decimal (nat i))"

fun read_decimal :: "nat \<Rightarrow> string \<Rightarrow> nat" where
  "read_decimal acc [] = acc"
| "read_decimal acc (c # cs) = read_decimal (10 * acc + (of_char c - 48)) cs"

lemma read_decimal_append: "read_decimal acc (xs @ ys) = read_decimal (read_decimal acc xs) ys"
  by (induction xs arbitrary: acc) simp_all

lemma decimal_digit: "n < 10 \<Longrightarrow> (of_char (char_of (48 + n) :: char) :: nat) = 48 + n"
  by simp

lemma read_decimal_decimal: "read_decimal 0 (decimal n) = n"
proof (induction n rule: decimal.induct)
  case (1 n)
  then show ?case
    by (cases "n < 10") (simp_all add: decimal.simps [of n] read_decimal_append)
qed

lemma decimal_inj: "decimal m = decimal n \<longleftrightarrow> m = n"
  by (metis read_decimal_decimal)

section \<open>Paths\<close>

type_synonym path = string
type_synonym files = "path \<Rightarrow> string option"

text \<open>\<open>operator/\<close> of paths.\<close>

definition path_append :: "path \<Rightarrow> path \<Rightarrow> path" where
  "path_append d n =
     (if take 1 n = ''/'' then n
      else if d = [] \<or> last d = CHR ''/'' then d @ n else d @ ''/'' @ n)"

section \<open>Loops\<close>

text \<open>
  A loop of the source is its body, a function from the loop's state to either the state of
  the next iteration (\<open>Inl\<close>) or the value with which the function returns (\<open>Inr\<close>).
  \<open>loop body s\<close> is \<open>None\<close> when the loop never returns. Three rules carry the proofs:
  an invariant for the value returned, a measure for the fact that it returns, and an
  invariant under which the body always asks for another iteration for the fact that it does
  not.
\<close>

partial_function (option) loop :: "('s \<Rightarrow> 's + 'r) \<Rightarrow> 's \<Rightarrow> 'r option" where
  "loop body s = (case body s of Inl s' \<Rightarrow> loop body s' | Inr r \<Rightarrow> Some r)"

declare loop.simps [code]

lemma loop_Inl: "body s = Inl s' \<Longrightarrow> loop body s = loop body s'"
  by (simp add: loop.simps [of body s])

lemma loop_Inr: "body s = Inr r \<Longrightarrow> loop body s = Some r"
  by (simp add: loop.simps [of body s])

lemma loop_invariant:
  assumes "loop body s = Some r" and "P s"
    and "\<And>s s'. P s \<Longrightarrow> body s = Inl s' \<Longrightarrow> P s'"
    and "\<And>s r. P s \<Longrightarrow> body s = Inr r \<Longrightarrow> Q r"
  shows "Q r"
proof -
  have "body' = body \<longrightarrow> P s \<longrightarrow> Q r" if "loop body' s = Some r" for body'
  proof (rule loop.raw_induct [where P = "\<lambda>b s r. b = body \<longrightarrow> P s \<longrightarrow> Q r", OF _ that])
    fix f b s r
    assume IH: "\<And>b s r. f b s = Some r \<Longrightarrow> b = body \<longrightarrow> P s \<longrightarrow> Q r"
      and eq: "(case b s of Inl s' \<Rightarrow> f b s' | Inr r \<Rightarrow> Some r) = Some r"
    show "b = body \<longrightarrow> P s \<longrightarrow> Q r"
      using eq IH assms(3,4) by (auto split: sum.splits)
  qed
  with assms(1,2) show ?thesis by blast
qed

lemma loop_terminates:
  fixes m :: "'s \<Rightarrow> nat"
  assumes "P s"
    and "\<And>s s'. P s \<Longrightarrow> body s = Inl s' \<Longrightarrow> P s' \<and> m s' < m s"
  shows "\<exists>r. loop body s = Some r"
  using assms(1)
proof (induction "m s" arbitrary: s rule: less_induct)
  case less
  show ?case
  proof (cases "body s")
    case (Inl s')
    with less.prems assms(2) have "P s'" "m s' < m s" by blast+
    then obtain r where "loop body s' = Some r" using less.hyps by blast
    then show ?thesis using loop_Inl [of body s s'] Inl by auto
  next
    case (Inr r)
    then show ?thesis using loop_Inr [of body s] by blast
  qed
qed

lemma loop_total:
  fixes m :: "'s \<Rightarrow> nat"
  assumes "P s"
    and "\<And>s s'. P s \<Longrightarrow> body s = Inl s' \<Longrightarrow> P s' \<and> m s' < m s"
    and "\<And>s r. P s \<Longrightarrow> body s = Inr r \<Longrightarrow> Q r"
  shows "\<exists>r. loop body s = Some r \<and> Q r"
proof -
  obtain r where r: "loop body s = Some r"
    using loop_terminates [of P s body m] assms(1,2) by blast
  moreover have "Q r"
    by (rule loop_invariant [OF r, where P = P]) (use assms in blast)+
  ultimately show ?thesis by blast
qed

lemma loop_diverges:
  assumes "P s" and "\<And>s. P s \<Longrightarrow> \<exists>s'. body s = Inl s' \<and> P s'"
  shows "loop body s = None"
proof (rule ccontr)
  assume "loop body s \<noteq> None"
  then obtain r where r: "loop body s = Some r" by blast
  have "False"
    by (rule loop_invariant [OF r, where P = P and Q = "\<lambda>_. False"])
       (use assms in fastforce)+
  then show False .
qed

text \<open>A loop that returns does so after finitely many iterations.\<close>

fun iterate :: "nat \<Rightarrow> ('s \<Rightarrow> 's + 'r) \<Rightarrow> 's \<Rightarrow> 'r option" where
  "iterate 0 body s = None"
| "iterate (Suc n) body s = (case body s of Inl s' \<Rightarrow> iterate n body s' | Inr r \<Rightarrow> Some r)"

lemma iterate_loop: "iterate n body s = Some r \<Longrightarrow> loop body s = Some r"
  by (induction n arbitrary: s) (auto split: sum.splits simp: loop_Inl loop_Inr)

end
