(* ===== verification/Http_Fields.thy ===== *)
theory Http_Fields
  imports Proxy_Prelude
begin

text \<open>
  HTTP messages as the program sees them, and the two header adapters.

  \<^item> Boost.Beast is not part of the repository. A \<open>basic_fields\<close> container is known by the
    sequence of fields it iterates over; its operations are the parameter \<open>fields_api\<close>, and
    the locale \<open>beast_fields\<close> states what the Beast documentation promises of them: names
    compare without case, \<open>insert\<close> adds after the fields of that name, \<open>set\<close> replaces
    all of them by one, \<open>erase\<close> removes all of them and counts them, \<open>find\<close> gives the
    first.
  \<^item> \<open>request_header\<close> and \<open>response_header\<close> hold what the accessors of the Beast types
    return.
  \<^item> The operations of \<open>BeastRequestAdapter\<close> and \<open>BeastResponseAdapter\<close> follow the two
    \<open>adapter/*.cpp\<close> files; the locale \<open>header_adapter\<close> is the interface
    \<open>rule::http::RequestAdapter\<close> (and \<open>ResponseAdapter\<close>) through which the rule engine
    changes headers, and both adapters are shown to provide it.
\<close>

section \<open>Names and field sequences\<close>

text \<open>\<open>boost::algorithm::to_lower_copy\<close>: \<open>std::tolower\<close> of the classic locale, bytewise.\<close>

definition to_lower_char :: "char \<Rightarrow> char" where
  "to_lower_char c =
     (if of_char CHR ''A'' \<le> (of_char c :: nat) \<and> (of_char c :: nat) \<le> of_char CHR ''Z''
      then char_of ((of_char c :: nat) + 32) else c)"

definition to_lower_copy :: "string \<Rightarrow> string" where
  "to_lower_copy s = map to_lower_char s"

definition iequals :: "string \<Rightarrow> string \<Rightarrow> bool" where
  "iequals a b \<longleftrightarrow> to_lower_copy a = to_lower_copy b"

type_synonym fields = "(string \<times> string) list"

text \<open>The fields of one name, in order, and the others.\<close>

definition entries :: "string \<Rightarrow> fields \<Rightarrow> fields" where
  "entries n fs = filter (\<lambda>f. iequals (fst f) n) fs"

definition others :: "string \<Rightarrow> fields \<Rightarrow> fields" where
  "others n fs = filter (\<lambda>f. \<not> iequals (fst f) n) fs"

lemma iequals_refl [simp]: "iequals n n"
  by (simp add: iequals_def)

lemma iequals_sym: "iequals m n \<longleftrightarrow> iequals n m"
  by (auto simp: iequals_def)

lemma iequals_trans: "iequals a b \<Longrightarrow> iequals b c \<Longrightarrow> iequals a c"
  by (simp add: iequals_def)

lemma entries_cong: "iequals m n \<Longrightarrow> entries m fs = entries n fs"
  by (simp add: entries_def iequals_def)

lemma others_cong: "iequals m n \<Longrightarrow> others m fs = others n fs"
  by (simp add: others_def iequals_def)

lemma entries_others: "\<not> iequals m n \<Longrightarrow> entries m (others n fs) = entries m fs"
  unfolding entries_def others_def filter_filter
  by (rule filter_cong) (auto simp: iequals_def)

lemma entries_others_same [simp]: "entries n (others n fs) = []"
  by (simp add: entries_def others_def)

lemma others_others_swap: "others m (others n fs) = others n (others m fs)"
  by (simp add: others_def conj_commute)

lemma others_idem [simp]: "others n (others n fs) = others n fs"
  by (simp add: others_def)

lemma others_id_iff: "others n fs = fs \<longleftrightarrow> entries n fs = []"
  by (auto simp: others_def entries_def filter_id_conv filter_empty_conv)

text \<open>Two containers that agree on the other fields agree on every other name.\<close>

lemma entries_eq_of_others:
  assumes "others n fs = others n gs" and "\<not> iequals m n"
  shows "entries m fs = entries m gs"
  by (metis assms entries_others)

section \<open>The container of Boost.Beast\<close>

record fields_api =
  fields_insert :: "string \<Rightarrow> string \<Rightarrow> fields \<Rightarrow> fields"
  fields_set :: "string \<Rightarrow> string \<Rightarrow> fields \<Rightarrow> fields"
  fields_erase :: "string \<Rightarrow> fields \<Rightarrow> fields \<times> nat"
  fields_find :: "string \<Rightarrow> fields \<Rightarrow> string option"
  fields_contains :: "string \<Rightarrow> fields \<Rightarrow> bool"

definition first_value :: "string \<Rightarrow> fields \<Rightarrow> string option" where
  "first_value n fs = (case entries n fs of [] \<Rightarrow> None | f # _ \<Rightarrow> Some (snd f))"

locale beast_fields =
  fixes api :: fields_api
  assumes insert_entries: "entries n (fields_insert api n v fs) = entries n fs @ [(n, v)]"
    and insert_others: "others n (fields_insert api n v fs) = others n fs"
    and set_entries: "entries n (fields_set api n v fs) = [(n, v)]"
    and set_others: "others n (fields_set api n v fs) = others n fs"
    and erase_fields: "fst (fields_erase api n fs) = others n fs"
    and erase_count: "snd (fields_erase api n fs) = length (entries n fs)"
    and find_value: "fields_find api n fs = first_value n fs"
    and contains_iff: "fields_contains api n fs \<longleftrightarrow> entries n fs \<noteq> []"

section \<open>Messages\<close>

text \<open>
  \<open>http::verb\<close>: the two verbs the program compares with, the value for methods Beast does
  not know, and the other known ones.
\<close>

datatype verb = verb_unknown | verb_connect | verb_head | verb_known string

record request_header =
  rq_method :: verb
  method_string :: string
  target :: string
  version :: "32 word"
  rq_fields :: fields

record response_header =
  result_int :: "32 word"
  reason :: string
  rs_version :: "32 word"
  rs_fields :: fields

text \<open>What the accessors of a \<open>request_parser\<close> or \<open>response_parser\<close> return after the header is read.\<close>

record request_parser =
  rq_header :: request_header
  rq_chunked :: bool
  rq_content_length :: "uint64 option"
  rq_keep_alive :: bool

record response_parser =
  rs_header :: response_header
  rs_chunked :: bool
  rs_content_length :: "uint64 option"
  rs_keep_alive :: bool

section \<open>BeastRequestAdapter\<close>

definition RequestMethod :: "request_header \<Rightarrow> string" where
  "RequestMethod r = method_string r"

definition RequestTarget :: "request_header \<Rightarrow> string" where
  "RequestTarget r = target r"

definition RequestVersion :: "request_header \<Rightarrow> 32 word" where
  "RequestVersion r = version r"

definition RequestGetHeader :: "fields_api \<Rightarrow> string \<Rightarrow> request_header \<Rightarrow> string option" where
  "RequestGetHeader api name r = fields_find api name (rq_fields r)"

definition RequestSetHeader :: "fields_api \<Rightarrow> string \<Rightarrow> string \<Rightarrow> request_header \<Rightarrow> request_header" where
  "RequestSetHeader api name val r = r\<lparr>rq_fields := fields_set api name val (rq_fields r)\<rparr>"

definition RequestAddHeader :: "fields_api \<Rightarrow> string \<Rightarrow> string \<Rightarrow> request_header \<Rightarrow> request_header" where
  "RequestAddHeader api name val r =
     (if fields_contains api name (rq_fields r) then r
      else r\<lparr>rq_fields := fields_set api name val (rq_fields r)\<rparr>)"

definition RequestReplaceHeader :: "fields_api \<Rightarrow> string \<Rightarrow> string \<Rightarrow> request_header \<Rightarrow> request_header" where
  "RequestReplaceHeader api name val r =
     (if fields_contains api name (rq_fields r)
      then r\<lparr>rq_fields := fields_set api name val (rq_fields r)\<rparr> else r)"

definition RequestRemoveHeader :: "fields_api \<Rightarrow> string \<Rightarrow> request_header \<Rightarrow> request_header" where
  "RequestRemoveHeader api name r = r\<lparr>rq_fields := fst (fields_erase api name (rq_fields r))\<rparr>"

definition RequestGetAllHeaders :: "request_header \<Rightarrow> (string \<times> string) list" where
  "RequestGetAllHeaders r = map (\<lambda>f. (fst f, snd f)) (rq_fields r)"

section \<open>BeastResponseAdapter\<close>

definition ResponseStatus :: "response_header \<Rightarrow> 32 word" where
  "ResponseStatus r = result_int r"

definition ResponseReason :: "response_header \<Rightarrow> string" where
  "ResponseReason r = reason r"

definition ResponseVersion :: "response_header \<Rightarrow> 32 word" where
  "ResponseVersion r = rs_version r"

definition ResponseGetHeader :: "fields_api \<Rightarrow> string \<Rightarrow> response_header \<Rightarrow> string option" where
  "ResponseGetHeader api name r = fields_find api name (rs_fields r)"

definition ResponseSetHeader :: "fields_api \<Rightarrow> string \<Rightarrow> string \<Rightarrow> response_header \<Rightarrow> response_header" where
  "ResponseSetHeader api name val r = r\<lparr>rs_fields := fields_set api name val (rs_fields r)\<rparr>"

definition ResponseAddHeader :: "fields_api \<Rightarrow> string \<Rightarrow> string \<Rightarrow> response_header \<Rightarrow> response_header" where
  "ResponseAddHeader api name val r =
     (if fields_contains api name (rs_fields r) then r
      else r\<lparr>rs_fields := fields_set api name val (rs_fields r)\<rparr>)"

definition ResponseReplaceHeader :: "fields_api \<Rightarrow> string \<Rightarrow> string \<Rightarrow> response_header \<Rightarrow> response_header" where
  "ResponseReplaceHeader api name val r =
     (if fields_contains api name (rs_fields r)
      then r\<lparr>rs_fields := fields_set api name val (rs_fields r)\<rparr> else r)"

definition ResponseRemoveHeader :: "fields_api \<Rightarrow> string \<Rightarrow> response_header \<Rightarrow> response_header" where
  "ResponseRemoveHeader api name r = r\<lparr>rs_fields := fst (fields_erase api name (rs_fields r))\<rparr>"

definition ResponseGetAllHeaders :: "response_header \<Rightarrow> (string \<times> string) list" where
  "ResponseGetAllHeaders r = map (\<lambda>f. (fst f, snd f)) (rs_fields r)"

lemmas request_adapter_defs [proxy_defs] =
  RequestGetHeader_def RequestSetHeader_def RequestAddHeader_def RequestReplaceHeader_def
  RequestRemoveHeader_def RequestGetAllHeaders_def

lemmas response_adapter_defs [proxy_defs] =
  ResponseGetHeader_def ResponseSetHeader_def ResponseAddHeader_def ResponseReplaceHeader_def
  ResponseRemoveHeader_def ResponseGetAllHeaders_def

section \<open>The adapter interface\<close>

text \<open>
  The contract of \<open>rule::http::RequestAdapter\<close> and \<open>ResponseAdapter\<close>, over the
  headers \<open>get_all\<close> returns: \<open>set\<close> leaves one field of the name, \<open>add\<close> acts only where
  the name is absent and \<open>replace\<close> only where it is present, \<open>remove\<close> drops the name, and
  nothing touches another name.
\<close>

locale header_adapter =
  fixes get_all :: "'m \<Rightarrow> fields"
    and get_h :: "string \<Rightarrow> 'm \<Rightarrow> string option"
    and set_h add_h replace_h :: "string \<Rightarrow> string \<Rightarrow> 'm \<Rightarrow> 'm"
    and remove_h :: "string \<Rightarrow> 'm \<Rightarrow> 'm"
  assumes get_first: "get_h n m = first_value n (get_all m)"
    and set_same: "entries n (get_all (set_h n v m)) = [(n, v)]"
    and set_rest: "others n (get_all (set_h n v m)) = others n (get_all m)"
    and add_eq: "add_h n v m = (if entries n (get_all m) = [] then set_h n v m else m)"
    and replace_eq: "replace_h n v m = (if entries n (get_all m) = [] then m else set_h n v m)"
    and remove_all: "get_all (remove_h n m) = others n (get_all m)"
begin

lemma get_cong: "iequals a b \<Longrightarrow> get_h a m = get_h b m"
  by (simp add: get_first first_value_def entries_cong)

lemma get_None_iff: "get_h n m = None \<longleftrightarrow> entries n (get_all m) = []"
  by (simp add: get_first first_value_def split: list.split)

lemma get_other:
  assumes "others n (get_all m') = others n (get_all m)" and "\<not> iequals k n"
  shows "get_h k m' = get_h k m"
  using entries_eq_of_others [OF assms] by (simp add: get_first first_value_def)

lemma get_set: "get_h k (set_h n v m) = (if iequals k n then Some v else get_h k m)"
proof (cases "iequals k n")
  case True
  have "get_h n (set_h n v m) = Some v"
    by (simp add: get_first first_value_def set_same)
  with True show ?thesis using get_cong [OF True] by simp
next
  case False
  with get_other [OF set_rest False] show ?thesis by simp
qed

lemma get_add:
  "get_h k (add_h n v m) =
     (if iequals k n \<and> get_h n m = None then Some v else get_h k m)"
  by (simp add: add_eq get_set get_None_iff)

lemma get_replace:
  "get_h k (replace_h n v m) =
     (if iequals k n \<and> get_h n m \<noteq> None then Some v else get_h k m)"
  by (simp add: replace_eq get_set get_None_iff)

lemma get_remove: "get_h k (remove_h n m) = (if iequals k n then None else get_h k m)"
proof (cases "iequals k n")
  case True
  have "get_h n (remove_h n m) = None"
    by (simp add: get_None_iff remove_all)
  with True show ?thesis using get_cong [OF True] by simp
next
  case False
  have "others n (get_all (remove_h n m)) = others n (get_all m)"
    by (simp add: remove_all)
  from get_other [OF this False] False show ?thesis by simp
qed

lemma rest_unchanged:
  "others n (get_all (set_h n v m)) = others n (get_all m)"
  "others n (get_all (add_h n v m)) = others n (get_all m)"
  "others n (get_all (replace_h n v m)) = others n (get_all m)"
  "others n (get_all (remove_h n m)) = others n (get_all m)"
  by (simp_all add: set_rest add_eq replace_eq remove_all)

lemma single_after_set: "length (entries n (get_all (set_h n v m))) = 1"
  by (simp add: set_same)

end

text \<open>Both adapters provide the interface, on every container that keeps its promises.\<close>

sublocale beast_fields \<subseteq> request: header_adapter
  RequestGetAllHeaders "RequestGetHeader api" "RequestSetHeader api" "RequestAddHeader api"
  "RequestReplaceHeader api" "RequestRemoveHeader api"
  by unfold_locales
     (simp_all add: request_adapter_defs find_value set_entries set_others contains_iff
        erase_fields)

sublocale beast_fields \<subseteq> response: header_adapter
  ResponseGetAllHeaders "ResponseGetHeader api" "ResponseSetHeader api" "ResponseAddHeader api"
  "ResponseReplaceHeader api" "ResponseRemoveHeader api"
  by unfold_locales
     (simp_all add: response_adapter_defs find_value set_entries set_others contains_iff
        erase_fields)

context beast_fields
begin

lemmas request_get = request.get_set request.get_add request.get_replace request.get_remove
lemmas response_get = response.get_set response.get_add response.get_replace response.get_remove
lemmas request_rest = request.rest_unchanged
lemmas response_rest = response.rest_unchanged

end

text \<open>
  A container that keeps the promises: the fields as a list. It is the instance the
  witnesses evaluate.
\<close>

definition list_fields :: fields_api where
  "list_fields = \<lparr>
     fields_insert = (\<lambda>n v fs. fs @ [(n, v)]),
     fields_set = (\<lambda>n v fs. others n fs @ [(n, v)]),
     fields_erase = (\<lambda>n fs. (others n fs, length (entries n fs))),
     fields_find = first_value,
     fields_contains = (\<lambda>n fs. entries n fs \<noteq> [])\<rparr>"

interpretation lf: beast_fields list_fields
  by unfold_locales (simp_all add: list_fields_def entries_def others_def)

section \<open>Properties\<close>

text \<open>
  The four header operations of \<open>BeastRequestAdapter\<close> do what the rule language
  says, whatever the case of the names: after set the header has the value; add gives the
  value only where there was no such header; replace only where there was one; after remove
  there is none; and every other header reads as before.
\<close>

theorem request_adapter_correct:
  assumes "beast_fields api"
  shows "RequestGetHeader api k (RequestSetHeader api n v r) =
      (if iequals k n then Some v else RequestGetHeader api k r) \<and>
    RequestGetHeader api k (RequestAddHeader api n v r) =
      (if iequals k n \<and> RequestGetHeader api n r = None then Some v
       else RequestGetHeader api k r) \<and>
    RequestGetHeader api k (RequestReplaceHeader api n v r) =
      (if iequals k n \<and> RequestGetHeader api n r \<noteq> None then Some v
       else RequestGetHeader api k r) \<and>
    RequestGetHeader api k (RequestRemoveHeader api n r) =
      (if iequals k n then None else RequestGetHeader api k r)"
  using assms by (simp add: beast_fields.request_get)

theorem request_adapter_correct_witness:
  "beast_fields list_fields \<and>
   RequestGetHeader list_fields ''x-a''
     (RequestAddHeader list_fields ''X-A'' ''2''
        \<lparr>rq_method = verb_head, method_string = ''HEAD'', target = ''/'', version = 11,
         rq_fields = [(''Host'', ''h'')]\<rparr>) = Some ''2''"
proof -
  let ?r = "\<lparr>rq_method = verb_head, method_string = ''HEAD'', target = ''/'', version = 11,
    rq_fields = [(''Host'', ''h'')]\<rparr> :: request_header"
  have "iequals ''x-a'' ''X-A''" by code_simp
  moreover have "RequestGetHeader list_fields ''X-A'' ?r = None" by code_simp
  ultimately show ?thesis
    using request_adapter_correct [OF lf.beast_fields_axioms, of "''x-a''" "''X-A''" "''2''" ?r]
      lf.beast_fields_axioms by simp
qed

text \<open>
  The same contract holds for \<open>BeastResponseAdapter\<close>; moreover each of its
  operations leaves the sequence of the fields with other names exactly as it was, and set
  leaves exactly one field of the name.
\<close>

theorem response_adapter_correct:
  assumes "beast_fields api"
  shows "ResponseGetHeader api k (ResponseSetHeader api n v r) =
      (if iequals k n then Some v else ResponseGetHeader api k r) \<and>
    ResponseGetHeader api k (ResponseAddHeader api n v r) =
      (if iequals k n \<and> ResponseGetHeader api n r = None then Some v
       else ResponseGetHeader api k r) \<and>
    ResponseGetHeader api k (ResponseReplaceHeader api n v r) =
      (if iequals k n \<and> ResponseGetHeader api n r \<noteq> None then Some v
       else ResponseGetHeader api k r) \<and>
    ResponseGetHeader api k (ResponseRemoveHeader api n r) =
      (if iequals k n then None else ResponseGetHeader api k r) \<and>
    entries n (ResponseGetAllHeaders (ResponseSetHeader api n v r)) = [(n, v)] \<and>
    others n (ResponseGetAllHeaders (ResponseSetHeader api n v r)) = others n (rs_fields r) \<and>
    others n (ResponseGetAllHeaders (ResponseAddHeader api n v r)) = others n (rs_fields r) \<and>
    others n (ResponseGetAllHeaders (ResponseReplaceHeader api n v r)) = others n (rs_fields r) \<and>
    ResponseGetAllHeaders (ResponseRemoveHeader api n r) = others n (rs_fields r)"
  using assms
  by (simp add: beast_fields.response_get)
     (simp add: response_adapter_defs beast_fields.set_entries beast_fields.set_others
        beast_fields.erase_fields)

theorem response_adapter_correct_witness:
  "beast_fields list_fields \<and>
   ResponseGetHeader list_fields ''a''
     (ResponseReplaceHeader list_fields ''A'' ''2''
        \<lparr>result_int = 200, reason = ''OK'', rs_version = 11, rs_fields = [(''a'', ''1'')]\<rparr>)
     = Some ''2''"
proof -
  let ?r = "\<lparr>result_int = 200, reason = ''OK'', rs_version = 11,
    rs_fields = [(''a'', ''1'')]\<rparr> :: response_header"
  have "iequals ''a'' ''A''" by code_simp
  moreover have "ResponseGetHeader list_fields ''A'' ?r = Some ''1''" by code_simp
  ultimately show ?thesis
    using response_adapter_correct [OF lf.beast_fields_axioms, of "''a''" "''A''" "''2''" ?r]
      lf.beast_fields_axioms by simp
qed

end
