(* ===== verification/Http_Body_Info.thy ===== *)
theory Http_Body_Info
  imports Http_Fields
begin

text \<open>
  The framing of message bodies (\<open>body_info.h\<close>, \<open>body_info.cpp\<close>): from the parsed headers
  of a request, or of a request and its response, to the way the body is delimited.
\<close>

datatype MessageDirection = Request | Response

datatype RequestBodyFraming = ReqNone | ReqContentLength | ReqChunked

datatype ResponseBodyFraming = RespNone | RespContentLength | RespChunked
  | RespCloseDelimited | RespTunnel

record 'framing BodyInfo =
  framing :: 'framing
  content_length :: size_t

definition DetermineRequestBodyInfo :: "request_parser \<Rightarrow> RequestBodyFraming BodyInfo" where
  "DetermineRequestBodyInfo p =
     (if rq_chunked p then \<lparr>framing = ReqChunked, content_length = 0\<rparr>
      else case rq_content_length p of
        Some n \<Rightarrow> \<lparr>framing = ReqContentLength, content_length = n\<rparr>
      | None \<Rightarrow> \<lparr>framing = ReqNone, content_length = 0\<rparr>)"

definition DetermineResponseBodyInfo ::
    "request_parser \<Rightarrow> response_parser \<Rightarrow> ResponseBodyFraming BodyInfo" where
  "DetermineResponseBodyInfo q p =
     (let status_code = result_int (rs_header p) in
      if rq_method (rq_header q) = verb_head then \<lparr>framing = RespNone, content_length = 0\<rparr>
      else if 100 \<le> status_code \<and> status_code < 200
        then \<lparr>framing = RespNone, content_length = 0\<rparr>
      else if status_code = 204 \<or> status_code = 304
        then \<lparr>framing = RespNone, content_length = 0\<rparr>
      else if rq_method (rq_header q) = verb_connect \<and> 200 \<le> status_code \<and> status_code < 300
        then \<lparr>framing = RespTunnel, content_length = 0\<rparr>
      else if rs_chunked p then \<lparr>framing = RespChunked, content_length = 0\<rparr>
      else case rs_content_length p of
        Some n \<Rightarrow> \<lparr>framing = RespContentLength, content_length = n\<rparr>
      | None \<Rightarrow> \<lparr>framing = RespCloseDelimited, content_length = 0\<rparr>)"

text \<open>
  The text \<open>magic_enum\<close> prints for an enumerator, as \<open>operator<<\<close> writes it: its name.
\<close>

primrec show_RequestBodyFraming :: "RequestBodyFraming \<Rightarrow> string" where
  "show_RequestBodyFraming ReqNone = ''None''"
| "show_RequestBodyFraming ReqContentLength = ''ContentLength''"
| "show_RequestBodyFraming ReqChunked = ''Chunked''"

primrec show_ResponseBodyFraming :: "ResponseBodyFraming \<Rightarrow> string" where
  "show_ResponseBodyFraming RespNone = ''None''"
| "show_ResponseBodyFraming RespContentLength = ''ContentLength''"
| "show_ResponseBodyFraming RespChunked = ''Chunked''"
| "show_ResponseBodyFraming RespCloseDelimited = ''CloseDelimited''"
| "show_ResponseBodyFraming RespTunnel = ''Tunnel''"

section \<open>The message body length rules\<close>

text \<open>
  The rules of HTTP/1.1 for the length of a response body, as conditions: a response that
  cannot have a body, a successful answer to CONNECT, and otherwise transfer coding before
  content length before the end of the connection.
\<close>

definition bodyless_response :: "request_parser \<Rightarrow> response_parser \<Rightarrow> bool" where
  "bodyless_response q p \<longleftrightarrow> rq_method (rq_header q) = verb_head \<or>
     unat (result_int (rs_header p)) \<in> {100..<200} \<union> {204, 304}"

definition tunnel_response :: "request_parser \<Rightarrow> response_parser \<Rightarrow> bool" where
  "tunnel_response q p \<longleftrightarrow> rq_method (rq_header q) = verb_connect \<and>
     unat (result_int (rs_header p)) \<in> {200..<300}"

lemma status_ranges:
  fixes st :: "32 word"
  shows "100 \<le> st \<and> st < 200 \<longleftrightarrow> unat st \<in> {100..<200}"
    and "200 \<le> st \<and> st < 300 \<longleftrightarrow> unat st \<in> {200..<300}"
    and "st = 204 \<or> st = 304 \<longleftrightarrow> unat st \<in> {204, 304}"
  by (simp_all add: word_le_nat_alt word_less_nat_alt word_unat_eq_iff)

lemma response_framing_cases:
  "framing (DetermineResponseBodyInfo q p) =
     (if bodyless_response q p then RespNone
      else if tunnel_response q p then RespTunnel
      else if rs_chunked p then RespChunked
      else if rs_content_length p = None then RespCloseDelimited else RespContentLength)"
  using status_ranges [of "result_int (rs_header p)"]
  by (auto simp: DetermineResponseBodyInfo_def bodyless_response_def tunnel_response_def Let_def
      split: option.split)

section \<open>Properties\<close>

text \<open>
  Request framing: chunked coding wins over a content length, a content length is used
  with its exact value only without chunked coding, and a request with neither has no body.
\<close>

theorem request_framing_correct:
  "(framing (DetermineRequestBodyInfo p) = ReqChunked) = rq_chunked p \<and>
   (framing (DetermineRequestBodyInfo p) = ReqContentLength) =
     (\<not> rq_chunked p \<and> rq_content_length p = Some (content_length (DetermineRequestBodyInfo p))) \<and>
   (framing (DetermineRequestBodyInfo p) = ReqNone) =
     (\<not> rq_chunked p \<and> rq_content_length p = None)"
  by (auto simp: DetermineRequestBodyInfo_def split: option.split)

text \<open>
  C24. Response framing follows the message body length rules: no body for HEAD, 1xx, 204 and
  304 whatever the headers say; a tunnel for a successful CONNECT; otherwise chunked coding
  before a content length, whose exact value is kept; and only a response with neither is
  read until the connection closes.
\<close>

theorem response_framing_correct:
  "(framing (DetermineResponseBodyInfo q p) = RespNone) = bodyless_response q p \<and>
   (framing (DetermineResponseBodyInfo q p) = RespTunnel) =
     (\<not> bodyless_response q p \<and> tunnel_response q p) \<and>
   (framing (DetermineResponseBodyInfo q p) = RespChunked) =
     (\<not> bodyless_response q p \<and> \<not> tunnel_response q p \<and> rs_chunked p) \<and>
   (framing (DetermineResponseBodyInfo q p) = RespContentLength) =
     (\<not> bodyless_response q p \<and> \<not> tunnel_response q p \<and> \<not> rs_chunked p \<and>
      rs_content_length p = Some (content_length (DetermineResponseBodyInfo q p))) \<and>
   (framing (DetermineResponseBodyInfo q p) = RespCloseDelimited) =
     (\<not> bodyless_response q p \<and> \<not> tunnel_response q p \<and> \<not> rs_chunked p \<and>
      rs_content_length p = None)"
proof -
  have "content_length (DetermineResponseBodyInfo q p) = n"
    if "rs_content_length p = Some n" "\<not> bodyless_response q p" "\<not> tunnel_response q p"
      "\<not> rs_chunked p" for n
    using that status_ranges [of "result_int (rs_header p)"]
    by (auto simp: DetermineResponseBodyInfo_def bodyless_response_def tunnel_response_def Let_def)
  then show ?thesis
    by (auto simp: response_framing_cases)
qed

end
