(* ===== verification/Proxy_Errors.thy ===== *)
theory Proxy_Errors
  imports Proxy_Prelude
begin

text \<open>
  The error values of the program: the three error enumerations (\<open>proxypp::Errc\<close>,
  \<open>proxypp::rule::Errc\<close>, \<open>proxypp::script::qjs::Errc\<close>) with their integer values, the
  error categories that turn an integer back into a text, \<open>boost::system::error_code\<close> as
  a pair of value and category, and the class \<open>proxypp::Error\<close> with the constructor that
  fills in a missing message. \<open>proxypp::Result<T>\<close> is the sum type \<open>'a result\<close>.
\<close>

section \<open>The enumerations\<close>

datatype Errc = Ok | InternalError | InvalidArgument | FileOperationFailed
  | JsonParseFailed | JsonConversionFailed | InvalidJsonSchema
  | JsonSchemaValidationFailed | StartTcpServerFailed

datatype rule_Errc = RuleOk | InvalidRule | RuleEngineInitializationFailed
  | RuleContextPreparationFailed | InvalidMatchExpression | MatchEvaluationFailed
  | MatchResultNotBoolean | InvalidAction | ActionExecutionFailed

datatype qjs_Errc = QjsOk | CreateRuntimeFailed | CreateContextFailed | InvalidRuntime
  | InvalidContext | InvalidValue | ContextMismatch | ConvertValueFailed
  | ExecuteScriptFailed | GetPropertyFailed | SetPropertyFailed | GetElementFailed
  | SetElementFailed | JsInternalError

text \<open>The enumerators in declaration order; the integer of an enumerator is its position.\<close>

definition all_Errc :: "Errc list" where
  "all_Errc = [Ok, InternalError, InvalidArgument, FileOperationFailed, JsonParseFailed,
     JsonConversionFailed, InvalidJsonSchema, JsonSchemaValidationFailed,
     StartTcpServerFailed]"

definition all_rule_Errc :: "rule_Errc list" where
  "all_rule_Errc = [RuleOk, InvalidRule, RuleEngineInitializationFailed,
     RuleContextPreparationFailed, InvalidMatchExpression, MatchEvaluationFailed,
     MatchResultNotBoolean, InvalidAction, ActionExecutionFailed]"

definition all_qjs_Errc :: "qjs_Errc list" where
  "all_qjs_Errc = [QjsOk, CreateRuntimeFailed, CreateContextFailed, InvalidRuntime,
     InvalidContext, InvalidValue, ContextMismatch, ConvertValueFailed,
     ExecuteScriptFailed, GetPropertyFailed, SetPropertyFailed, GetElementFailed,
     SetElementFailed, JsInternalError]"

primrec position :: "'a list \<Rightarrow> 'a \<Rightarrow> nat" where
  "position [] x = 0"
| "position (y # ys) x = (if x = y then 0 else Suc (position ys x))"

definition nth_opt :: "'a list \<Rightarrow> int \<Rightarrow> 'a option" where
  "nth_opt xs i = (if 0 \<le> i \<and> nat i < length xs then Some (xs ! nat i) else None)"

lemma position_less: "x \<in> set xs \<Longrightarrow> position xs x < length xs"
  by (induction xs) auto

lemma nth_position: "x \<in> set xs \<Longrightarrow> xs ! position xs x = x"
  by (induction xs) auto

lemma nth_opt_position: "x \<in> set xs \<Longrightarrow> nth_opt xs (int (position xs x)) = Some x"
  by (simp add: nth_opt_def position_less nth_position)

section \<open>Error codes and categories\<close>

text \<open>A \<open>boost::system::error_category\<close> is known by its name and its message function.\<close>

datatype category = CommonCategory | RuleCategory | QjsCategory

record error_code =
  ec_value :: int
  ec_category :: category

primrec category_name :: "category \<Rightarrow> string" where
  "category_name CommonCategory = ''proxypp::common''"
| "category_name RuleCategory = ''proxypp.rule''"
| "category_name QjsCategory = ''proxypp.qjs''"

definition make_error_code :: "Errc \<Rightarrow> error_code" where
  "make_error_code e =
     \<lparr>ec_value = int (position all_Errc e), ec_category = CommonCategory\<rparr>"

definition rule_make_error_code :: "rule_Errc \<Rightarrow> error_code" where
  "rule_make_error_code e =
     \<lparr>ec_value = int (position all_rule_Errc e), ec_category = RuleCategory\<rparr>"

definition qjs_make_error_code :: "qjs_Errc \<Rightarrow> error_code" where
  "qjs_make_error_code e =
     \<lparr>ec_value = int (position all_qjs_Errc e), ec_category = QjsCategory\<rparr>"

text \<open>
  \<open>message(int ev)\<close> casts the integer to the enumeration and switches on it; an integer
  of no enumerator falls out of the switch.
\<close>

definition common_message :: "int \<Rightarrow> string" where
  "common_message ev = (case nth_opt all_Errc ev of
     Some Ok \<Rightarrow> ''success''
   | Some InternalError \<Rightarrow> ''internal error''
   | Some InvalidArgument \<Rightarrow> ''invalid argument''
   | Some FileOperationFailed \<Rightarrow> ''file operation failed''
   | Some JsonParseFailed \<Rightarrow> ''parse json failed''
   | Some JsonConversionFailed \<Rightarrow> ''convert json failed''
   | Some InvalidJsonSchema \<Rightarrow> ''invalid json schema''
   | Some JsonSchemaValidationFailed \<Rightarrow> ''json schema validation failed''
   | Some StartTcpServerFailed \<Rightarrow> ''start tcp server failed''
   | None \<Rightarrow> ''unknown error'')"

definition rule_message :: "int \<Rightarrow> string" where
  "rule_message ev = (case nth_opt all_rule_Errc ev of
     Some RuleOk \<Rightarrow> ''success''
   | Some InvalidRule \<Rightarrow> ''invalid rule''
   | Some RuleEngineInitializationFailed \<Rightarrow> ''rule engine initialization failed''
   | Some RuleContextPreparationFailed \<Rightarrow> ''rule context preparation failed''
   | Some InvalidMatchExpression \<Rightarrow> ''invalid match expression''
   | Some MatchEvaluationFailed \<Rightarrow> ''match expression evaluation failed''
   | Some MatchResultNotBoolean \<Rightarrow> ''match expression result is not boolean''
   | Some InvalidAction \<Rightarrow> ''invalid rule action''
   | Some ActionExecutionFailed \<Rightarrow> ''action execution failed''
   | None \<Rightarrow> ''unknown rule error'')"

definition qjs_message :: "int \<Rightarrow> string" where
  "qjs_message ev = (case nth_opt all_qjs_Errc ev of
     Some QjsOk \<Rightarrow> ''success''
   | Some CreateRuntimeFailed \<Rightarrow> ''failed to create QuickJS runtime''
   | Some CreateContextFailed \<Rightarrow> ''failed to create QuickJS context''
   | Some InvalidRuntime \<Rightarrow> ''invalid runtime''
   | Some InvalidContext \<Rightarrow> ''invalid context''
   | Some InvalidValue \<Rightarrow> ''invalid value''
   | Some ContextMismatch \<Rightarrow> ''context mismatch''
   | Some ConvertValueFailed \<Rightarrow> ''convert value failed''
   | Some ExecuteScriptFailed \<Rightarrow> ''execute script failed''
   | Some GetPropertyFailed \<Rightarrow> ''failed to get JavaScript property''
   | Some SetPropertyFailed \<Rightarrow> ''failed to set JavaScript property''
   | Some GetElementFailed \<Rightarrow> ''get element from array failed''
   | Some SetElementFailed \<Rightarrow> ''set element to array failed''
   | Some JsInternalError \<Rightarrow> ''javascript runtime internal error''
   | None \<Rightarrow> ''unknown QuickJS error'')"

primrec category_message :: "category \<Rightarrow> int \<Rightarrow> string" where
  "category_message CommonCategory ev = common_message ev"
| "category_message RuleCategory ev = rule_message ev"
| "category_message QjsCategory ev = qjs_message ev"

definition ec_message :: "error_code \<Rightarrow> string" where
  "ec_message c = category_message (ec_category c) (ec_value c)"

definition ec_failed :: "error_code \<Rightarrow> bool" where
  "ec_failed c \<longleftrightarrow> ec_value c \<noteq> 0"

section \<open>The class Error and Result\<close>

record Error =
  code :: error_code
  message :: string

definition mk_Error :: "error_code \<Rightarrow> string \<Rightarrow> Error" where
  "mk_Error c msg =
     \<lparr>code = c, message = (if msg = [] \<and> ec_failed c then ec_message c else msg)\<rparr>"

definition Error_bool :: "Error \<Rightarrow> bool" where
  "Error_bool e = ec_failed (code e)"

type_synonym 'a result = "Error + 'a"

abbreviation Unexpected :: "Error \<Rightarrow> 'a result" where
  "Unexpected \<equiv> Inl"

abbreviation common_error :: "Errc \<Rightarrow> string \<Rightarrow> Error" where
  "common_error e msg \<equiv> mk_Error (make_error_code e) msg"

abbreviation rule_error :: "rule_Errc \<Rightarrow> string \<Rightarrow> Error" where
  "rule_error e msg \<equiv> mk_Error (rule_make_error_code e) msg"

abbreviation qjs_error :: "qjs_Errc \<Rightarrow> string \<Rightarrow> Error" where
  "qjs_error e msg \<equiv> mk_Error (qjs_make_error_code e) msg"

lemmas error_code_defs [proxy_defs] =
  make_error_code_def rule_make_error_code_def qjs_make_error_code_def

section \<open>Lemmas\<close>

lemma mem_all_Errc [simp]: "e \<in> set all_Errc"
  by (cases e) (simp_all add: all_Errc_def)

lemma mem_all_rule_Errc [simp]: "e \<in> set all_rule_Errc"
  by (cases e) (simp_all add: all_rule_Errc_def)

lemma mem_all_qjs_Errc [simp]: "e \<in> set all_qjs_Errc"
  by (cases e) (simp_all add: all_qjs_Errc_def)

lemma position_inj:
  "x \<in> set xs \<Longrightarrow> y \<in> set xs \<Longrightarrow> position xs x = position xs y \<longleftrightarrow> x = y"
  by (metis nth_position)

lemma make_error_code_eq_iff [simp]:
  "make_error_code a = make_error_code b \<longleftrightarrow> a = b"
  "rule_make_error_code c = rule_make_error_code d \<longleftrightarrow> c = d"
  "qjs_make_error_code e = qjs_make_error_code f \<longleftrightarrow> e = f"
  by (simp_all add: error_code_defs position_inj)

lemma make_error_code_categories [simp]:
  "make_error_code a \<noteq> rule_make_error_code b"
  "make_error_code a \<noteq> qjs_make_error_code c"
  "rule_make_error_code b \<noteq> qjs_make_error_code c"
  by (simp_all add: error_code_defs)

lemma ec_failed_iff [simp]:
  "ec_failed (make_error_code a) \<longleftrightarrow> a \<noteq> Ok"
  "ec_failed (rule_make_error_code b) \<longleftrightarrow> b \<noteq> RuleOk"
  "ec_failed (qjs_make_error_code c) \<longleftrightarrow> c \<noteq> QjsOk"
  by (simp_all add: ec_failed_def error_code_defs all_Errc_def all_rule_Errc_def
        all_qjs_Errc_def)

lemma mk_Error_code [simp]: "code (mk_Error c msg) = c"
  by (simp add: mk_Error_def)

lemma mk_Error_message: "msg \<noteq> [] \<Longrightarrow> message (mk_Error c msg) = msg"
  by (simp add: mk_Error_def)

lemma category_message_nonempty: "category_message cat ev \<noteq> []"
  by (cases cat) (simp_all add: common_message_def rule_message_def qjs_message_def
      split: option.split Errc.split rule_Errc.split qjs_Errc.split)

text \<open>The texts of a category tell its enumerators apart.\<close>

lemma common_message_inj: "common_message (int (position all_Errc a)) =
    common_message (int (position all_Errc b)) \<Longrightarrow> a = b"
  unfolding common_message_def nth_opt_position [OF mem_all_Errc]
  by (cases a; cases b; simp)

section \<open>Properties\<close>

text \<open>
  An \<open>Error\<close> built from a failing error code never has an empty text: the text is
  the one given, or, when none is given, the text of the code's category. The code given is
  the code kept, and the conversion to \<open>bool\<close> says whether that code is a failure.
\<close>

theorem Error_has_message:
  "ec_failed c \<Longrightarrow> message (mk_Error c msg) = (if msg = [] then ec_message c else msg)
     \<and> message (mk_Error c msg) \<noteq> [] \<and> Error_bool (mk_Error c msg)"
  by (simp add: mk_Error_def Error_bool_def ec_message_def category_message_nonempty)

theorem Error_has_message_witness:
  "ec_failed (rule_make_error_code InvalidAction) \<and>
   message (rule_error InvalidAction []) = ''invalid rule action'' \<and>
   Error_bool (rule_error InvalidAction [])"
proof -
  have h: "ec_failed (rule_make_error_code InvalidAction)"
    by simp
  have "ec_message (rule_make_error_code InvalidAction) = ''invalid rule action''"
    by (simp add: ec_message_def rule_make_error_code_def rule_message_def nth_opt_def
        all_rule_Errc_def)
  then show ?thesis
    using h Error_has_message [OF h, of "[]"] by simp
qed

text \<open>
  The round trip of the error enumerations: an enumerator converted to an error code and
  back by the cast in \<open>message(int)\<close> is the enumerator itself, no two enumerators share
  an error code, and codes of different categories are never equal.
\<close>

theorem error_code_roundtrip:
  "nth_opt all_Errc (ec_value (make_error_code a)) = Some a \<and>
   nth_opt all_rule_Errc (ec_value (rule_make_error_code b)) = Some b \<and>
   nth_opt all_qjs_Errc (ec_value (qjs_make_error_code c)) = Some c \<and>
   (make_error_code a = make_error_code a') = (a = a') \<and>
   (rule_make_error_code b = rule_make_error_code b') = (b = b') \<and>
   (qjs_make_error_code c = qjs_make_error_code c') = (c = c') \<and>
   make_error_code a \<noteq> rule_make_error_code b \<and>
   make_error_code a \<noteq> qjs_make_error_code c \<and>
   rule_make_error_code b \<noteq> qjs_make_error_code c"
  by (simp add: error_code_defs nth_opt_position position_inj)

end
