(* ===== verification/Rule_Model.thy ===== *)
theory Rule_Model
  imports Proxy_Errors
begin

text \<open>
  The data of the rule language (\<open>rule/op.h\<close>, \<open>rule/match.h\<close>, \<open>rule/config.h\<close>,
  \<open>rule/http/model.h\<close>) and the conversions from strings of \<open>rule/http/model.cpp\<close>.
  A thrown \<open>std::invalid_argument\<close> is \<open>Inl\<close> of its text.
\<close>

datatype Op = OpNotSet | OpSet | OpAdd | OpRemove | OpReplace

datatype Phase = PhaseNotSet | PhaseRequest | PhaseResponse

datatype Target = TargetNotSet | TargetHeader

record HeaderNameData =
  hn_name :: string

record HeaderNameValueData =
  hnv_name :: string
  hnv_value :: string

datatype ActionData = NameData HeaderNameData | NameValueData HeaderNameValueData

record Action =
  op :: Op
  action_target :: Target
  data :: ActionData

record Match =
  expr :: string

record Rule =
  name :: string
  enabled :: bool
  phase :: Phase
  match :: "Match option"
  actions :: "Action list"

record HttpConfig =
  rules :: "Rule list option"

definition kRulesSchemaVersion :: int where
  "kRulesSchemaVersion = 1"

record Config =
  schema :: "string option"
  cfg_version :: int
  http :: "HttpConfig option"

text \<open>The values the default member initialisers give.\<close>

definition default_Action :: Action where
  "default_Action = \<lparr>op = OpNotSet, action_target = TargetNotSet, data = NameData \<lparr>hn_name = []\<rparr>\<rparr>"

definition default_Rule :: Rule where
  "default_Rule = \<lparr>name = [], enabled = True, phase = PhaseNotSet, match = None, actions = []\<rparr>"

definition default_Config :: Config where
  "default_Config = \<lparr>schema = None, cfg_version = kRulesSchemaVersion, http = None\<rparr>"

definition PhaseFromString :: "string \<Rightarrow> string + Phase" where
  "PhaseFromString v =
     (if v = ''request'' then Inr PhaseRequest
      else if v = ''response'' then Inr PhaseResponse
      else Inl (''invalid phase '' @ v))"

definition TargetFromString :: "string \<Rightarrow> string + Target" where
  "TargetFromString v =
     (if v = ''header'' then Inr TargetHeader else Inl (''invalid target '' @ v))"

text \<open>The names \<open>magic_enum\<close> prints and the names the JSON traits give the enumerators.\<close>

primrec show_Op :: "Op \<Rightarrow> string" where
  "show_Op OpNotSet = ''NotSet''"
| "show_Op OpSet = ''Set''"
| "show_Op OpAdd = ''Add''"
| "show_Op OpRemove = ''Remove''"
| "show_Op OpReplace = ''Replace''"

primrec show_Phase :: "Phase \<Rightarrow> string" where
  "show_Phase PhaseNotSet = ''NotSet''"
| "show_Phase PhaseRequest = ''Request''"
| "show_Phase PhaseResponse = ''Response''"

primrec show_Target :: "Target \<Rightarrow> string" where
  "show_Target TargetNotSet = ''NotSet''"
| "show_Target TargetHeader = ''Header''"

definition phase_json_names :: "(Phase \<times> string) list" where
  "phase_json_names = [(PhaseRequest, ''request''), (PhaseResponse, ''response'')]"

definition target_json_names :: "(Target \<times> string) list" where
  "target_json_names = [(TargetHeader, ''header'')]"

definition op_json_names :: "(Op \<times> string) list" where
  "op_json_names = [(OpSet, ''set''), (OpAdd, ''add''), (OpRemove, ''remove''),
     (OpReplace, ''replace'')]"

text \<open>The header name an action is about.\<close>

definition action_name :: "Action \<Rightarrow> string" where
  "action_name a = (case data a of NameData d \<Rightarrow> hn_name d | NameValueData d \<Rightarrow> hnv_name d)"

section \<open>Properties\<close>

text \<open>
  The conversions from strings invert the JSON names: every enumerator that has a JSON
  name is read back from it, a string that is no such name throws with a text that ends in
  the string, and the value for a missing setting is never read from a string.
\<close>

theorem enum_from_string_roundtrip:
  "((p, s) \<in> set phase_json_names) = (PhaseFromString s = Inr p) \<and>
   ((t, s) \<in> set target_json_names) = (TargetFromString s = Inr t) \<and>
   (s \<notin> snd ` set phase_json_names) = (PhaseFromString s = Inl (''invalid phase '' @ s)) \<and>
   (s \<notin> snd ` set target_json_names) = (TargetFromString s = Inl (''invalid target '' @ s)) \<and>
   PhaseFromString s \<noteq> Inr PhaseNotSet \<and> TargetFromString s \<noteq> Inr TargetNotSet"
  by (auto simp: PhaseFromString_def TargetFromString_def phase_json_names_def
      target_json_names_def)

end
