(* ===== verification/Session_IO.thy ===== *)
theory Session_IO
  imports Http_Body_Info Rule_Model "HOL-Library.Sublist"
begin

text \<open>
  The state of an \<open>HttpProxySession\<close> and its byte-level I/O.

  \<^item> Boost.Asio and Boost.Beast are not part of the repository. What their operations return
    is the parameter \<open>asio\<close>: one function per operation the session calls, from the log of
    the session's earlier I/O calls and the arguments of this call to the outcome. A fixed
    \<open>asio\<close> is one behaviour of the network, and a theorem about every \<open>asio\<close> covers all of
    them.
  \<^item> \<open>session\<close> holds the members of the class. \<open>io_log\<close> is not a member: it is the
    sequence of the I/O calls made so far with their outcomes. A \<open>ForwardPeer\<close> is a
    \<open>peer\<close>, whose read buffer is \<open>buf\<close>: every caller passes the buffer that belongs to the
    peer it reads from.
  \<^item> \<open>ReadSomeFromPeer\<close>, \<open>WriteToPeer\<close>, \<open>ForwardExactly\<close> and \<open>ForwardUntilEof\<close> follow
    \<open>http_proxy_session.cpp\<close>. Their loops may run forever and are \<open>loop\<close>s.
  \<^item> \<open>transfer f t s out s'\<close> says that between \<open>s\<close> and \<open>s'\<close> exactly the bytes \<open>out\<close> went
    from \<open>f\<close> to \<open>t\<close>: nothing lost, added or reordered. The locale \<open>reliable_link\<close> states a
    network that delivers, for the theorems that the loops return.
\<close>

section \<open>Peers, errors, events\<close>

datatype peer = Client | Remote

text \<open>The error codes the session compares with, and the others.\<close>

datatype io_error = eof | end_of_stream | operation_aborted | not_connected
  | connection_reset | other_error nat

type_synonym endpoint = string

datatype io_event =
    EvReadSome peer "io_error option" bytes
  | EvWrite peer bytes "io_error option" nat
  | EvReadRequest "io_error option" request_parser
  | EvReadResponse "io_error option" response_parser
  | EvWriteRequest request_header "io_error option"
  | EvWriteResponse response_header "io_error option"
  | EvResolve string string "io_error option" "endpoint list"
  | EvConnect "endpoint list" "io_error option"
  | EvShutdown peer "io_error option"
  | EvClose peer "io_error option"

type_synonym io_log = "io_event list"

record asio =
  async_read_some :: "io_log \<Rightarrow> peer \<Rightarrow> nat \<Rightarrow> io_error option \<times> bytes"
  async_write :: "io_log \<Rightarrow> peer \<Rightarrow> bytes \<Rightarrow> io_error option \<times> nat"
  async_read_request_header :: "io_log \<Rightarrow> bytes \<Rightarrow> io_error option \<times> request_parser \<times> bytes"
  async_read_response_header :: "io_log \<Rightarrow> bytes \<Rightarrow> io_error option \<times> response_parser \<times> bytes"
  async_write_request :: "io_log \<Rightarrow> request_header \<Rightarrow> io_error option"
  async_write_response :: "io_log \<Rightarrow> response_header \<Rightarrow> io_error option"
  async_resolve :: "io_log \<Rightarrow> string \<Rightarrow> string \<Rightarrow> io_error option \<times> endpoint list"
  async_connect :: "io_log \<Rightarrow> endpoint list \<Rightarrow> io_error option"
  socket_shutdown :: "io_log \<Rightarrow> peer \<Rightarrow> io_error option"
  socket_close :: "io_log \<Rightarrow> peer \<Rightarrow> io_error option"
  is_open :: "io_log \<Rightarrow> peer \<Rightarrow> bool"

section \<open>The session\<close>

record RemoteConnectionState =
  rc_host :: string
  rc_port :: string
  connected :: bool

record session =
  client_read_buffer :: bytes
  remote_read_buffer :: bytes
  remote_state :: RemoteConnectionState
  closed :: bool
  session_id :: uint64
  rule_http_config :: "HttpConfig option"
  io_log :: io_log

text \<open>The constructor: everything but the moved-in arguments has its default value.\<close>

definition HttpProxySession :: "uint64 \<Rightarrow> HttpConfig option \<Rightarrow> session" where
  "HttpProxySession sid cfg = \<lparr>client_read_buffer = [], remote_read_buffer = [],
     remote_state = \<lparr>rc_host = [], rc_port = [], connected = False\<rparr>,
     closed = False, session_id = sid, rule_http_config = cfg, io_log = []\<rparr>"

primrec buf :: "peer \<Rightarrow> session \<Rightarrow> bytes" where
  "buf Client s = client_read_buffer s"
| "buf Remote s = remote_read_buffer s"

lemma HttpProxySession_simps [simp]:
  "buf p (HttpProxySession sid cfg) = []" "io_log (HttpProxySession sid cfg) = []"
  "closed (HttpProxySession sid cfg) = False" "session_id (HttpProxySession sid cfg) = sid"
  "rule_http_config (HttpProxySession sid cfg) = cfg"
  by (cases p; simp add: HttpProxySession_def)+

primrec set_buf :: "peer \<Rightarrow> bytes \<Rightarrow> session \<Rightarrow> session" where
  "set_buf Client b s = s\<lparr>client_read_buffer := b\<rparr>"
| "set_buf Remote b s = s\<lparr>remote_read_buffer := b\<rparr>"

definition record_event :: "io_event \<Rightarrow> session \<Rightarrow> session" where
  "record_event e s = s\<lparr>io_log := io_log s @ [e]\<rparr>"

text \<open>\<open>flat_buffer::commit\<close> and \<open>flat_buffer::consume\<close>.\<close>

definition commit :: "peer \<Rightarrow> bytes \<Rightarrow> session \<Rightarrow> session" where
  "commit p bs s = set_buf p (buf p s @ bs) s"

definition consume :: "peer \<Rightarrow> nat \<Rightarrow> session \<Rightarrow> session" where
  "consume p n s = set_buf p (drop n (buf p s)) s"

record ReadSomeResult =
  bytes_read :: nat
  at_eof :: bool

section \<open>Reading and writing\<close>

definition ReadSomeFromPeer :: "asio \<Rightarrow> peer \<Rightarrow> session \<Rightarrow> ReadSomeResult option \<times> session" where
  "ReadSomeFromPeer env from s =
     (case async_read_some env (io_log s) from (64 * 1024) of (ec, bs) \<Rightarrow>
        let s1 = record_event (EvReadSome from ec bs) s in
        (case ec of
           Some e \<Rightarrow>
             if e = eof then (Some \<lparr>bytes_read = length bs, at_eof = True\<rparr>, commit from bs s1)
             else if e = operation_aborted then (None, commit from bs s1)
             else (None, s1)
         | None \<Rightarrow>
             if length bs = 0 then (None, s1)
             else (Some \<lparr>bytes_read = length bs, at_eof = False\<rparr>, commit from bs s1)))"

definition WriteToPeer ::
    "asio \<Rightarrow> peer \<Rightarrow> peer \<Rightarrow> nat \<Rightarrow> session \<Rightarrow> nat option \<times> session" where
  "WriteToPeer env from dest bytes_to_write s =
     (let prefix = take bytes_to_write (buf from s) in
      case async_write env (io_log s) dest prefix of (ec, bytes_written) \<Rightarrow>
        let s1 = record_event (EvWrite dest prefix ec bytes_written) s in
        if ec \<noteq> None then (None, s1)
        else if bytes_written \<noteq> bytes_to_write then (None, s1)
        else (Some bytes_written, consume from bytes_written s1))"

section \<open>ForwardExactly\<close>

text \<open>
  One iteration; the loop state is \<open>bytes_sent\<close> and the session. The counters are natural
  numbers: \<open>bytes_sent\<close> never exceeds \<open>content_length\<close>, so the sums do not overflow.
\<close>

definition ForwardExactly_body ::
    "asio \<Rightarrow> peer \<Rightarrow> peer \<Rightarrow> size_t \<Rightarrow> nat \<times> session \<Rightarrow> (nat \<times> session) + (bool \<times> session)" where
  "ForwardExactly_body env from dest clen st =
     (case st of (bytes_sent, s) \<Rightarrow>
        if bytes_sent < unat clen then
          (let bytes_remaining = unat clen - bytes_sent;
               (ok, s1) = (if length (buf from s) = 0
                  then (case ReadSomeFromPeer env from s of (r, s1) \<Rightarrow> (r \<noteq> None, s1))
                  else (True, s)) in
           if \<not> ok then Inr (False, s1)
           else let bytes_to_write = min bytes_remaining (length (buf from s1)) in
             (case WriteToPeer env from dest bytes_to_write s1 of
                (None, s2) \<Rightarrow> Inr (False, s2)
              | (Some n, s2) \<Rightarrow> Inl (bytes_sent + n, s2)))
        else Inr (True, s))"

definition ForwardExactly ::
    "asio \<Rightarrow> peer \<Rightarrow> peer \<Rightarrow> size_t \<Rightarrow> session \<Rightarrow> (bool \<times> session) option" where
  "ForwardExactly env from dest clen s =
     loop (ForwardExactly_body env from dest clen) (0, s)"

section \<open>ForwardUntilEof\<close>

definition ForwardUntilEof_body ::
    "asio \<Rightarrow> peer \<Rightarrow> peer \<Rightarrow> session \<Rightarrow> session + (bool \<times> session)" where
  "ForwardUntilEof_body env from dest s =
     (case ReadSomeFromPeer env from s of
        (None, s1) \<Rightarrow> Inr (False, s1)
      | (Some r, s1) \<Rightarrow>
          (let (ok, s2) = (if bytes_read r > 0
                 then (case WriteToPeer env from dest (bytes_read r) s1 of (w, s2) \<Rightarrow> (w \<noteq> None, s2))
                 else (True, s1)) in
           if \<not> ok then Inr (False, s2)
           else if at_eof r then Inr (True, s2) else Inl s2))"

definition ForwardUntilEof ::
    "asio \<Rightarrow> peer \<Rightarrow> peer \<Rightarrow> session \<Rightarrow> (bool \<times> session) option" where
  "ForwardUntilEof env from dest s =
     (if length (buf from s) > 0
      then (case WriteToPeer env from dest (length (buf from s)) s of
              (None, s1) \<Rightarrow> Some (False, s1)
            | (Some _, s1) \<Rightarrow> loop (ForwardUntilEof_body env from dest) s1)
      else loop (ForwardUntilEof_body env from dest) s)"

section \<open>What moved: received and delivered bytes\<close>

text \<open>
  The bytes a log says were taken into the buffer of a peer, and the bytes it says were
  written to a peer. A failed write counts for the bytes it reports as written.
\<close>

fun received_ev :: "peer \<Rightarrow> io_event \<Rightarrow> bytes" where
  "received_ev p (EvReadSome q ec bs) =
     (if q = p \<and> (ec = None \<or> ec = Some eof \<or> ec = Some operation_aborted) then bs else [])"
| "received_ev p _ = []"

fun delivered_ev :: "peer \<Rightarrow> io_event \<Rightarrow> bytes" where
  "delivered_ev p (EvWrite q bs ec n) = (if q = p then take n bs else [])"
| "delivered_ev p _ = []"

definition received :: "peer \<Rightarrow> io_log \<Rightarrow> bytes" where
  "received p log = concat (map (received_ev p) log)"

definition delivered :: "peer \<Rightarrow> io_log \<Rightarrow> bytes" where
  "delivered p log = concat (map (delivered_ev p) log)"

lemma received_simps [io_simps]:
  "received p [] = []" "received p (e # log) = received_ev p e @ received p log"
  "received p (log @ log') = received p log @ received p log'"
  by (simp_all add: received_def)

lemma delivered_simps [io_simps]:
  "delivered p [] = []" "delivered p (e # log) = delivered_ev p e @ delivered p log"
  "delivered p (log @ log') = delivered p log @ delivered p log'"
  by (simp_all add: delivered_def)

text \<open>The state may have changed only in the buffer of \<open>p\<close> and in the log.\<close>

definition keeps :: "peer \<Rightarrow> session \<Rightarrow> session \<Rightarrow> bool" where
  "keeps p s s' \<longleftrightarrow> s' = (set_buf p (buf p s') s)\<lparr>io_log := io_log s'\<rparr>"

definition transfer :: "peer \<Rightarrow> peer \<Rightarrow> session \<Rightarrow> bytes \<Rightarrow> session \<Rightarrow> bool" where
  "transfer f t s out s' \<longleftrightarrow> keeps f s s' \<and>
     (\<exists>evs. io_log s' = io_log s @ evs \<and> delivered t evs = out \<and>
        buf f s @ received f evs = out @ buf f s')"

lemma buf_set_buf [simp]: "buf p (set_buf q b s) = (if p = q then b else buf p s)"
  by (cases p; cases q) simp_all

lemma set_buf_same [simp]: "set_buf p b (set_buf p b' s) = set_buf p b s"
  by (cases p) simp_all

lemma buf_log [simp]: "buf p (s\<lparr>io_log := l\<rparr>) = buf p s"
  by (cases p) simp_all

lemma set_buf_buf [simp]: "set_buf p (buf p s) s = s"
  by (cases p) simp_all

lemma set_buf_log [simp]:
  "set_buf p b (s\<lparr>io_log := l\<rparr>) = (set_buf p b s)\<lparr>io_log := l\<rparr>"
  "io_log (set_buf p b s) = io_log s"
  by (cases p; simp)+

lemma record_event_simps [simp]:
  "buf p (record_event e s) = buf p s" "io_log (record_event e s) = io_log s @ [e]"
  by (simp_all add: record_event_def)

lemma buffer_op_simps [simp]:
  "buf p (commit q bs s) = (if p = q then buf q s @ bs else buf p s)"
  "io_log (commit q bs s) = io_log s"
  "buf p (consume q n s) = (if p = q then drop n (buf q s) else buf p s)"
  "io_log (consume q n s) = io_log s"
  by (simp_all add: commit_def consume_def)

lemma keeps_refl [simp]: "keeps p s s"
  by (cases p) (simp_all add: keeps_def)

lemma keeps_trans: "keeps p s s' \<Longrightarrow> keeps p s' s'' \<Longrightarrow> keeps p s s''"
  unfolding keeps_def by (cases p) (metis (no_types) set_buf_log(1) set_buf_same session.surjective
      session.update_convs(7))+

lemma keeps_record_event: "keeps p s (record_event e s)"
  by (simp add: keeps_def record_event_def)

lemma keeps_buffer_ops: "keeps p s (commit p bs s)" "keeps p s (consume p n s)"
  by (cases p; simp add: keeps_def commit_def consume_def)+

text \<open>The members no byte transfer changes.\<close>

lemma keepsD:
  assumes "keeps p s s'"
  shows "remote_state s' = remote_state s" "closed s' = closed s"
    "session_id s' = session_id s" "rule_http_config s' = rule_http_config s"
    "q \<noteq> p \<Longrightarrow> buf q s' = buf q s"
  by (subst assms [unfolded keeps_def], cases p; cases q; simp)+

lemma transfer_refl: "transfer f t s [] s"
  by (simp add: transfer_def io_simps)

lemma transfer_trans:
  assumes "transfer f t s out s'" and "transfer f t s' out' s''"
  shows "transfer f t s (out @ out') s''"
proof -
  from assms(1) obtain evs where 1: "keeps f s s'" "io_log s' = io_log s @ evs"
      "delivered t evs = out" "buf f s @ received f evs = out @ buf f s'"
    by (auto simp: transfer_def)
  from assms(2) obtain evs' where 2: "keeps f s' s''" "io_log s'' = io_log s' @ evs'"
      "delivered t evs' = out'" "buf f s' @ received f evs' = out' @ buf f s''"
    by (auto simp: transfer_def)
  have "buf f s @ received f (evs @ evs') = (out @ out') @ buf f s''"
    using 1(4) 2(4) by (metis append.assoc received_simps(3))
  then show ?thesis
    unfolding transfer_def
    using keeps_trans [OF 1(1) 2(1)] 1(2,3) 2(2,3) by (auto simp: io_simps)
qed

lemma transfer_read: "ReadSomeFromPeer env f s = (r, s') \<Longrightarrow> transfer f t s [] s'"
  by (auto simp: ReadSomeFromPeer_def transfer_def Let_def io_simps keeps_record_event
      split: prod.splits option.splits if_splits
      intro: keeps_trans [OF keeps_record_event keeps_buffer_ops(1)])

lemma WriteToPeer_SomeD:
  assumes "WriteToPeer env f t n s = (Some w, s')"
  shows "w = n" "transfer f t s (take n (buf f s)) s'" "buf f s' = drop n (buf f s)"
    "async_write env (io_log s) t (take n (buf f s)) = (None, n)"
  using assms keeps_trans [OF keeps_record_event keeps_buffer_ops(2)]
  by (auto simp: WriteToPeer_def transfer_def Let_def io_simps split: prod.splits if_splits)

text \<open>A failed write leaves the buffer as it was.\<close>

lemma WriteToPeer_NoneD:
  assumes "WriteToPeer env f t n s = (None, s')"
  shows "keeps f s s'" "buf f s' = buf f s"
    "\<exists>ec k. io_log s' = io_log s @ [EvWrite t (take n (buf f s)) ec k]"
  using assms
  by (auto simp: WriteToPeer_def Let_def keeps_record_event split: prod.splits if_splits)

lemma ReadSome_SomeD:
  assumes "ReadSomeFromPeer env f s = (Some r, s')"
  shows "\<exists>bs. bytes_read r = length bs \<and> buf f s' = buf f s @ bs \<and> (at_eof r \<or> bs \<noteq> []) \<and>
    async_read_some env (io_log s) f 65536 = ((if at_eof r then Some eof else None), bs)"
  using assms
  by (auto simp: ReadSomeFromPeer_def Let_def split: prod.splits option.splits if_splits)

section \<open>ForwardExactly: partial correctness\<close>

lemma ForwardExactly_stepE:
  assumes "ForwardExactly_body env f t n (k, s) = Inl (k', s')"
  obtains out s1 where "transfer f t s out s'" "k < unat n" "k' = k + length out" "k' \<le> unat n"
    "s1 = s \<and> buf f s \<noteq> [] \<or> buf f s = [] \<and> (\<exists>r. ReadSomeFromPeer env f s = (Some r, s1))"
    "length out = min (unat n - k) (length (buf f s1))"
    "\<exists>w. WriteToPeer env f t (length out) s1 = (Some w, s')"
proof -
  from assms obtain s1 w where k: "k < unat n"
    and s1: "s1 = s \<and> buf f s \<noteq> [] \<or> buf f s = [] \<and> (\<exists>r. ReadSomeFromPeer env f s = (Some r, s1))"
    and w: "WriteToPeer env f t (min (unat n - k) (length (buf f s1))) s1 = (Some w, s')"
    and k': "k' = k + w"
    by (auto simp: ForwardExactly_body_def Let_def split: prod.splits option.splits if_splits)
  let ?m = "min (unat n - k) (length (buf f s1))"
  let ?out = "take ?m (buf f s1)"
  have "transfer f t s [] s1"
    using s1 transfer_read [of env f s] by (auto intro: transfer_refl)
  then have "transfer f t s ?out s'"
    using transfer_trans [OF _ WriteToPeer_SomeD(2) [OF w]] by fastforce
  moreover have "length ?out = ?m" by simp
  moreover have "k' = k + length ?out" "k' \<le> unat n"
    using WriteToPeer_SomeD(1) [OF w] k' k by simp_all
  ultimately show ?thesis
    using that [of ?out s1] s1 k w by metis
qed

text \<open>The invariant of the loop: \<open>bytes_sent\<close> bytes went across, at most \<open>n\<close>.\<close>

definition sent_inv :: "peer \<Rightarrow> peer \<Rightarrow> size_t \<Rightarrow> session \<Rightarrow> nat \<times> session \<Rightarrow> bool" where
  "sent_inv f t n s0 st \<longleftrightarrow> fst st \<le> unat n \<and>
     (\<exists>out. length out = fst st \<and> transfer f t s0 out (snd st))"

lemma sent_inv_init: "sent_inv f t n s (0, s)"
  by (auto simp: sent_inv_def intro: transfer_refl)

lemma sent_inv_step:
  assumes "sent_inv f t n s0 st" and "ForwardExactly_body env f t n st = Inl st'"
  shows "sent_inv f t n s0 st'"
proof -
  obtain k s k' s' where st: "st = (k, s)" "st' = (k', s')"
    by (cases st; cases st')
  from assms(1) obtain out where "length out = k" "transfer f t s0 out s"
    by (auto simp: sent_inv_def st)
  moreover from assms(2) [unfolded st] obtain out'
    where "transfer f t s out' s'" "k' = k + length out'" "k' \<le> unat n"
    by (rule ForwardExactly_stepE)
  ultimately have "length (out @ out') = k'" "transfer f t s0 (out @ out') s'" "k' \<le> unat n"
    using transfer_trans by auto
  then show ?thesis unfolding sent_inv_def st fst_conv snd_conv by blast
qed

lemma ForwardExactly_True:
  assumes "ForwardExactly env f t n s = Some (True, s')"
  shows "\<exists>out. length out = unat n \<and> transfer f t s out s'"
proof -
  have "fst (True, s') \<longrightarrow> (\<exists>out. length out = unat n \<and> transfer f t s out (snd (True, s')))"
  proof (rule loop_invariant [OF assms [unfolded ForwardExactly_def], where P = "sent_inv f t n s"])
    show "sent_inv f t n s (0, s)" by (rule sent_inv_init)
    show "sent_inv f t n s st'"
      if "sent_inv f t n s st" "ForwardExactly_body env f t n st = Inl st'" for st st'
      using that by (rule sent_inv_step)
    fix st r
    assume "sent_inv f t n s st" and "ForwardExactly_body env f t n st = Inr r"
    then show "fst r \<longrightarrow> (\<exists>out. length out = unat n \<and> transfer f t s out (snd r))"
      by (cases st) (auto simp: ForwardExactly_body_def sent_inv_def Let_def
          split: prod.splits option.splits if_splits)
  qed
  then show ?thesis by simp
qed

text \<open>Whatever the outcome, what was delivered is the beginning of what was received.\<close>

definition forwarded_prefix :: "peer \<Rightarrow> peer \<Rightarrow> nat \<Rightarrow> session \<Rightarrow> session \<Rightarrow> bool" where
  "forwarded_prefix f t n s s' \<longleftrightarrow> (\<exists>evs. io_log s' = io_log s @ evs \<and>
     length (delivered t evs) \<le> n \<and> prefix (delivered t evs) (buf f s @ received f evs))"

lemma transfer_forwarded_prefix:
  "transfer f t s out s' \<Longrightarrow> length out \<le> n \<Longrightarrow> forwarded_prefix f t n s s'"
  unfolding transfer_def forwarded_prefix_def by (metis prefixI)

lemma failed_write_forwarded_prefix:
  assumes "transfer f t s out s1" and "WriteToPeer env f t m s1 = (None, s2)"
    and "length out + m \<le> n"
  shows "forwarded_prefix f t n s s2"
proof -
  from assms(1) obtain evs where evs: "io_log s1 = io_log s @ evs" "delivered t evs = out"
      "buf f s @ received f evs = out @ buf f s1"
    by (auto simp: transfer_def)
  from WriteToPeer_NoneD(3) [OF assms(2)] obtain ec k
    where ev: "io_log s2 = io_log s1 @ [EvWrite t (take m (buf f s1)) ec k]" by blast
  let ?evs = "evs @ [EvWrite t (take m (buf f s1)) ec k]"
  have d: "delivered t ?evs = out @ take (min k m) (buf f s1)"
    by (simp add: io_simps evs(2) min.commute)
  have "buf f s @ received f ?evs = out @ take (min k m) (buf f s1) @ drop (min k m) (buf f s1)"
    using evs(3) by (simp add: io_simps)
  then have "prefix (delivered t ?evs) (buf f s @ received f ?evs)"
    unfolding d by (metis append.assoc prefixI)
  moreover have "length (delivered t ?evs) \<le> n"
    using assms(3) by (simp add: d)
  ultimately show ?thesis
    unfolding forwarded_prefix_def using evs(1) ev by (metis append.assoc)
qed

lemma ForwardExactly_return:
  assumes "sent_inv f t n s0 st" and "ForwardExactly_body env f t n st = Inr r"
  shows "forwarded_prefix f t (unat n) s0 (snd r)"
proof -
  obtain k s ok s' where st: "st = (k, s)" "r = (ok, s')"
    by (cases st; cases r)
  from assms(1) obtain out where out: "length out = k" "k \<le> unat n" "transfer f t s0 out s"
    by (auto simp: sent_inv_def st)
  have fr: "forwarded_prefix f t (unat n) s0 s1" if "ReadSomeFromPeer env f s = (q, s1)" for q s1
    using transfer_forwarded_prefix [OF transfer_trans [OF out(3) transfer_read [OF that]]] out(1,2)
    by simp
  have fw: "forwarded_prefix f t (unat n) s0 s2"
    if "transfer f t s [] s1" and "WriteToPeer env f t (min (unat n - k) m) s1 = (None, s2)"
    for s1 s2 m
    by (rule failed_write_forwarded_prefix [OF transfer_trans [OF out(3) that(1)] that(2)])
       (use out(1,2) in simp)
  from assms(2) show ?thesis
    using fr fw [OF transfer_refl] fw [OF transfer_read] transfer_forwarded_prefix [OF out(3)] out(1,2)
    by (auto simp: ForwardExactly_body_def st Let_def split: prod.splits option.splits if_splits)
qed

lemma ForwardExactly_bound:
  assumes "ForwardExactly env f t n s = Some (ok, s')"
  shows "forwarded_prefix f t (unat n) s s'"
proof -
  have "forwarded_prefix f t (unat n) s (snd (ok, s'))"
  proof (rule loop_invariant [OF assms [unfolded ForwardExactly_def], where P = "sent_inv f t n s"])
    show "sent_inv f t n s (0, s)" by (rule sent_inv_init)
  qed (fact sent_inv_step ForwardExactly_return)+
  then show ?thesis by simp
qed

section \<open>ForwardExactly: termination and divergence\<close>

text \<open>The peer never reports the end of the stream without data.\<close>

definition no_empty_eof :: "asio \<Rightarrow> peer \<Rightarrow> bool" where
  "no_empty_eof env f \<longleftrightarrow> (\<forall>log n. async_read_some env log f n \<noteq> (Some eof, []))"

lemma ForwardExactly_progress:
  assumes "no_empty_eof env f" and "ForwardExactly_body env f t n (k, s) = Inl (k', s')"
  shows "unat n - k' < unat n - k"
proof -
  from assms(2) obtain out s1 where "transfer f t s out s'" and k: "k < unat n" "k' = k + length out"
    and s1: "s1 = s \<and> buf f s \<noteq> [] \<or> buf f s = [] \<and> (\<exists>r. ReadSomeFromPeer env f s = (Some r, s1))"
    and l: "length out = min (unat n - k) (length (buf f s1))"
    by (rule ForwardExactly_stepE)
  have "buf f s1 \<noteq> []"
    using s1
  proof
    assume "buf f s = [] \<and> (\<exists>r. ReadSomeFromPeer env f s = (Some r, s1))"
    then show ?thesis
      using assms(1) by (auto simp: no_empty_eof_def dest!: ReadSome_SomeD split: if_splits)
  qed simp
  then have "0 < length (buf f s1)" by simp
  with k l show ?thesis by linarith
qed

lemma ForwardExactly_returns:
  assumes "no_empty_eof env f"
  shows "\<exists>r. ForwardExactly env f t n s = Some r"
  unfolding ForwardExactly_def
proof (rule loop_terminates [where P = "\<lambda>_. True" and m = "\<lambda>(k, _). unat n - k"])
  fix st st'
  assume "ForwardExactly_body env f t n st = Inl st'"
  then show "True \<and> (case st' of (k, _) \<Rightarrow> unat n - k) < (case st of (k, _) \<Rightarrow> unat n - k)"
    using ForwardExactly_progress [OF assms] by (cases st; cases st') simp
qed simp

text \<open>
  A peer whose stream has ended, and a peer that accepts every write.
\<close>

definition stream_ended :: "asio \<Rightarrow> peer \<Rightarrow> bool" where
  "stream_ended env f \<longleftrightarrow> (\<forall>log n. async_read_some env log f n = (Some eof, []))"

definition accepts_writes :: "asio \<Rightarrow> peer \<Rightarrow> bool" where
  "accepts_writes env t \<longleftrightarrow> (\<forall>log bs. async_write env log t bs = (None, length bs))"

lemma WriteToPeer_accepts:
  assumes "accepts_writes env t" and "n \<le> length (buf f s)"
  shows "\<exists>s'. WriteToPeer env f t n s = (Some n, s') \<and> buf f s' = drop n (buf f s) \<and>
    received f (io_log s') = received f (io_log s)"
  using assms by (simp add: WriteToPeer_def accepts_writes_def Let_def io_simps)

lemma ReadSome_ended:
  assumes "stream_ended env f"
  shows "\<exists>s'. ReadSomeFromPeer env f s = (Some \<lparr>bytes_read = 0, at_eof = True\<rparr>, s') \<and>
    buf f s' = buf f s"
  using assms by (simp add: ReadSomeFromPeer_def stream_ended_def Let_def)

lemma ForwardExactly_diverges:
  assumes "stream_ended env f" and "accepts_writes env t" and "length (buf f s) < unat n"
  shows "ForwardExactly env f t n s = None"
  unfolding ForwardExactly_def
proof (rule loop_diverges [where P = "\<lambda>(k, s). k + length (buf f s) < unat n"])
  fix st :: "nat \<times> session"
  assume P: "case st of (k, s) \<Rightarrow> k + length (buf f s) < unat n"
  obtain k s where st: "st = (k, s)" by (cases st)
  define s1 where "s1 = (if buf f s = [] then snd (ReadSomeFromPeer env f s) else s)"
  have b: "buf f s1 = buf f s"
    using ReadSome_ended [OF assms(1), of s] by (auto simp: s1_def)
  obtain s2 where w: "WriteToPeer env f t (length (buf f s1)) s1 = (Some (length (buf f s1)), s2)"
      "buf f s2 = []"
    using WriteToPeer_accepts [OF assms(2), of "length (buf f s1)" f s1] by auto
  have "ForwardExactly_body env f t n st = Inl (k + length (buf f s1), s2)"
    using P w b ReadSome_ended [OF assms(1), of s]
    by (auto simp: ForwardExactly_body_def st Let_def s1_def min_def split: if_splits)
  with P w b show "\<exists>st'. ForwardExactly_body env f t n st = Inl st' \<and>
      (case st' of (k, s) \<Rightarrow> k + length (buf f s) < unat n)"
    by (simp add: st)
qed (use assms(3) in simp)

section \<open>A network that delivers\<close>

text \<open>
  \<open>unread f base stream s rest\<close>: of the bytes \<open>stream\<close> that peer \<open>f\<close> sends after the
  bytes \<open>base\<close>, the session has still to receive \<open>rest\<close>.
\<close>

definition unread :: "peer \<Rightarrow> bytes \<Rightarrow> bytes \<Rightarrow> session \<Rightarrow> bytes \<Rightarrow> bool" where
  "unread f base stream s rest \<longleftrightarrow>
     (\<exists>pre. received f (io_log s) = base @ pre \<and> stream = pre @ rest)"

text \<open>Nothing is lost between the bytes to come, the buffer and the bytes delivered.\<close>

lemma transfer_unread:
  assumes "transfer f t s out s'" and "unread f base stream s rest" and "unread f base stream s' rest'"
  shows "buf f s @ rest = out @ buf f s' @ rest'"
proof -
  from assms(1) obtain evs where evs: "io_log s' = io_log s @ evs"
      "buf f s @ received f evs = out @ buf f s'" by (auto simp: transfer_def)
  from assms(2,3) evs(1) have "rest = received f evs @ rest'"
    by (auto simp: unread_def io_simps)
  with evs(2) show ?thesis by (metis append.assoc)
qed

text \<open>The loop of \<open>ForwardExactly\<close> on such a link: of the bytes \<open>S\<close>, so many went across.\<close>

definition exactly_inv ::
    "peer \<Rightarrow> peer \<Rightarrow> bytes \<Rightarrow> bytes \<Rightarrow> size_t \<Rightarrow> session \<Rightarrow> bytes \<Rightarrow> nat \<times> session \<Rightarrow> bool" where
  "exactly_inv f t base stream n s0 S st \<longleftrightarrow> fst st \<le> unat n \<and>
     transfer f t s0 (take (fst st) S) (snd st) \<and>
     (\<exists>rest. unread f base stream (snd st) rest \<and> buf f (snd st) @ rest = drop (fst st) S)"

locale reliable_link =
  fixes env :: asio and f t :: peer and base stream :: bytes
  assumes read_delivers: "received f log = base @ pre \<Longrightarrow> stream = pre @ rest \<Longrightarrow> rest \<noteq> [] \<Longrightarrow>
      \<exists>piece more. async_read_some env log f 65536 = (None, piece) \<and> piece \<noteq> [] \<and>
        rest = piece @ more"
    and write_accepts: "accepts_writes env t"
begin

lemma read_ok:
  assumes "unread f base stream s rest" and "rest \<noteq> []"
  shows "\<exists>piece more s'. ReadSomeFromPeer env f s =
      (Some \<lparr>bytes_read = length piece, at_eof = False\<rparr>, s') \<and> piece \<noteq> [] \<and>
      rest = piece @ more \<and> buf f s' = buf f s @ piece \<and> unread f base stream s' more"
proof -
  from assms(1) obtain pre where pre: "received f (io_log s) = base @ pre" "stream = pre @ rest"
    by (auto simp: unread_def)
  from read_delivers [OF this assms(2)] obtain piece more where
      rd: "async_read_some env (io_log s) f 65536 = (None, piece)" "piece \<noteq> []" "rest = piece @ more"
    by blast
  let ?s' = "commit f piece (record_event (EvReadSome f None piece) s)"
  have "ReadSomeFromPeer env f s = (Some \<lparr>bytes_read = length piece, at_eof = False\<rparr>, ?s')"
    using rd by (simp add: ReadSomeFromPeer_def Let_def)
  moreover have "unread f base stream ?s' more"
    using pre rd(3) by (simp add: unread_def io_simps)
  ultimately show ?thesis using rd(2,3) by auto
qed

lemma write_ok:
  assumes "n \<le> length (buf f s)" and "unread f base stream s rest"
  shows "\<exists>s'. WriteToPeer env f t n s = (Some n, s') \<and> buf f s' = drop n (buf f s) \<and>
    unread f base stream s' rest"
  using WriteToPeer_accepts [OF write_accepts assms(1)] assms(2) by (auto simp: unread_def)

text \<open>A non-empty buffer, reading first where it is empty.\<close>

lemma fill_ok:
  assumes "unread f base stream s rest" and "buf f s @ rest \<noteq> []"
  shows "\<exists>s1 rest1. (if buf f s = [] then (\<exists>r. ReadSomeFromPeer env f s = (Some r, s1)) else s1 = s) \<and>
    buf f s1 \<noteq> [] \<and> buf f s1 @ rest1 = buf f s @ rest \<and> unread f base stream s1 rest1"
proof (cases "buf f s = []")
  case True
  with assms read_ok [OF assms(1)] show ?thesis by fastforce
next
  case False
  with assms show ?thesis by auto
qed

lemma exactly_step:
  assumes "transfer f t s0 (take k S) s" and "unread f base stream s rest"
    and "buf f s @ rest = drop k S" and "k < unat n" and "unat n \<le> length S"
  shows "\<exists>k' s' rest'. ForwardExactly_body env f t n (k, s) = Inl (k', s') \<and> k < k' \<and> k' \<le> unat n \<and>
    transfer f t s0 (take k' S) s' \<and> unread f base stream s' rest' \<and> buf f s' @ rest' = drop k' S"
proof -
  have "buf f s @ rest \<noteq> []" using assms(3-5) by simp
  then obtain s1 rest1 where
      fill: "if buf f s = [] then (\<exists>r. ReadSomeFromPeer env f s = (Some r, s1)) else s1 = s"
    and s1: "buf f s1 \<noteq> []" "buf f s1 @ rest1 = drop k S" "unread f base stream s1 rest1"
    using fill_ok [OF assms(2)] assms(3) by metis
  define m where "m = min (unat n - k) (length (buf f s1))"
  have m: "0 < m" "m \<le> length (buf f s1)" "k + m \<le> unat n"
    using s1(1) assms(4) by (auto simp: m_def)
  obtain s2 where w: "WriteToPeer env f t m s1 = (Some m, s2)" "buf f s2 = drop m (buf f s1)"
      "unread f base stream s2 rest1"
    using write_ok [OF m(2) s1(3)] by blast
  have body: "ForwardExactly_body env f t n (k, s) = Inl (k + m, s2)"
    using fill w(1) assms(4)
    by (auto simp: ForwardExactly_body_def Let_def m_def split: if_splits)
  have "transfer f t s [] s1"
    using fill transfer_read by (auto intro: transfer_refl split: if_splits)
  then have "transfer f t s0 (take k S @ take m (buf f s1)) s2"
    using transfer_trans [OF assms(1)] transfer_trans WriteToPeer_SomeD(2) [OF w(1)] by fastforce
  moreover have "take m (buf f s1) = take m (drop k S)"
    using s1(2) m(2) by (metis append_Nil2 diff_is_0_eq take_0 take_append)
  moreover have "buf f s2 @ rest1 = drop m (drop k S)"
    using s1(2) m(2) w(2) by (metis append_Nil2 diff_is_0_eq drop_0 drop_append)
  ultimately show ?thesis
    using body m w(3) by (auto simp: take_add add.commute intro!: exI [of _ "k + m"])
qed

lemma exactly_inv_step:
  assumes "exactly_inv f t base stream n s0 S st" and "unat n \<le> length S" and "fst st < unat n"
  shows "\<exists>st'. ForwardExactly_body env f t n st = Inl st' \<and> exactly_inv f t base stream n s0 S st' \<and>
    fst st < fst st'"
  using assms exactly_step [of s0 "fst st" S "snd st" _ n] by (fastforce simp: exactly_inv_def)

lemma exactly_delivers:
  assumes "unread f base stream s rest" and "unat n \<le> length (buf f s @ rest)"
  shows "\<exists>s' rest'. ForwardExactly env f t n s = Some (True, s') \<and>
    transfer f t s (take (unat n) (buf f s @ rest)) s' \<and> unread f base stream s' rest' \<and>
    buf f s' @ rest' = drop (unat n) (buf f s @ rest)"
proof -
  let ?P = "exactly_inv f t base stream n s (buf f s @ rest)"
  let ?body = "ForwardExactly_body env f t n"
  have stop: "?body st = Inr (True, snd st)" if "\<not> fst st < unat n" for st
    using that by (cases st) (simp add: ForwardExactly_body_def)
  have "\<exists>r. loop ?body (0, s) = Some r \<and> fst r \<and> ?P (unat n, snd r)"
  proof (rule loop_total [where P = ?P and m = "\<lambda>st. unat n - fst st"])
    show "?P (0, s)" using assms(1) by (auto simp: exactly_inv_def intro: transfer_refl)
  next
    fix st st'
    assume st: "?P st" "?body st = Inl st'"
    then have "fst st < unat n" using stop [of st] by fastforce
    with exactly_inv_step [OF st(1) assms(2)] st(2) show "?P st' \<and> unat n - fst st' < unat n - fst st"
      by auto
  next
    fix st r
    assume st: "?P st" "?body st = Inr r"
    then have "\<not> fst st < unat n" using exactly_inv_step [OF st(1) assms(2)] by fastforce
    with stop [of st] st show "fst r \<and> ?P (unat n, snd r)"
      by (auto simp: exactly_inv_def)
  qed
  then show ?thesis
    unfolding ForwardExactly_def by (auto simp: exactly_inv_def)
qed

end

section \<open>ForwardUntilEof\<close>

lemma until_eof_bodyD:
  assumes "ForwardUntilEof_body env f t s = Inl s' \<or> ForwardUntilEof_body env f t s = Inr (True, s')"
  shows "\<exists>r s1. ReadSomeFromPeer env f s = (Some r, s1) \<and>
    (if bytes_read r > 0 then (\<exists>w. WriteToPeer env f t (bytes_read r) s1 = (Some w, s')) else s' = s1) \<and>
    at_eof r = (ForwardUntilEof_body env f t s = Inr (True, s'))"
proof -
  obtain q s1 where q: "ReadSomeFromPeer env f s = (q, s1)" by (cases "ReadSomeFromPeer env f s")
  with assms obtain r where r: "q = Some r"
    by (cases q) (auto simp: ForwardUntilEof_body_def)
  obtain w s2 where w: "WriteToPeer env f t (bytes_read r) s1 = (w, s2)"
    by (cases "WriteToPeer env f t (bytes_read r) s1")
  show ?thesis
    using assms q r w
    by (intro exI [of _ r] exI [of _ s1]) (auto simp: ForwardUntilEof_body_def split: if_splits)
qed

lemma until_eof_iteration:
  assumes "ForwardUntilEof_body env f t s = Inl s' \<or> ForwardUntilEof_body env f t s = Inr (True, s')"
    and "buf f s = []"
  shows "(\<exists>out. transfer f t s out s') \<and> buf f s' = []"
proof -
  from until_eof_bodyD [OF assms(1)] obtain r s1 where r: "ReadSomeFromPeer env f s = (Some r, s1)"
    and w: "if bytes_read r > 0 then (\<exists>w. WriteToPeer env f t (bytes_read r) s1 = (Some w, s')) else s' = s1"
    by blast
  have s1: "transfer f t s [] s1" using transfer_read r by blast
  have len: "length (buf f s1) = bytes_read r"
    using ReadSome_SomeD [OF r] assms(2) by auto
  show ?thesis
  proof (cases "bytes_read r > 0")
    case True
    with w obtain v where v: "WriteToPeer env f t (bytes_read r) s1 = (Some v, s')" by auto
    from transfer_trans [OF s1 WriteToPeer_SomeD(2) [OF v]] WriteToPeer_SomeD(3) [OF v] len
    show ?thesis by auto
  next
    case False
    with w s1 len show ?thesis by auto
  qed
qed

lemma until_eof_loop:
  assumes "loop (ForwardUntilEof_body env f t) s = Some (True, s')" and "buf f s = []"
  shows "(\<exists>out. transfer f t s out s') \<and> buf f s' = []"
proof -
  have "fst (True, s') \<longrightarrow> (\<exists>out. transfer f t s out (snd (True, s'))) \<and> buf f (snd (True, s')) = []"
  proof (rule loop_invariant [OF assms(1),
        where P = "\<lambda>s1. (\<exists>out. transfer f t s out s1) \<and> buf f s1 = []"])
    show "(\<exists>out. transfer f t s out s) \<and> buf f s = []"
      using assms(2) transfer_refl by blast
  next
    fix s1 s2
    assume "(\<exists>out. transfer f t s out s1) \<and> buf f s1 = []" "ForwardUntilEof_body env f t s1 = Inl s2"
    then show "(\<exists>out. transfer f t s out s2) \<and> buf f s2 = []"
      using until_eof_iteration [of env f t s1 s2] transfer_trans by blast
  next
    fix s1 r
    assume "(\<exists>out. transfer f t s out s1) \<and> buf f s1 = []" "ForwardUntilEof_body env f t s1 = Inr r"
    then show "fst r \<longrightarrow> (\<exists>out. transfer f t s out (snd r)) \<and> buf f (snd r) = []"
      using until_eof_iteration [of env f t s1 "snd r"] transfer_trans by (cases r) (simp, blast)
  qed
  then show ?thesis by simp
qed

text \<open>Everything received was delivered: the buffer is empty at the end.\<close>

lemma ForwardUntilEof_True:
  assumes "ForwardUntilEof env f t s = Some (True, s')"
  shows "(\<exists>out. transfer f t s out s') \<and> buf f s' = []"
proof (cases "buf f s = []")
  case True
  with assms show ?thesis
    by (intro until_eof_loop) (simp_all add: ForwardUntilEof_def)
next
  case False
  with assms obtain w s1 where w: "WriteToPeer env f t (length (buf f s)) s = (Some w, s1)"
    and l: "loop (ForwardUntilEof_body env f t) s1 = Some (True, s')"
    by (auto simp: ForwardUntilEof_def split: prod.splits option.splits)
  from until_eof_loop [OF l] WriteToPeer_SomeD(3) [OF w] transfer_trans [OF WriteToPeer_SomeD(2) [OF w]]
  show ?thesis by auto
qed

text \<open>A link whose peer closes after the last byte.\<close>

locale closing_link = reliable_link +
  assumes eof_at_end: "received f log = base @ stream \<Longrightarrow>
      async_read_some env log f 65536 = (Some eof, [])"
begin

lemma read_eof:
  assumes "unread f base stream s []"
  shows "\<exists>s'. ReadSomeFromPeer env f s = (Some \<lparr>bytes_read = 0, at_eof = True\<rparr>, s')"
proof -
  have "received f (io_log s) = base @ stream" using assms by (auto simp: unread_def)
  then show ?thesis using eof_at_end by (simp add: ReadSomeFromPeer_def Let_def)
qed

lemma until_eof_step:
  assumes "unread f base stream s rest" and "buf f s = []"
  shows "(\<exists>s' rest'. ForwardUntilEof_body env f t s = Inl s' \<and> buf f s' = [] \<and>
      unread f base stream s' rest' \<and> length rest' < length rest) \<or>
    (rest = [] \<and> (\<exists>s'. ForwardUntilEof_body env f t s = Inr (True, s')))"
proof (cases "rest = []")
  case True
  with read_eof assms(1) show ?thesis
    by (fastforce simp: ForwardUntilEof_body_def)
next
  case False
  from read_ok [OF assms(1) False] obtain piece more s1 where
      r: "ReadSomeFromPeer env f s = (Some \<lparr>bytes_read = length piece, at_eof = False\<rparr>, s1)"
    and p: "piece \<noteq> []" "rest = piece @ more" "buf f s1 = piece" "unread f base stream s1 more"
    using assms(2) by auto
  from write_ok [of "length piece" s1 more] p obtain s2 where
      "WriteToPeer env f t (length piece) s1 = (Some (length piece), s2)" "buf f s2 = []"
      "unread f base stream s2 more" by auto
  with r p show ?thesis by (auto simp: ForwardUntilEof_body_def)
qed

lemma until_eof_returns:
  assumes "unread f base stream s rest" and "buf f s = []"
  shows "\<exists>s'. loop (ForwardUntilEof_body env f t) s = Some (True, s')"
  using assms
proof (induction "length rest" arbitrary: s rest rule: less_induct)
  case less
  from until_eof_step [OF less.prems] show ?case
    using less.hyps loop_Inl [of "ForwardUntilEof_body env f t" s]
      loop_Inr [of "ForwardUntilEof_body env f t" s] by metis
qed

lemma until_eof_delivers:
  assumes "unread f base stream s rest"
  shows "\<exists>s'. ForwardUntilEof env f t s = Some (True, s')"
proof (cases "buf f s = []")
  case True
  with until_eof_returns [OF assms] show ?thesis by (simp add: ForwardUntilEof_def)
next
  case False
  from write_ok [OF order.refl assms] obtain s1 where
      "WriteToPeer env f t (length (buf f s)) s = (Some (length (buf f s)), s1)" "buf f s1 = []"
      "unread f base stream s1 rest" by auto
  with False until_eof_returns [of s1 rest] show ?thesis by (simp add: ForwardUntilEof_def)
qed

end

section \<open>A network for the witnesses\<close>

text \<open>
  A network in which each peer sends a fixed stream, in pieces of at most \<open>k\<close> bytes, then
  closes, and accepts every write. It keeps the promises of both locales.
\<close>

definition pipe_env :: "nat \<Rightarrow> (peer \<Rightarrow> bytes) \<Rightarrow> asio" where
  "pipe_env k streams = \<lparr>
     async_read_some = (\<lambda>log p n.
       let rest = drop (length (received p log)) (streams p) in
       if rest = [] then (Some eof, []) else (None, take (min k n) rest)),
     async_write = (\<lambda>log p bs. (None, length bs)),
     async_read_request_header = (\<lambda>log b. (Some end_of_stream,
       \<lparr>rq_header = \<lparr>rq_method = verb_unknown, method_string = [], target = [], version = 11, rq_fields = []\<rparr>,
        rq_chunked = False, rq_content_length = None, rq_keep_alive = False\<rparr>, b)),
     async_read_response_header = (\<lambda>log b. (Some end_of_stream,
       \<lparr>rs_header = \<lparr>result_int = 0, reason = [], rs_version = 11, rs_fields = []\<rparr>,
        rs_chunked = False, rs_content_length = None, rs_keep_alive = False\<rparr>, b)),
     async_write_request = (\<lambda>log h. None),
     async_write_response = (\<lambda>log h. None),
     async_resolve = (\<lambda>log h p. (None, [h])),
     async_connect = (\<lambda>log es. None),
     socket_shutdown = (\<lambda>log p. None),
     socket_close = (\<lambda>log p. None),
     is_open = (\<lambda>log p. \<forall>e \<in> set log. e \<noteq> EvClose p None)\<rparr>"

lemma pipe_accepts_writes: "accepts_writes (pipe_env k streams) t"
  by (simp add: accepts_writes_def pipe_env_def)

interpretation pipe: closing_link "pipe_env (Suc k) streams" f t "[]" "streams f"
  for k streams f t
proof unfold_locales
  fix log pre rest
  assume "received f log = [] @ pre" "streams f = pre @ rest" "rest \<noteq> []"
  then have "async_read_some (pipe_env (Suc k) streams) log f 65536 = (None, take (min (Suc k) 65536) rest)"
    "take (min (Suc k) 65536) rest \<noteq> []"
    by (simp_all add: pipe_env_def)
  then show "\<exists>piece more. async_read_some (pipe_env (Suc k) streams) log f 65536 = (None, piece) \<and>
      piece \<noteq> [] \<and> rest = piece @ more"
    by (metis append_take_drop_id)
qed (fact pipe_accepts_writes, simp add: pipe_env_def)

section \<open>Properties\<close>

text \<open>
  C4. When \<open>ForwardExactly\<close> returns true it has moved exactly \<open>content_length\<close> bytes from
  the one peer to the other, in order and unchanged: the bytes delivered are the first ones
  of what was buffered or received, the rest is still in the buffer, and nothing else of
  the session has changed. This holds for every behaviour of the network.
\<close>

theorem ForwardExactly_correct:
  assumes "ForwardExactly env f t n s = Some (True, s')"
  shows "\<exists>evs. io_log s' = io_log s @ evs \<and> length (delivered t evs) = unat n \<and>
    buf f s @ received f evs = delivered t evs @ buf f s' \<and> keeps f s s'"
  using ForwardExactly_True [OF assms] by (auto simp: transfer_def)

theorem ForwardExactly_correct_witness:
  "\<exists>s'. ForwardExactly (pipe_env (Suc 1) (\<lambda>_. ''hello world'')) Client Remote 5 (HttpProxySession 1 None) =
      Some (True, s') \<and>
    (\<exists>evs. io_log s' = evs \<and> length (delivered Remote evs) = 5 \<and>
      received Client evs = delivered Remote evs @ buf Client s')"
proof -
  let ?s = "HttpProxySession 1 None"
  have "unread Client [] ''hello world'' ?s ''hello world''"
    by (simp add: unread_def io_simps)
  then obtain s' where s': "ForwardExactly (pipe_env (Suc 1) (\<lambda>_. ''hello world'')) Client Remote 5 ?s =
      Some (True, s')"
    using pipe.exactly_delivers [of Client "\<lambda>_. ''hello world''" ?s "''hello world''" 5 1 Remote] by auto
  from ForwardExactly_correct [OF s'] show ?thesis
    using s' by auto
qed

text \<open>
  \<open>ForwardExactly\<close> never sends too much: whatever it returns, at most
  \<open>content_length\<close> bytes were delivered and they are a prefix of what was buffered or
  received, so a failing connection cannot make body bytes appear twice or out of order.
\<close>

theorem ForwardExactly_never_oversends:
  assumes "ForwardExactly env f t n s = Some (ok, s')"
  shows "\<exists>evs. io_log s' = io_log s @ evs \<and> length (delivered t evs) \<le> unat n \<and>
    prefix (delivered t evs) (buf f s @ received f evs)"
  using ForwardExactly_bound [OF assms] by (simp add: forwarded_prefix_def)

theorem ForwardExactly_never_oversends_witness:
  "\<exists>s' evs. ForwardExactly (pipe_env (Suc 0) (\<lambda>_. ''ab'')) Remote Client 1 (HttpProxySession 1 None) =
      Some (True, s') \<and> io_log s' = evs \<and> length (delivered Client evs) \<le> 1 \<and>
      prefix (delivered Client evs) (received Remote evs)"
proof -
  let ?s = "HttpProxySession 1 None"
  have "unread Remote [] ''ab'' ?s ''ab''"
    by (simp add: unread_def io_simps)
  then obtain s' where s': "ForwardExactly (pipe_env (Suc 0) (\<lambda>_. ''ab'')) Remote Client 1 ?s = Some (True, s')"
    using pipe.exactly_delivers [of Remote "\<lambda>_. ''ab''" ?s "''ab''" 1 0 Client] by auto
  from ForwardExactly_never_oversends [OF s'] show ?thesis
    using s' by auto
qed

text \<open>
  On a network that delivers, \<open>ForwardExactly\<close> returns and succeeds: if the bytes
  buffered and the bytes still to come are enough, it delivers exactly the first
  \<open>content_length\<close> of them, however the network cuts them into pieces.
\<close>

theorem ForwardExactly_succeeds:
  assumes "reliable_link env f t base stream" and "unread f base stream s rest"
    and "unat n \<le> length (buf f s @ rest)"
  shows "\<exists>s' rest'. ForwardExactly env f t n s = Some (True, s') \<and>
    transfer f t s (take (unat n) (buf f s @ rest)) s' \<and> unread f base stream s' rest' \<and>
    buf f s' @ rest' = drop (unat n) (buf f s @ rest)"
  using assms by (rule reliable_link.exactly_delivers)

theorem ForwardExactly_succeeds_witness:
  "\<exists>s'. ForwardExactly (pipe_env (Suc 2) (\<lambda>_. ''hello world'')) Client Remote 5 (HttpProxySession 1 None) =
      Some (True, s') \<and>
    transfer Client Remote (HttpProxySession 1 None) ''hello'' s'"
proof -
  have "unread Client [] ''hello world'' (HttpProxySession 1 None) ''hello world''"
    by (simp add: unread_def io_simps)
  from ForwardExactly_succeeds [OF pipe.reliable_link_axioms [of 2 "\<lambda>_. ''hello world''" Client Remote] this,
      of 5]
  show ?thesis by auto
qed

text \<open>
  C40. A connection that ends too early makes \<open>ForwardExactly\<close> run forever: when the peer
  has closed and fewer than \<open>content_length\<close> bytes are buffered, each read reports the end
  of the stream with no bytes, zero bytes are written, and the loop goes on without ever
  returning (the case of the open question in the loop's comment).
\<close>

theorem ForwardExactly_premature_eof_diverges:
  assumes "stream_ended env f" and "accepts_writes env t" and "length (buf f s) < unat n"
  shows "ForwardExactly env f t n s = None"
  using assms by (rule ForwardExactly_diverges)

theorem ForwardExactly_premature_eof_diverges_witness:
  "ForwardExactly (pipe_env 1 (\<lambda>_. [])) Client Remote 5 (HttpProxySession 1 None) = None"
  by (rule ForwardExactly_premature_eof_diverges)
     (simp_all add: stream_ended_def pipe_env_def accepts_writes_def HttpProxySession_def)

text \<open>
  \<open>ForwardUntilEof\<close> relays a close-delimited body completely: when it returns true,
  everything that was buffered or received has been delivered, in order, and the buffer is
  empty.
\<close>

theorem ForwardUntilEof_correct:
  assumes "ForwardUntilEof env f t s = Some (True, s')"
  shows "\<exists>evs. io_log s' = io_log s @ evs \<and> delivered t evs = buf f s @ received f evs \<and>
    buf f s' = [] \<and> keeps f s s'"
  using ForwardUntilEof_True [OF assms] by (auto simp: transfer_def)

theorem ForwardUntilEof_correct_witness:
  "\<exists>s'. ForwardUntilEof (pipe_env (Suc 1) (\<lambda>_. ''abc'')) Remote Client (HttpProxySession 1 None) = Some (True, s') \<and>
    delivered Client (io_log s') = received Remote (io_log s')"
proof -
  let ?s = "HttpProxySession 1 None"
  have "unread Remote [] ''abc'' ?s ''abc''"
    by (simp add: unread_def io_simps)
  then obtain s' where s': "ForwardUntilEof (pipe_env (Suc 1) (\<lambda>_. ''abc'')) Remote Client ?s = Some (True, s')"
    using pipe.until_eof_delivers [of Remote "\<lambda>_. ''abc''" ?s "''abc''" 1 Client] by auto
  from ForwardUntilEof_correct [OF s'] show ?thesis
    using s' by auto
qed

end
