(* ===== verification/Session_Tunnel.thy ===== *)
theory Session_Tunnel
  imports Session_IO
begin

text \<open>
  Closing a session, and the two-way tunnel of a CONNECT exchange.

  \<^item> \<open>CloseSocket\<close>, \<open>CloseRemote\<close>, \<open>CloseClient\<close>, \<open>ResetRemoteState\<close> and \<open>Close\<close> follow
    the end of \<open>http_proxy_session.cpp\<close>. The locale \<open>socket_laws\<close> states what Boost.Asio
    documents of \<open>close\<close>.
  \<^item> \<open>ForwardViaTunnel\<close> is a coroutine. \<open>tunnel_resume\<close> is what it does between two
    suspension points, and the coroutine alone is the loop over it. Two of them run in a
    tunnel, on one thread: \<open>relay_step\<close> lets either of them resume, so a run of the relation
    is an interleaving of the two directions at their \<open>co_await\<close>s, and
    \<open>RelayTunnelBidirectional\<close> is the run that a given executor picks.
\<close>

section \<open>Closing\<close>

definition CloseSocket :: "asio \<Rightarrow> peer \<Rightarrow> session \<Rightarrow> session" where
  "CloseSocket env p s =
     (if \<not> is_open env (io_log s) p then s
      else let s1 = record_event (EvShutdown p (socket_shutdown env (io_log s) p)) s
           in record_event (EvClose p (socket_close env (io_log s1) p)) s1)"

definition ResetRemoteState :: "session \<Rightarrow> session" where
  "ResetRemoteState s =
     s\<lparr>remote_state := (remote_state s)\<lparr>rc_host := '''', rc_port := '''', connected := False\<rparr>\<rparr>"

definition CloseRemote :: "asio \<Rightarrow> session \<Rightarrow> session" where
  "CloseRemote env s = ResetRemoteState (CloseSocket env Remote s)"

definition CloseClient :: "asio \<Rightarrow> session \<Rightarrow> session" where
  "CloseClient env s = CloseSocket env Client s"

definition Close :: "asio \<Rightarrow> session \<Rightarrow> session" where
  "Close env s =
     (if closed s then s
      else CloseClient env (CloseRemote env (s\<lparr>closed := True\<rparr>)))"

lemmas close_defs = CloseSocket_def ResetRemoteState_def CloseRemote_def CloseClient_def Close_def

lemma CloseSocket_keeps [simp]:
  "buf q (CloseSocket env p s) = buf q s" "remote_state (CloseSocket env p s) = remote_state s"
  "closed (CloseSocket env p s) = closed s" "session_id (CloseSocket env p s) = session_id s"
  "rule_http_config (CloseSocket env p s) = rule_http_config s"
  by (simp_all add: CloseSocket_def Let_def record_event_def)

lemma ResetRemoteState_keeps [simp]:
  "buf q (ResetRemoteState s) = buf q s" "closed (ResetRemoteState s) = closed s"
  "session_id (ResetRemoteState s) = session_id s" "io_log (ResetRemoteState s) = io_log s"
  "rule_http_config (ResetRemoteState s) = rule_http_config s"
  "remote_state (ResetRemoteState s) = \<lparr>rc_host = '''', rc_port = '''', connected = False\<rparr>"
  by (cases q; simp add: ResetRemoteState_def)+

lemma closed_update_simps [simp]:
  "buf q (s\<lparr>closed := b\<rparr>) = buf q s"
  by (cases q) simp_all

lemma Close_keeps [simp]:
  "buf q (Close env s) = buf q s" "session_id (Close env s) = session_id s"
  "rule_http_config (Close env s) = rule_http_config s" "closed (Close env s)"
  by (simp_all add: Close_def CloseClient_def CloseRemote_def)

lemma Close_idem [simp]: "closed s \<Longrightarrow> Close env s = s"
  by (simp add: Close_def)

lemma Close_reset:
  "\<not> closed s \<Longrightarrow> remote_state (Close env s) = \<lparr>rc_host = '''', rc_port = '''', connected = False\<rparr>"
  by (simp add: Close_def CloseClient_def CloseRemote_def)

text \<open>The events of closing a socket move no bytes.\<close>

definition close_events :: "io_event list \<Rightarrow> bool" where
  "close_events evs \<longleftrightarrow> (\<forall>e \<in> set evs. (\<exists>p ec. e = EvShutdown p ec \<or> e = EvClose p ec))"

lemma close_events_no_bytes:
  assumes "close_events evs"
  shows "received p evs = []" "delivered p evs = []"
  using assms by (induction evs) (auto simp: close_events_def io_simps)

lemma CloseSocket_log:
  "\<exists>evs. io_log (CloseSocket env p s) = io_log s @ evs \<and> close_events evs"
  by (auto simp: CloseSocket_def Let_def close_events_def)

lemma Close_log: "\<exists>evs. io_log (Close env s) = io_log s @ evs \<and> close_events evs"
proof (cases "closed s")
  case False
  let ?s1 = "CloseRemote env (s\<lparr>closed := True\<rparr>)"
  obtain e1 e2 where "io_log ?s1 = io_log s @ e1" "close_events e1"
      "io_log (CloseSocket env Client ?s1) = io_log ?s1 @ e2" "close_events e2"
    using CloseSocket_log [of env Remote "s\<lparr>closed := True\<rparr>"] CloseSocket_log [of env Client ?s1]
    by (auto simp: CloseRemote_def)
  with False show ?thesis
    by (auto simp: Close_def CloseClient_def close_events_def)
qed (auto simp: close_events_def)

text \<open>
  What Boost.Asio documents: a closed socket is not open, whatever \<open>close\<close> reports, and
  stays so until it is connected again.
\<close>

locale socket_laws =
  fixes env :: asio
  assumes close_closes: "\<not> is_open env (log @ [EvClose p ec]) p"
    and stays_closed: "\<not> is_open env log p \<Longrightarrow> (\<And>es ec. e \<noteq> EvConnect es ec) \<Longrightarrow>
      \<not> is_open env (log @ [e]) p"
begin

lemma CloseSocket_closes: "\<not> is_open env (io_log (CloseSocket env p s)) p"
  using close_closes [of "io_log s @ [EvShutdown p (socket_shutdown env (io_log s) p)]"]
  by (simp add: CloseSocket_def Let_def)

lemma CloseSocket_other:
  "\<not> is_open env (io_log s) q \<Longrightarrow> \<not> is_open env (io_log (CloseSocket env p s)) q"
  using stays_closed [of "io_log s" q "EvShutdown p (socket_shutdown env (io_log s) p)"]
    stays_closed [of "io_log s @ [EvShutdown p (socket_shutdown env (io_log s) p)]" q]
  by (simp add: CloseSocket_def Let_def)

lemma Close_closes:
  assumes "\<not> closed s"
  shows "\<not> is_open env (io_log (Close env s)) p"
proof -
  let ?s1 = "CloseRemote env (s\<lparr>closed := True\<rparr>)"
  have "\<not> is_open env (io_log ?s1) Remote"
    using CloseSocket_closes by (simp add: CloseRemote_def)
  from CloseSocket_other [OF this] CloseSocket_closes [of Client ?s1] assms show ?thesis
    by (cases p) (simp_all add: Close_def CloseClient_def)
qed

end

section \<open>The tunnel\<close>

text \<open>
  Where the coroutine is: at the top of its loop, about to write what is buffered, or
  after its \<open>break\<close> and \<open>Close()\<close>.
\<close>

datatype tunnel_pc = Tun_Top | Tun_Write | Tun_Stopped

definition tunnel_write :: "asio \<Rightarrow> peer \<Rightarrow> peer \<Rightarrow> session \<Rightarrow> tunnel_pc \<times> session" where
  "tunnel_write env from dest s =
     (case WriteToPeer env from dest (length (buf from s)) s of
        (None, s1) \<Rightarrow> (Tun_Stopped, Close env s1)
      | (Some _, s1) \<Rightarrow> (Tun_Top, s1))"

definition tunnel_resume ::
    "asio \<Rightarrow> peer \<Rightarrow> peer \<Rightarrow> tunnel_pc \<Rightarrow> session \<Rightarrow> tunnel_pc \<times> session" where
  "tunnel_resume env from dest pc s =
     (case pc of
        Tun_Top \<Rightarrow>
          if length (buf from s) = 0 then
            (case ReadSomeFromPeer env from s of
               (None, s1) \<Rightarrow> (Tun_Stopped, Close env s1)
             | (Some r, s1) \<Rightarrow>
                 if at_eof r then (Tun_Stopped, Close env s1) else (Tun_Write, s1))
          else tunnel_write env from dest s
      | Tun_Write \<Rightarrow> tunnel_write env from dest s
      | Tun_Stopped \<Rightarrow> (Tun_Stopped, s))"

definition ForwardViaTunnel :: "asio \<Rightarrow> peer \<Rightarrow> peer \<Rightarrow> session \<Rightarrow> session option" where
  "ForwardViaTunnel env from dest s =
     loop (\<lambda>(pc, s). if pc = Tun_Stopped then Inr s else Inl (tunnel_resume env from dest pc s))
       (Tun_Top, s)"

definition ClientToRemoteTunnel :: "asio \<Rightarrow> session \<Rightarrow> session option" where
  "ClientToRemoteTunnel env s = ForwardViaTunnel env Client Remote s"

definition RemoteToClientTunnel :: "asio \<Rightarrow> session \<Rightarrow> session option" where
  "RemoteToClientTunnel env s = ForwardViaTunnel env Remote Client s"

text \<open>Both directions: the detached coroutine \<open>c2r\<close>, the awaited one \<open>r2c\<close>, and the session they share.\<close>

record relay =
  c2r :: tunnel_pc
  r2c :: tunnel_pc
  shared :: session

inductive relay_step :: "asio \<Rightarrow> relay \<Rightarrow> relay \<Rightarrow> bool" for env where
  resume_c2r: "c2r r \<noteq> Tun_Stopped \<Longrightarrow>
    tunnel_resume env Client Remote (c2r r) (shared r) = (pc, s) \<Longrightarrow>
    relay_step env r (r\<lparr>c2r := pc, shared := s\<rparr>)"
| resume_r2c: "r2c r \<noteq> Tun_Stopped \<Longrightarrow>
    tunnel_resume env Remote Client (r2c r) (shared r) = (pc, s) \<Longrightarrow>
    relay_step env r (r\<lparr>r2c := pc, shared := s\<rparr>)"

inductive_cases relay_stepE: "relay_step env r r'"

inductive relay_run :: "asio \<Rightarrow> relay \<Rightarrow> relay \<Rightarrow> bool" for env where
  run_refl: "relay_run env r r"
| run_step: "relay_run env r r' \<Longrightarrow> relay_step env r' r'' \<Longrightarrow> relay_run env r r''"

definition relay_start :: "session \<Rightarrow> relay" where
  "relay_start s = \<lparr>c2r = Tun_Top, r2c = Tun_Top, shared = s\<rparr>"

text \<open>
  The run an executor picks: \<open>sched\<close> says whose completion comes next. The caller resumes
  when \<open>RemoteToClientTunnel\<close> has returned, wherever the detached coroutine is.
\<close>

definition RelayTunnelBidirectional ::
    "asio \<Rightarrow> (io_log \<Rightarrow> peer) \<Rightarrow> session \<Rightarrow> relay option" where
  "RelayTunnelBidirectional env sched s =
     loop (\<lambda>r. if r2c r = Tun_Stopped then Inr r
        else if sched (io_log (shared r)) = Client \<and> c2r r \<noteq> Tun_Stopped
        then (case tunnel_resume env Client Remote (c2r r) (shared r) of
                (pc, s') \<Rightarrow> Inl (r\<lparr>c2r := pc, shared := s'\<rparr>))
        else (case tunnel_resume env Remote Client (r2c r) (shared r) of
                (pc, s') \<Rightarrow> Inl (r\<lparr>r2c := pc, shared := s'\<rparr>)))
       (relay_start s)"

section \<open>What one direction does\<close>

text \<open>
  From \<open>s\<close> to \<open>s'\<close>, what went from \<open>f\<close> to \<open>t\<close> is the beginning of what was there to send;
  while the direction runs, the rest is in its buffer.
\<close>

definition dir_ok :: "peer \<Rightarrow> peer \<Rightarrow> session \<Rightarrow> tunnel_pc \<Rightarrow> session \<Rightarrow> bool" where
  "dir_ok f t s pc s' \<longleftrightarrow> (\<exists>evs. io_log s' = io_log s @ evs \<and>
     prefix (delivered t evs) (buf f s @ received f evs) \<and>
     (pc \<noteq> Tun_Stopped \<longrightarrow> buf f s @ received f evs = delivered t evs @ buf f s'))"

text \<open>From \<open>s\<close> to \<open>s'\<close> nothing happened that concerns the direction.\<close>

definition quiet :: "peer \<Rightarrow> peer \<Rightarrow> session \<Rightarrow> session \<Rightarrow> bool" where
  "quiet f t s s' \<longleftrightarrow> (\<exists>evs. io_log s' = io_log s @ evs \<and> received f evs = [] \<and>
     delivered t evs = [] \<and> buf f s' = buf f s)"

lemma dir_ok_trans:
  assumes "dir_ok f t s0 pc s" and "pc \<noteq> Tun_Stopped" and "dir_ok f t s pc' s'"
  shows "dir_ok f t s0 pc' s'"
proof -
  from assms(1,2) obtain evs where 1: "io_log s = io_log s0 @ evs"
      "buf f s0 @ received f evs = delivered t evs @ buf f s" by (auto simp: dir_ok_def)
  from assms(3) obtain evs' where 2: "io_log s' = io_log s @ evs'"
      "prefix (delivered t evs') (buf f s @ received f evs')"
      "pc' \<noteq> Tun_Stopped \<longrightarrow> buf f s @ received f evs' = delivered t evs' @ buf f s'"
    by (auto simp: dir_ok_def)
  have eq: "buf f s0 @ received f (evs @ evs') = delivered t evs @ buf f s @ received f evs'"
    using 1(2) by (metis append.assoc received_simps(3))
  show ?thesis
    unfolding dir_ok_def
  proof (intro exI conjI)
    show "io_log s' = io_log s0 @ evs @ evs'" using 1(1) 2(1) by simp
    show "prefix (delivered t (evs @ evs')) (buf f s0 @ received f (evs @ evs'))"
      using 2(2) unfolding eq by (simp add: io_simps)
    show "pc' \<noteq> Tun_Stopped \<longrightarrow>
        buf f s0 @ received f (evs @ evs') = delivered t (evs @ evs') @ buf f s'"
      using 2(3) unfolding eq by (simp add: io_simps)
  qed
qed

lemma dir_ok_quiet:
  assumes "dir_ok f t s0 pc s" and "quiet f t s s'"
  shows "dir_ok f t s0 pc s'"
proof -
  from assms(1) obtain evs where 1: "io_log s = io_log s0 @ evs"
      "prefix (delivered t evs) (buf f s0 @ received f evs)"
      "pc \<noteq> Tun_Stopped \<longrightarrow> buf f s0 @ received f evs = delivered t evs @ buf f s"
    by (auto simp: dir_ok_def)
  from assms(2) obtain evs' where 2: "io_log s' = io_log s @ evs'" "received f evs' = []"
      "delivered t evs' = []" "buf f s' = buf f s" by (auto simp: quiet_def)
  from 1 2 show ?thesis
    unfolding dir_ok_def by (intro exI [of _ "evs @ evs'"]) (simp add: io_simps)
qed

lemma quiet_trans: "quiet f t s s' \<Longrightarrow> quiet f t s' s'' \<Longrightarrow> quiet f t s s''"
  unfolding quiet_def by (elim exE) (rule_tac x = "evs @ evsa" in exI, simp add: io_simps)

lemma quiet_refl: "quiet f t s s"
  by (simp add: quiet_def io_simps)

lemma quiet_Close: "quiet f t s (Close env s)"
  using Close_log [of env s] close_events_no_bytes by (auto simp: quiet_def)

lemma quiet_read:
  assumes "ReadSomeFromPeer env f s = (r, s')" and "t \<noteq> f"
  shows "quiet t f s s'"
  using assms
  by (auto simp: ReadSomeFromPeer_def quiet_def Let_def io_simps
      split: prod.splits option.splits if_splits)

lemma quiet_write:
  assumes "WriteToPeer env f t n s = (r, s')" and "t \<noteq> f"
  shows "quiet t f s s'"
  using assms by (auto simp: WriteToPeer_def quiet_def Let_def io_simps split: prod.splits if_splits)

lemma transfer_dir_ok: "transfer f t s out s' \<Longrightarrow> dir_ok f t s pc s'"
  unfolding transfer_def dir_ok_def by (auto simp: prefix_def)

lemma forwarded_prefix_dir_ok: "forwarded_prefix f t n s s' \<Longrightarrow> dir_ok f t s Tun_Stopped s'"
  by (auto simp: forwarded_prefix_def dir_ok_def)

lemma tunnel_write_dir_ok:
  assumes "tunnel_write env f t s = (pc, s')"
  shows "dir_ok f t s pc s'"
proof -
  obtain w s1 where w: "WriteToPeer env f t (length (buf f s)) s = (w, s1)"
    by (cases "WriteToPeer env f t (length (buf f s)) s")
  show ?thesis
  proof (cases w)
    case None
    from failed_write_forwarded_prefix [OF transfer_refl w [unfolded None] order.refl]
    have "dir_ok f t s Tun_Stopped s1" by (simp add: forwarded_prefix_dir_ok)
    from dir_ok_quiet [OF this quiet_Close] assms w None show ?thesis
      by (auto simp: tunnel_write_def)
  next
    case (Some n)
    from transfer_dir_ok [OF WriteToPeer_SomeD(2) [OF w [unfolded Some]]] assms w Some show ?thesis
      by (simp add: tunnel_write_def)
  qed
qed

lemma tunnel_resume_dir_ok:
  assumes "tunnel_resume env f t pc s = (pc', s')"
  shows "dir_ok f t s pc' s'"
proof -
  have read: "dir_ok f t s q s1" if "ReadSomeFromPeer env f s = (r, s1)" for q r s1
    using transfer_dir_ok [OF transfer_read [OF that]] .
  show ?thesis
    using assms transfer_dir_ok [OF transfer_refl] tunnel_write_dir_ok dir_ok_quiet [OF read quiet_Close] read
    by (auto simp: tunnel_resume_def split: tunnel_pc.splits if_splits prod.splits option.splits)
qed

lemma tunnel_resume_quiet:
  assumes "tunnel_resume env f t pc s = (pc', s')" and "t \<noteq> f"
  shows "quiet t f s s'"
  using assms quiet_refl quiet_trans [OF quiet_write quiet_Close] quiet_trans [OF quiet_read quiet_Close]
    quiet_write [OF _ assms(2)] quiet_read [OF _ assms(2)]
  by (auto simp: tunnel_resume_def tunnel_write_def
      split: tunnel_pc.splits if_splits prod.splits option.splits)

text \<open>A direction that stops closes the session; one that goes on leaves it as it is.\<close>

lemma tunnel_resume_closed:
  assumes "tunnel_resume env f t pc s = (pc', s')" and "pc \<noteq> Tun_Stopped"
  shows "closed s' \<longleftrightarrow> closed s \<or> pc' = Tun_Stopped"
proof -
  have r: "closed s1 = closed s" if "ReadSomeFromPeer env f s = (q, s1)" for q s1
    using transfer_read [OF that, of t] keepsD(2) by (auto simp: transfer_def)
  have w: "closed s1 = closed s" if "WriteToPeer env f t n s = (q, s1)" for q s1 n
    using that WriteToPeer_SomeD(2) [of env f t n s _ s1] WriteToPeer_NoneD(1) [of env f t n s s1] keepsD(2)
    by (cases q) (auto simp: transfer_def)
  from assms show ?thesis
    using r w by (auto simp: tunnel_resume_def tunnel_write_def
        split: tunnel_pc.splits if_splits prod.splits option.splits)
qed

section \<open>Every interleaving\<close>

definition relay_inv :: "session \<Rightarrow> relay \<Rightarrow> bool" where
  "relay_inv s0 r \<longleftrightarrow> dir_ok Client Remote s0 (c2r r) (shared r) \<and>
     dir_ok Remote Client s0 (r2c r) (shared r) \<and>
     (closed (shared r) \<longleftrightarrow> c2r r = Tun_Stopped \<or> r2c r = Tun_Stopped)"

lemma relay_inv_start: "\<not> closed s \<Longrightarrow> relay_inv s (relay_start s)"
  by (simp add: relay_inv_def relay_start_def transfer_dir_ok [OF transfer_refl])

lemma relay_inv_step:
  assumes "relay_step env r r'" and "relay_inv s0 r"
  shows "relay_inv s0 r'"
  using assms(1)
proof cases
  case (resume_c2r pc s)
  note own = tunnel_resume_dir_ok [OF resume_c2r(3)]
  note other = tunnel_resume_quiet [OF resume_c2r(3)]
  from assms(2) show ?thesis
    using dir_ok_trans [OF _ resume_c2r(2) own] dir_ok_quiet [OF _ other]
      tunnel_resume_closed [OF resume_c2r(3,2)] resume_c2r(1,2)
    by (auto simp: relay_inv_def)
next
  case (resume_r2c pc s)
  note own = tunnel_resume_dir_ok [OF resume_r2c(3)]
  note other = tunnel_resume_quiet [OF resume_r2c(3)]
  from assms(2) show ?thesis
    using dir_ok_trans [OF _ resume_r2c(2) own] dir_ok_quiet [OF _ other]
      tunnel_resume_closed [OF resume_r2c(3,2)] resume_r2c(1,2)
    by (auto simp: relay_inv_def)
qed

lemma relay_inv_run:
  assumes "relay_run env r r'" and "relay_inv s0 r"
  shows "relay_inv s0 r'"
  using assms by (induction rule: relay_run.induct) (auto intro: relay_inv_step)

text \<open>The executor's run is one of the interleavings.\<close>

lemma RelayTunnelBidirectional_run:
  assumes "RelayTunnelBidirectional env sched s = Some r"
  shows "relay_run env (relay_start s) r \<and> r2c r = Tun_Stopped"
  by (rule loop_invariant [OF assms [unfolded RelayTunnelBidirectional_def],
        where P = "relay_run env (relay_start s)"])
     (auto intro: run_refl run_step resume_c2r resume_r2c split: if_splits prod.splits)

section \<open>The tunnel ends\<close>

text \<open>Each peer sends at most \<open>N\<close> bytes in the life of the session.\<close>

definition bounded_traffic :: "asio \<Rightarrow> nat \<Rightarrow> bool" where
  "bounded_traffic env N \<longleftrightarrow> (\<forall>log p n ec bs. async_read_some env log p n = (ec, bs) \<longrightarrow>
     length bs \<le> N - length (received p log))"

definition dir_work :: "nat \<Rightarrow> peer \<Rightarrow> tunnel_pc \<Rightarrow> session \<Rightarrow> nat" where
  "dir_work N f pc s = 2 * (N - length (received f (io_log s))) +
     (if buf f s = [] then 0 else 1) + (if pc = Tun_Stopped then 0 else 1)"

definition pc_ok :: "peer \<Rightarrow> tunnel_pc \<Rightarrow> session \<Rightarrow> bool" where
  "pc_ok f pc s \<longleftrightarrow> (pc = Tun_Write \<longrightarrow> buf f s \<noteq> [])"

lemma received_Close [simp]: "received p (io_log (Close env s)) = received p (io_log s)"
  using Close_log [of env s] close_events_no_bytes(1) by (auto simp: io_simps)

lemma read_work:
  assumes "bounded_traffic env N" and "ReadSomeFromPeer env f s = (q, s')"
  shows "2 * (N - length (received f (io_log s'))) + length (buf f s') \<le>
      2 * (N - length (received f (io_log s))) + length (buf f s)"
    and "q = Some r \<Longrightarrow> \<not> at_eof r \<Longrightarrow> buf f s' \<noteq> [] \<and>
      length (received f (io_log s)) < length (received f (io_log s')) \<and> length (received f (io_log s')) \<le> N"
proof -
  obtain ec bs where rd: "async_read_some env (io_log s) f 65536 = (ec, bs)"
    by (cases "async_read_some env (io_log s) f 65536")
  have "length bs \<le> N - length (received f (io_log s))"
    using assms(1) rd by (auto simp: bounded_traffic_def)
  moreover from this have "bs \<noteq> [] \<Longrightarrow> length (received f (io_log s)) + length bs \<le> N"
    by (cases bs) auto
  ultimately show "2 * (N - length (received f (io_log s'))) + length (buf f s') \<le>
      2 * (N - length (received f (io_log s))) + length (buf f s)"
    and "q = Some r \<Longrightarrow> \<not> at_eof r \<Longrightarrow> buf f s' \<noteq> [] \<and>
      length (received f (io_log s)) < length (received f (io_log s')) \<and> length (received f (io_log s')) \<le> N"
    using assms(2) rd
    by (auto simp: ReadSomeFromPeer_def Let_def io_simps split: option.splits if_splits)
qed

lemma tunnel_write_work:
  assumes "tunnel_write env f t s = (pc', s')" and "buf f s \<noteq> []" and "pc \<noteq> Tun_Stopped" and "t \<noteq> f"
  shows "dir_work N f pc' s' < dir_work N f pc s \<and> pc_ok f pc' s'"
proof -
  obtain w s1 where w: "WriteToPeer env f t (length (buf f s)) s = (w, s1)"
    by (cases "WriteToPeer env f t (length (buf f s)) s")
  then have "received f (io_log s1) = received f (io_log s)"
    by (auto simp: WriteToPeer_def Let_def io_simps split: prod.splits if_splits)
  with assms w WriteToPeer_NoneD(2) [of env f t _ s s1] WriteToPeer_SomeD(3) [of env f t _ s _ s1]
  show ?thesis
    by (cases w) (auto simp: tunnel_write_def dir_work_def pc_ok_def)
qed

lemma tunnel_resume_work:
  assumes "bounded_traffic env N" and "tunnel_resume env f t pc s = (pc', s')"
    and "pc \<noteq> Tun_Stopped" and "pc_ok f pc s" and "t \<noteq> f"
  shows "dir_work N f pc' s' < dir_work N f pc s \<and> pc_ok f pc' s'"
proof (cases "pc = Tun_Top \<and> buf f s = []")
  case False
  with assms(2-4) have "tunnel_write env f t s = (pc', s')" "buf f s \<noteq> []"
    by (auto simp: tunnel_resume_def pc_ok_def split: tunnel_pc.splits)
  from tunnel_write_work [OF this assms(3,5)] show ?thesis .
next
  case True
  obtain q s1 where q: "ReadSomeFromPeer env f s = (q, s1)" by (cases "ReadSomeFromPeer env f s")
  note w1 = read_work(1) [OF assms(1) q]
  show ?thesis
  proof (cases "\<exists>r. q = Some r \<and> \<not> at_eof r")
    case cont: True
    then obtain r where r: "q = Some r" "\<not> at_eof r" by blast
    with assms(2) True q have "pc' = Tun_Write" "s' = s1" by (auto simp: tunnel_resume_def)
    with read_work(2) [OF assms(1) q r] True assms(3) show ?thesis
      by (auto simp: dir_work_def pc_ok_def)
  next
    case stop: False
    with assms(2) True q have "pc' = Tun_Stopped" "s' = Close env s1"
      by (auto simp: tunnel_resume_def split: option.splits if_splits)
    moreover have "(if buf f s1 = [] then 0 else 1) \<le> length (buf f s1)"
      by (cases "buf f s1") simp_all
    ultimately show ?thesis
      using w1 True assms(3) by (simp add: dir_work_def pc_ok_def)
  qed
qed

definition relay_work :: "nat \<Rightarrow> relay \<Rightarrow> nat" where
  "relay_work N r = dir_work N Client (c2r r) (shared r) + dir_work N Remote (r2c r) (shared r)"

definition relay_pcs_ok :: "relay \<Rightarrow> bool" where
  "relay_pcs_ok r \<longleftrightarrow> pc_ok Client (c2r r) (shared r) \<and> pc_ok Remote (r2c r) (shared r)"

lemma quiet_work:
  assumes "quiet f t s s'"
  shows "dir_work N f pc s' = dir_work N f pc s" "pc_ok f pc s' = pc_ok f pc s"
  using assms by (auto simp: quiet_def dir_work_def pc_ok_def io_simps)

lemma relay_step_work:
  assumes "bounded_traffic env N" and "relay_step env r r'" and "relay_pcs_ok r"
  shows "relay_pcs_ok r' \<and> relay_work N r' < relay_work N r"
  using assms(2)
proof cases
  case (resume_c2r pc s)
  with tunnel_resume_work [OF assms(1) resume_c2r(3,2)] quiet_work [OF tunnel_resume_quiet [OF resume_c2r(3)]]
    assms(3) show ?thesis by (simp add: relay_pcs_ok_def relay_work_def)
next
  case (resume_r2c pc s)
  with tunnel_resume_work [OF assms(1) resume_r2c(3,2)] quiet_work [OF tunnel_resume_quiet [OF resume_r2c(3)]]
    assms(3) show ?thesis by (simp add: relay_pcs_ok_def relay_work_def)
qed

lemma RelayTunnelBidirectional_returns:
  assumes "bounded_traffic env N"
  shows "\<exists>r. RelayTunnelBidirectional env sched s = Some r"
  unfolding RelayTunnelBidirectional_def
proof (rule loop_terminates [where P = relay_pcs_ok and m = "relay_work N"])
  show "relay_pcs_ok (relay_start s)" by (simp add: relay_pcs_ok_def relay_start_def pc_ok_def)
next
  fix r r'
  assume "relay_pcs_ok r"
    "(if r2c r = Tun_Stopped then Inr r
      else if sched (io_log (shared r)) = Client \<and> c2r r \<noteq> Tun_Stopped
      then (case tunnel_resume env Client Remote (c2r r) (shared r) of
              (pc, s') \<Rightarrow> Inl (r\<lparr>c2r := pc, shared := s'\<rparr>))
      else (case tunnel_resume env Remote Client (r2c r) (shared r) of
              (pc, s') \<Rightarrow> Inl (r\<lparr>r2c := pc, shared := s'\<rparr>))) = Inl r'"
  then show "relay_pcs_ok r' \<and> relay_work N r' < relay_work N r"
    using relay_step_work [OF assms]
    by (auto intro: resume_c2r resume_r2c split: if_splits prod.splits)
qed

text \<open>
  What Boost.Asio documents of operations on a closed socket: they fail, and not with the
  end of the stream.
\<close>

locale closed_socket_laws = socket_laws +
  assumes closed_read: "\<not> is_open env log p \<Longrightarrow>
      \<exists>e bs. async_read_some env log p n = (Some e, bs) \<and> e \<noteq> eof"
    and closed_write: "\<not> is_open env log p \<Longrightarrow> \<exists>e k. async_write env log p bs = (Some e, k)"
begin

lemma resume_on_closed:
  assumes "\<not> is_open env (io_log s) f" and "\<not> is_open env (io_log s) t"
    and "tunnel_resume env f t pc s = (pc', s')"
  shows "pc' = Tun_Stopped"
proof -
  obtain e k where w: "async_write env (io_log s) t (buf f s) = (Some e, k)"
    using closed_write assms(2) by blast
  have "\<exists>s1. WriteToPeer env f t (length (buf f s)) s = (None, s1)"
    using w by (simp add: WriteToPeer_def Let_def)
  moreover obtain e bs where r: "async_read_some env (io_log s) f 65536 = (Some e, bs)" "e \<noteq> eof"
    using closed_read assms(1) by blast
  then have "\<exists>s1. ReadSomeFromPeer env f s = (None, s1)"
    by (simp add: ReadSomeFromPeer_def Let_def)
  ultimately show ?thesis
    using assms(3)
    by (auto simp: tunnel_resume_def tunnel_write_def split: tunnel_pc.splits if_splits prod.splits)
qed

lemma stays_closed_log:
  assumes "\<not> is_open env log p" and "\<forall>e \<in> set evs. \<forall>es ec. e \<noteq> EvConnect es ec"
  shows "\<not> is_open env (log @ evs) p"
  using assms(2)
proof (induction evs rule: rev_induct)
  case (snoc e evs)
  then show ?case using stays_closed [of "log @ evs" p e] by simp
qed (use assms(1) in simp)

lemma tunnel_io_no_connect:
  "ReadSomeFromPeer env f s = (q, s1) \<Longrightarrow> \<exists>ec bs. io_log s1 = io_log s @ [EvReadSome f ec bs]"
  "WriteToPeer env f t n s = (w, s1) \<Longrightarrow> \<exists>bs ec k. io_log s1 = io_log s @ [EvWrite t bs ec k]"
  by (auto simp: ReadSomeFromPeer_def WriteToPeer_def Let_def
      split: prod.splits option.splits if_splits)

lemma resume_keeps_closed:
  assumes "tunnel_resume env f t pc s = (pc', s')" and "closed s" and "\<forall>p. \<not> is_open env (io_log s) p"
  shows "\<not> is_open env (io_log s') p"
proof -
  have r: "\<not> is_open env (io_log s1) p \<and> closed s1" if "ReadSomeFromPeer env f s = (q, s1)" for q s1
    using tunnel_io_no_connect(1) [OF that] stays_closed [of "io_log s" p] assms(2,3)
      transfer_read [OF that, of t] keepsD(2) by (auto simp: transfer_def)
  have w: "\<not> is_open env (io_log s1) p \<and> closed s1" if "WriteToPeer env f t n s = (q, s1)" for q s1 n
    using tunnel_io_no_connect(2) [OF that] stays_closed [of "io_log s" p] assms(2,3)
      that WriteToPeer_SomeD(2) [of env f t n s _ s1] WriteToPeer_NoneD(1) [of env f t n s s1] keepsD(2)
    by (cases q) (auto simp: transfer_def)
  from assms(1,3) show ?thesis
    using r w by (auto simp: tunnel_resume_def tunnel_write_def
        split: tunnel_pc.splits if_splits prod.splits option.splits)
qed

lemma resume_closes:
  assumes "tunnel_resume env f t pc s = (Tun_Stopped, s')" and "pc \<noteq> Tun_Stopped" and "\<not> closed s"
  shows "\<not> is_open env (io_log s') p"
proof -
  have r: "\<not> closed s1" if "ReadSomeFromPeer env f s = (q, s1)" for q s1
    using transfer_read [OF that, of t] keepsD(2) assms(3) by (auto simp: transfer_def)
  have w: "\<not> closed s1" if "WriteToPeer env f t n s = (None, s1)" for s1 n
    using WriteToPeer_NoneD(1) [OF that] keepsD(2) assms(3) by auto
  from assms(1,2) show ?thesis
    using Close_closes r w by (auto simp: tunnel_resume_def tunnel_write_def
        split: tunnel_pc.splits if_splits prod.splits option.splits)
qed

lemma relay_step_closed:
  assumes "relay_step env r r'" and "relay_inv s0 r"
    and "closed (shared r) \<Longrightarrow> \<forall>p. \<not> is_open env (io_log (shared r)) p"
    and "closed (shared r')"
  shows "\<forall>p. \<not> is_open env (io_log (shared r')) p"
proof (cases "closed (shared r)")
  case True
  from assms(1) show ?thesis
    by cases (use resume_keeps_closed True assms(3) in auto)
next
  case False
  from assms(1) show ?thesis
  proof cases
    case (resume_c2r pc s)
    with tunnel_resume_closed [OF resume_c2r(3,2)] False assms(4) resume_closes [of Client Remote]
    show ?thesis by auto
  next
    case (resume_r2c pc s)
    with tunnel_resume_closed [OF resume_r2c(3,2)] False assms(4) resume_closes [of Remote Client]
    show ?thesis by auto
  qed
qed

lemma relay_run_closed:
  assumes "relay_run env (relay_start s) r" and "\<not> closed s"
  shows "relay_inv s r \<and> (closed (shared r) \<longrightarrow> (\<forall>p. \<not> is_open env (io_log (shared r)) p))"
  using assms
proof (induction "relay_start s" r rule: relay_run.induct)
  case run_refl
  then show ?case using relay_inv_start by (simp add: relay_start_def)
next
  case (run_step r' r'')
  then show ?case using relay_inv_step relay_step_closed by metis
qed

lemma relay_last_step:
  assumes "relay_run env (relay_start s) r" and "\<not> closed s"
    and "c2r r = Tun_Stopped \<or> r2c r = Tun_Stopped" and "relay_step env r r'"
  shows "c2r r' = Tun_Stopped \<and> r2c r' = Tun_Stopped"
proof -
  from relay_run_closed [OF assms(1,2)] assms(3)
  have "\<forall>p. \<not> is_open env (io_log (shared r)) p" by (auto simp: relay_inv_def)
  then have stop: "pc' = Tun_Stopped" if "tunnel_resume env f t pc (shared r) = (pc', s')" for f t pc pc' s'
    using resume_on_closed that by blast
  show ?thesis
    using assms(4) by (rule relay_stepE) (use stop assms(3) in auto)
qed

end

section \<open>A network with sockets that close\<close>

text \<open>The client is connected from the start, the remote after a successful connect.\<close>

fun socket_open :: "peer \<Rightarrow> io_event \<Rightarrow> bool \<Rightarrow> bool" where
  "socket_open p (EvClose q _) b = (b \<and> p \<noteq> q)"
| "socket_open p (EvConnect _ None) b = (b \<or> p = Remote)"
| "socket_open p _ b = b"

definition opened :: "io_log \<Rightarrow> peer \<Rightarrow> bool" where
  "opened log p = fold (socket_open p) log (p = Client)"

definition socket_env :: "nat \<Rightarrow> (peer \<Rightarrow> bytes) \<Rightarrow> asio" where
  "socket_env k streams = (pipe_env k streams)\<lparr>
     async_read_some := (\<lambda>log p n. if opened log p then async_read_some (pipe_env k streams) log p n
       else (Some operation_aborted, [])),
     async_write := (\<lambda>log p bs. if opened log p then (None, length bs) else (Some operation_aborted, 0)),
     is_open := opened\<rparr>"

lemma opened_snoc [simp]: "opened (log @ [e]) p = socket_open p e (opened log p)"
  by (simp add: opened_def)

interpretation socket: closed_socket_laws "socket_env k streams" for k streams
proof unfold_locales
  fix log p e
  assume "\<not> is_open (socket_env k streams) log p" "\<And>es ec. e \<noteq> EvConnect es ec"
  then show "\<not> is_open (socket_env k streams) (log @ [e]) p"
    by (cases e) (auto simp: socket_env_def)
qed (simp_all add: socket_env_def)

lemma socket_env_bounded:
  assumes "\<And>p. length (streams p) \<le> N"
  shows "bounded_traffic (socket_env k streams) N"
proof -
  have "length (streams p) - length (received p log) \<le> N - length (received p log)" for p log
    using assms [of p] by simp
  then show ?thesis
    by (auto simp: bounded_traffic_def socket_env_def pipe_env_def Let_def split: if_splits
        intro: order.trans [OF min.cobounded1] le_trans)
qed

text \<open>A session whose remote is connected, and a tunnel on it.\<close>

definition tunnel_session :: session where
  "tunnel_session = record_event (EvConnect [''192.0.2.1''] None) (HttpProxySession 1 None)"

lemma tunnel_session: "\<not> closed tunnel_session"
  by (simp add: tunnel_session_def record_event_def)

definition tunnel_net :: asio where
  "tunnel_net = socket_env (Suc 1) (\<lambda>p. if p = Client then ''ping'' else ''pong!'')"

lemma tunnel_net_bounded: "bounded_traffic tunnel_net 5"
  unfolding tunnel_net_def by (rule socket_env_bounded) simp

lemma tunnel_net_run:
  "\<exists>r. relay_run tunnel_net (relay_start tunnel_session) r \<and> r2c r = Tun_Stopped"
  using RelayTunnelBidirectional_returns [OF tunnel_net_bounded, of "\<lambda>_. Client" tunnel_session]
    RelayTunnelBidirectional_run by blast

section \<open>Properties\<close>







text \<open>
  \<open>Close\<close> closes both sockets, forgets the remote connection, keeps what is buffered
  and is idempotent, so the two coroutines of a tunnel and \<open>Run\<close> may all call it.
\<close>

theorem Close_correct:
  assumes "socket_laws env" and "\<not> closed s"
  shows "(\<forall>p. \<not> is_open env (io_log (Close env s)) p) \<and>
    remote_state (Close env s) = \<lparr>rc_host = [], rc_port = [], connected = False\<rparr> \<and>
    (\<forall>p. buf p (Close env s) = buf p s) \<and> closed (Close env s) \<and> Close env (Close env s) = Close env s"
  using socket_laws.Close_closes [OF assms] Close_reset [OF assms(2)] by auto

theorem Close_correct_witness:
  "\<not> is_open (socket_env 1 (\<lambda>_. ''x'')) (io_log (Close (socket_env 1 (\<lambda>_. ''x'')) tunnel_session)) Remote \<and>
   is_open (socket_env 1 (\<lambda>_. ''x'')) (io_log tunnel_session) Remote"
proof
  show "\<not> is_open (socket_env 1 (\<lambda>_. ''x'')) (io_log (Close (socket_env 1 (\<lambda>_. ''x'')) tunnel_session)) Remote"
    using Close_correct [OF socket.socket_laws_axioms tunnel_session(1)] by blast
  show "is_open (socket_env 1 (\<lambda>_. ''x'')) (io_log tunnel_session) Remote"
    by (simp add: socket_env_def tunnel_session_def opened_def)
qed

end
