(* ===== verification/Session_Connect.thy ===== *)
theory Session_Connect
  imports Session_Tunnel
begin

text \<open>
  From a request to a connection: the remote named by a request target
  (\<open>ParseRemoteInfo\<close>), the header for the remote (\<open>BuildRemoteRequestHeader\<close>) and the
  connection that \<open>EnsureRemoteConnected\<close> reuses or opens.

  \<^item> Boost.URL is the parameter \<open>url_api\<close>: the three parsers the session calls, with what its
    views return. What the session uses of Boost.Beast beside the field container is in
    \<open>message_api\<close>: the method setter, which refuses the unknown verb with an exception, the
    text of a verb, and the conversion of a status number to Beast's enumeration.
  \<^item> \<open>link log\<close> reads off a log which host and port the remote socket is connected to;
    \<open>link_ok\<close> is the invariant that the session's \<open>remote_state\<close> agrees with it.
\<close>

section \<open>The remote of a request\<close>

record RemoteInfo =
  ri_scheme :: string
  ri_host :: string
  ri_port :: string
  forward_target :: string

record authority_view =
  auth_host :: string
  auth_port :: string

record url_view =
  uri_scheme :: string
  encoded_target :: string
  uri_host :: string
  uri_port :: string
  encoded_path :: string
  has_query :: bool
  encoded_query :: string

record url_api =
  parse_authority :: "string \<Rightarrow> authority_view option"
  parse_absolute_uri :: "string \<Rightarrow> url_view option"
  parse_origin_form :: "string \<Rightarrow> url_view option"

definition ParseConnectRemoteInfo :: "url_api \<Rightarrow> request_header \<Rightarrow> RemoteInfo option" where
  "ParseConnectRemoteInfo urls req = (case parse_authority urls (target req) of
     None \<Rightarrow> None
   | Some a \<Rightarrow>
       if auth_host a = [] then None
       else if auth_port a = [] then None
       else Some \<lparr>ri_scheme = ''tunnel'', ri_host = auth_host a, ri_port = auth_port a,
              forward_target = []\<rparr>)"

definition ParseHttpRemoteInfo :: "url_api \<Rightarrow> request_header \<Rightarrow> RemoteInfo option" where
  "ParseHttpRemoteInfo urls req = (case parse_absolute_uri urls (target req) of
     Some u \<Rightarrow>
       if uri_scheme u \<noteq> ''http'' then None
       else if encoded_target u = [] then None
       else if uri_host u = [] then None
       else
         (let port = (if uri_port u = [] then ''80'' else uri_port u);
              path = (if encoded_path u = [] then ''/'' else encoded_path u);
              fwd = (if has_query u then path @ ''?'' @ encoded_query u else path) in
          Some \<lparr>ri_scheme = uri_scheme u, ri_host = uri_host u, ri_port = port,
            forward_target = fwd\<rparr>)
   | None \<Rightarrow>
       if parse_origin_form urls (target req) \<noteq> None then None
       else if parse_authority urls (target req) \<noteq> None then None
       else if target req = ''*'' then None
       else None)"

definition ParseRemoteInfo :: "url_api \<Rightarrow> request_header \<Rightarrow> RemoteInfo option" where
  "ParseRemoteInfo urls req =
     (if rq_method req = verb_connect then ParseConnectRemoteInfo urls req
      else ParseHttpRemoteInfo urls req)"

section \<open>The header for the remote\<close>

record message_api =
  fields_of :: fields_api
  method_throws :: "verb \<Rightarrow> bool"
  verb_to_string :: "verb \<Rightarrow> string"
  int_to_status :: "32 word \<Rightarrow> 32 word"

definition insert_fields :: "fields_api \<Rightarrow> fields \<Rightarrow> fields" where
  "insert_fields api fs = fold (\<lambda>f acc. fields_insert api (fst f) (snd f) acc) fs []"

definition fields_to_erase :: "string list" where
  "fields_to_erase = [''Proxy-Connection'', ''Proxy-Authorization'', ''Proxy-Authenticate'']"

text \<open>\<open>None\<close> is the exception of the method setter.\<close>

definition BuildRemoteRequestHeader ::
    "message_api \<Rightarrow> request_header \<Rightarrow> RemoteInfo \<Rightarrow> request_header option" where
  "BuildRemoteRequestHeader api req info =
     (if method_throws api (rq_method req) then None
      else Some \<lparr>rq_method = rq_method req, method_string = verb_to_string api (rq_method req),
        target = forward_target info, version = version req,
        rq_fields = fold (\<lambda>n fs. fst (fields_erase (fields_of api) n fs)) fields_to_erase
          (insert_fields (fields_of api) (rq_fields req))\<rparr>)"

section \<open>Connecting\<close>

definition ResolveRemote ::
    "asio \<Rightarrow> RemoteInfo \<Rightarrow> session \<Rightarrow> endpoint list option \<times> session" where
  "ResolveRemote env info s =
     (case async_resolve env (io_log s) (ri_host info) (ri_port info) of (ec, endpoints) \<Rightarrow>
        let s1 = record_event (EvResolve (ri_host info) (ri_port info) ec endpoints) s in
        if ec \<noteq> None then (None, s1)
        else if endpoints = [] then (None, s1)
        else (Some endpoints, s1))"

definition ConnectRemote :: "asio \<Rightarrow> endpoint list \<Rightarrow> session \<Rightarrow> bool \<times> session" where
  "ConnectRemote env endpoints s =
     (let ec = async_connect env (io_log s) endpoints;
          s1 = record_event (EvConnect endpoints ec) s in
      (ec = None, s1))"

definition EnsureRemoteConnected :: "asio \<Rightarrow> RemoteInfo \<Rightarrow> session \<Rightarrow> bool \<times> session" where
  "EnsureRemoteConnected env info s =
     (if connected (remote_state s) \<and> is_open env (io_log s) Remote
         \<and> rc_host (remote_state s) = ri_host info \<and> rc_port (remote_state s) = ri_port info
      then (True, s)
      else (let s0 = CloseRemote env s in
        case ResolveRemote env info s0 of
          (None, s1) \<Rightarrow> (False, s1)
        | (Some endpoints, s1) \<Rightarrow>
            (case ConnectRemote env endpoints s1 of
               (False, s2) \<Rightarrow> (False, s2)
             | (True, s2) \<Rightarrow>
                 (True, s2\<lparr>remote_state := (remote_state s2)\<lparr>rc_host := ri_host info,
                    rc_port := ri_port info, connected := True\<rparr>\<rparr>))))"

text \<open>The peer of a socket as the log lines show it, from the outcome of \<open>remote_endpoint\<close>.\<close>

definition GetRemoteEndpointStr :: "io_error + string \<times> 16 word \<Rightarrow> string" where
  "GetRemoteEndpointStr ep = (case ep of
     Inl ec \<Rightarrow> ''unknown''
   | Inr (addr, prt) \<Rightarrow> addr @ '':'' @ decimal (unat prt))"

text \<open>The messages the two writers fill from a header, field by field.\<close>

definition request_copy :: "message_api \<Rightarrow> request_header \<Rightarrow> request_header" where
  "request_copy api hdr = \<lparr>rq_method = rq_method hdr, method_string = verb_to_string api (rq_method hdr),
     target = target hdr, version = version hdr,
     rq_fields = insert_fields (fields_of api) (rq_fields hdr)\<rparr>"

definition response_copy :: "message_api \<Rightarrow> response_header \<Rightarrow> response_header" where
  "response_copy api hdr = \<lparr>result_int = int_to_status api (result_int hdr), reason = reason hdr,
     rs_version = rs_version hdr, rs_fields = insert_fields (fields_of api) (rs_fields hdr)\<rparr>"

definition WriteRemoteRequestHeader ::
    "asio \<Rightarrow> message_api \<Rightarrow> request_header \<Rightarrow> session \<Rightarrow> (bool \<times> session) option" where
  "WriteRemoteRequestHeader env api hdr s =
     (if method_throws api (rq_method hdr) then None
      else let request = request_copy api hdr;
          ec = async_write_request env (io_log s) request;
          s1 = record_event (EvWriteRequest request ec) s in
      Some (ec = None, s1))"

definition WriteRemoteResponseHeaderToClient ::
    "asio \<Rightarrow> message_api \<Rightarrow> response_header \<Rightarrow> session \<Rightarrow> bool \<times> session" where
  "WriteRemoteResponseHeaderToClient env api hdr s =
     (let response = response_copy api hdr;
          ec = async_write_response env (io_log s) response;
          s1 = record_event (EvWriteResponse response ec) s in
      (ec = None, s1))"

definition WriteConnectEstablishedResponseToClient ::
    "asio \<Rightarrow> message_api \<Rightarrow> session \<Rightarrow> bool \<times> session" where
  "WriteConnectEstablishedResponseToClient env api s =
     (let response = \<lparr>result_int = 200, reason = ''Connection Established'', rs_version = 11,
            rs_fields = fields_set (fields_of api) ''Proxy-Connection'' ''keep-alive'' []\<rparr>;
          ec = async_write_response env (io_log s) response;
          s1 = record_event (EvWriteResponse response ec) s in
      (ec = None, s1))"

definition ReadClientRequestHeader ::
    "asio \<Rightarrow> session \<Rightarrow> (request_parser \<times> request_header) option \<times> session" where
  "ReadClientRequestHeader env s =
     (case async_read_request_header env (io_log s) (buf Client s) of (ec, parser, rest) \<Rightarrow>
        let s1 = set_buf Client rest (record_event (EvReadRequest ec parser) s) in
        if ec \<noteq> None then (None, s1) else (Some (parser, rq_header parser), s1))"

definition ReadRemoteResponseHeader ::
    "asio \<Rightarrow> session \<Rightarrow> (response_parser \<times> response_header) option \<times> session" where
  "ReadRemoteResponseHeader env s =
     (case async_read_response_header env (io_log s) (buf Remote s) of (ec, parser, rest) \<Rightarrow>
        let s1 = set_buf Remote rest (record_event (EvReadResponse ec parser) s) in
        if ec \<noteq> None then (None, s1) else (Some (parser, rs_header parser), s1))"

definition ShouldKeepAlive :: "asio \<Rightarrow> request_parser \<Rightarrow> response_parser \<Rightarrow> session \<Rightarrow> bool" where
  "ShouldKeepAlive env p r s \<longleftrightarrow> rq_keep_alive p \<and> rs_keep_alive r \<and>
     is_open env (io_log s) Client \<and> is_open env (io_log s) Remote"

section \<open>The header built for the remote\<close>

definition is_erased :: "string \<Rightarrow> bool" where
  "is_erased k \<longleftrightarrow> (\<exists>n \<in> set fields_to_erase. iequals k n)"

lemma entries_Cons: "entries k (f # fs) = (if iequals (fst f) k then [f] else []) @ entries k fs"
  by (simp add: entries_def)

context beast_fields begin

lemma insert_entries_other:
  "entries k (fields_insert api n v fs) = (if iequals k n then entries k fs @ [(n, v)] else entries k fs)"
proof (cases "iequals k n")
  case True
  then show ?thesis using insert_entries [of n v fs] entries_cong [OF True] by simp
next
  case False
  with entries_eq_of_others [OF insert_others [of n v fs]] show ?thesis by simp
qed

lemma insert_fields_entries: "entries k (insert_fields api fs) = entries k fs"
proof -
  have "entries k (fold (\<lambda>f acc. fields_insert api (fst f) (snd f) acc) fs acc) = entries k acc @ entries k fs"
    for acc
  proof (induction fs arbitrary: acc)
    case (Cons f fs)
    then show ?case
      by (simp add: insert_entries_other entries_Cons iequals_sym [of k])
  qed (simp add: entries_def)
  from this [of "[]"] show ?thesis by (simp add: insert_fields_def entries_def)
qed

lemma erase_all_entries:
  "entries k (fold (\<lambda>n fs. fst (fields_erase api n fs)) ns fs) =
     (if \<exists>n \<in> set ns. iequals k n then [] else entries k fs)"
proof (induction ns arbitrary: fs)
  case (Cons n ns)
  have "entries k (others n fs) = (if iequals k n then [] else entries k fs)"
    using entries_others [of k n fs] entries_cong [of k n "others n fs"] by simp
  with Cons show ?case by (auto simp: erase_fields)
qed simp

end

lemma BuildRemoteRequestHeader_correct:
  assumes "beast_fields (fields_of api)" and "BuildRemoteRequestHeader api req info = Some hdr"
  shows "rq_method hdr = rq_method req" "target hdr = forward_target info" "version hdr = version req"
    "entries k (rq_fields hdr) = (if is_erased k then [] else entries k (rq_fields req))"
  using assms(2)
  by (auto simp: BuildRemoteRequestHeader_def is_erased_def beast_fields.erase_all_entries [OF assms(1)]
      beast_fields.insert_fields_entries [OF assms(1)] split: if_splits)

section \<open>Which host the socket is connected to\<close>

text \<open>The host and port last resolved, and those of the connection, if there is one.\<close>

type_synonym link_state = "(string \<times> string) option \<times> (string \<times> string) option"

fun link_step :: "io_event \<Rightarrow> link_state \<Rightarrow> link_state" where
  "link_step (EvResolve h p None eps) (resolved, cur) = (Some (h, p), cur)"
| "link_step (EvConnect eps None) (resolved, cur) = (resolved, resolved)"
| "link_step (EvConnect eps (Some e)) (resolved, cur) = (resolved, None)"
| "link_step (EvClose Remote ec) (resolved, cur) = (resolved, None)"
| "link_step e st = st"

definition link :: "io_log \<Rightarrow> (string \<times> string) option" where
  "link log = snd (fold link_step log (None, None))"

definition link_ok :: "session \<Rightarrow> bool" where
  "link_ok s \<longleftrightarrow> (connected (remote_state s) \<longrightarrow>
     link (io_log s) = Some (rc_host (remote_state s), rc_port (remote_state s)))"

text \<open>Events that leave the connection alone.\<close>

fun link_neutral :: "io_event \<Rightarrow> bool" where
  "link_neutral (EvResolve h p ec eps) = False"
| "link_neutral (EvConnect eps ec) = False"
| "link_neutral (EvClose p ec) = (p = Client)"
| "link_neutral e = True"

lemma link_step_neutral: "link_neutral e \<Longrightarrow> link_step e st = st"
  by (cases e; cases st) auto

lemma link_append: "\<forall>e \<in> set evs. link_neutral e \<Longrightarrow> link (log @ evs) = link log"
proof -
  have "\<forall>e \<in> set evs. link_neutral e \<Longrightarrow> fold link_step evs st = st" for st
    by (induction evs arbitrary: st) (auto simp: link_step_neutral)
  then show "\<forall>e \<in> set evs. link_neutral e \<Longrightarrow> link (log @ evs) = link log"
    by (simp add: link_def)
qed

lemma link_connect:
  "link (log @ [EvResolve h p None eps, EvConnect eps' None]) = Some (h, p)"
  by (cases "fold link_step log (None, None)") (simp add: link_def)

lemma CloseRemote_simps [simp]:
  "buf p (CloseRemote env s) = buf p s" "closed (CloseRemote env s) = closed s"
  "session_id (CloseRemote env s) = session_id s"
  "rule_http_config (CloseRemote env s) = rule_http_config s"
  "remote_state (CloseRemote env s) = \<lparr>rc_host = [], rc_port = [], connected = False\<rparr>"
  by (simp_all add: CloseRemote_def)

lemma remote_state_update_simps [simp]: "buf p (s\<lparr>remote_state := r\<rparr>) = buf p s"
  by (cases p) simp_all

lemma record_event_fields [simp]:
  "closed (record_event e s) = closed s" "remote_state (record_event e s) = remote_state s"
  "rule_http_config (record_event e s) = rule_http_config s" "session_id (record_event e s) = session_id s"
  by (simp_all add: record_event_def)

text \<open>The members \<open>EnsureRemoteConnected\<close> leaves alone, and the events it adds.\<close>

fun connect_event :: "io_event \<Rightarrow> bool" where
  "connect_event (EvShutdown p ec) = True"
| "connect_event (EvClose p ec) = True"
| "connect_event (EvResolve h p ec eps) = True"
| "connect_event (EvConnect eps ec) = True"
| "connect_event e = False"

lemma CloseRemote_log: "\<exists>evs. io_log (CloseRemote env s) = io_log s @ evs \<and> (\<forall>e \<in> set evs. connect_event e)"
  using CloseSocket_log [of env Remote s] by (fastforce simp: CloseRemote_def close_events_def)

lemma EnsureRemoteConnected_frame:
  assumes "EnsureRemoteConnected env info s = (ok, s')"
  shows "buf p s' = buf p s" "closed s' = closed s" "session_id s' = session_id s"
    "rule_http_config s' = rule_http_config s"
    "\<exists>evs. io_log s' = io_log s @ evs \<and> (\<forall>e \<in> set evs. connect_event e)"
proof -
  note defs = EnsureRemoteConnected_def ResolveRemote_def ConnectRemote_def Let_def
  show "buf p s' = buf p s" "closed s' = closed s" "session_id s' = session_id s"
    "rule_http_config s' = rule_http_config s"
    using assms by (auto simp: defs split: if_splits prod.splits bool.splits)
  obtain evs where "io_log (CloseRemote env s) = io_log s @ evs" "\<forall>e \<in> set evs. connect_event e"
    using CloseRemote_log by blast
  then show "\<exists>evs. io_log s' = io_log s @ evs \<and> (\<forall>e \<in> set evs. connect_event e)"
    using assms by (auto simp: defs split: if_splits prod.splits bool.splits)
qed

text \<open>A success: the socket is connected to the host and port asked for.\<close>

lemma EnsureRemoteConnected_True:
  assumes "EnsureRemoteConnected env info s = (True, s')" and "link_ok s"
  shows "link (io_log s') = Some (ri_host info, ri_port info)"
    "remote_state s' = \<lparr>rc_host = ri_host info, rc_port = ri_port info, connected = True\<rparr>"
proof -
  let ?s0 = "CloseRemote env s"
  consider "s' = s" "connected (remote_state s)" "rc_host (remote_state s) = ri_host info"
      "rc_port (remote_state s) = ri_port info"
    | eps where "io_log s' = io_log ?s0 @ [EvResolve (ri_host info) (ri_port info) None eps, EvConnect eps None]"
      "remote_state s' = \<lparr>rc_host = ri_host info, rc_port = ri_port info, connected = True\<rparr>"
    using assms(1) by (auto simp: EnsureRemoteConnected_def ResolveRemote_def ConnectRemote_def Let_def
        split: if_splits prod.splits bool.splits)
  then have "link (io_log s') = Some (ri_host info, ri_port info) \<and>
    remote_state s' = \<lparr>rc_host = ri_host info, rc_port = ri_port info, connected = True\<rparr>"
  proof cases
    case 1
    then show ?thesis using assms(2) by (simp add: link_ok_def)
  next
    case 2
    then show ?thesis by (simp only: link_connect)
  qed
  then show "link (io_log s') = Some (ri_host info, ri_port info)"
    "remote_state s' = \<lparr>rc_host = ri_host info, rc_port = ri_port info, connected = True\<rparr>" by simp_all
qed

lemma EnsureRemoteConnected_False:
  assumes "EnsureRemoteConnected env info s = (False, s')"
  shows "\<not> connected (remote_state s')"
  using assms by (auto simp: EnsureRemoteConnected_def ResolveRemote_def ConnectRemote_def Let_def
      split: if_splits prod.splits bool.splits)

lemma EnsureRemoteConnected_link_ok:
  assumes "EnsureRemoteConnected env info s = (ok, s')" and "link_ok s"
  shows "link_ok s'"
proof (cases ok)
  case True
  with EnsureRemoteConnected_True [of env info s s'] assms show ?thesis by (simp add: link_ok_def)
next
  case False
  with EnsureRemoteConnected_False [of env info s s'] assms(1) show ?thesis by (simp add: link_ok_def)
qed

text \<open>Events that leave the connection alone keep the invariant.\<close>

lemma link_ok_neutral:
  assumes "link_ok s" and "io_log s' = io_log s @ evs" and "\<forall>e \<in> set evs. link_neutral e"
    and "remote_state s' = remote_state s"
  shows "link_ok s'"
  using assms link_append [OF assms(3), of "io_log s"] by (simp add: link_ok_def)

end
