(* ===== verification/Http_Message_Utils.thy ===== *)
theory Http_Message_Utils
  imports Proxy_Prelude
begin

text \<open>
  The helpers of \<open>http_message_utils.cpp\<close>: searching a read buffer for CR LF, copying a
  prefix of it, and parsing the chunk-size line of a chunked body into a \<open>std::size_t\<close>.
  A \<open>beast::flat_buffer\<close> is its readable bytes.
\<close>

section \<open>Definitions\<close>

text \<open>\<open>std::search\<close> for the two bytes CR LF: the distance to the first occurrence.\<close>

fun FindCrlf :: "bytes \<Rightarrow> nat option" where
  "FindCrlf (a # b # bs) =
     (if a = CR \<and> b = LF then Some 0 else map_option Suc (FindCrlf (b # bs)))"
| "FindCrlf bs = None"

text \<open>
  The result string has \<open>length\<close> bytes; \<open>buffer_copy\<close> fills it from the buffer as far
  as the buffer reaches, the rest stays zero.
\<close>

definition BufferPrefixToString :: "bytes \<Rightarrow> nat \<Rightarrow> bytes" where
  "BufferPrefixToString buffer n =
     take n buffer @ replicate (n - length buffer) (CHR 0x00)"

text \<open>The loop removes the last character while it is a space or a tab.\<close>

function TrimTrailingOws :: "bytes \<Rightarrow> bytes" where
  "TrimTrailingOws cs =
     (if cs \<noteq> [] \<and> (last cs = CHR '' '' \<or> last cs = TAB)
      then TrimTrailingOws (butlast cs) else cs)"
  by pat_completeness auto
termination
  by (relation "measure length") auto

declare TrimTrailingOws.simps [simp del]

text \<open>The digit of one character of the size, \<open>None\<close> where the loop returns \<open>nullopt\<close>.\<close>

definition hex_digit :: "char \<Rightarrow> size_t option" where
  "hex_digit ch =
     (if of_char CHR ''0'' \<le> (of_char ch :: nat) \<and> (of_char ch :: nat) \<le> of_char CHR ''9''
      then Some (of_nat (of_char ch - of_char CHR ''0''))
      else if of_char CHR ''a'' \<le> (of_char ch :: nat) \<and> (of_char ch :: nat) \<le> of_char CHR ''f''
      then Some (of_nat (of_char ch - of_char CHR ''a'' + 10))
      else if of_char CHR ''A'' \<le> (of_char ch :: nat) \<and> (of_char ch :: nat) \<le> of_char CHR ''F''
      then Some (of_nat (of_char ch - of_char CHR ''A'' + 10))
      else None)"

fun parse_size :: "size_t \<Rightarrow> bytes \<Rightarrow> size_t option" where
  "parse_size sz [] = Some sz"
| "parse_size sz (ch # cs) = (case hex_digit ch of
     None \<Rightarrow> None
   | Some digit \<Rightarrow>
       if sz > (size_max - digit) div 16 then None
       else parse_size (sz * 16 + digit) cs)"

definition ParseChunkSizeLine :: "bytes \<Rightarrow> size_t option" where
  "ParseChunkSizeLine line =
     (if CR \<in> set line \<or> LF \<in> set line then None
      else let size_text = takeWhile (\<lambda>c. c \<noteq> CHR '';'') line in
        if size_text = [] then None
        else parse_size 0 (TrimTrailingOws size_text))"

definition StartsWithCrlf :: "bytes \<Rightarrow> bool" where
  "StartsWithCrlf buffer =
     (if length buffer < 2 then False else buffer ! 0 = CR \<and> buffer ! 1 = LF)"

section \<open>FindCrlf\<close>

lemma FindCrlf_Some_iff:
  "FindCrlf bs = Some i \<longleftrightarrow>
     i + 1 < length bs \<and> bs ! i = CR \<and> bs ! (i + 1) = LF \<and>
     (\<forall>j < i. \<not> (bs ! j = CR \<and> bs ! (j + 1) = LF))"
proof (induction bs arbitrary: i rule: FindCrlf.induct)
  case (1 a b bs)
  show ?case
  proof (cases i)
    case 0
    then show ?thesis by simp
  next
    case (Suc k)
    have "(\<forall>j < Suc k. \<not> ((a # b # bs) ! j = CR \<and> (a # b # bs) ! (j + 1) = LF)) \<longleftrightarrow>
        \<not> (a = CR \<and> b = LF) \<and> (\<forall>j < k. \<not> ((b # bs) ! j = CR \<and> (b # bs) ! (j + 1) = LF))"
      by (auto simp: All_less_Suc2)
    with "1.IH" [of k] Suc show ?thesis by auto
  qed
qed auto

lemma FindCrlf_length: "FindCrlf bs = Some i \<Longrightarrow> i + 2 \<le> length bs"
  by (simp add: FindCrlf_Some_iff)

lemma FindCrlf_split:
  assumes "FindCrlf bs = Some i"
  shows "take (i + 2) bs = take i bs @ [CR, LF]"
proof -
  from assms have "i + 1 < length bs" "bs ! i = CR" "bs ! (i + 1) = LF"
    by (simp_all add: FindCrlf_Some_iff)
  then show ?thesis
    by (simp add: take_Suc_conv_app_nth numeral_2_eq_2)
qed

lemma FindCrlf_None_iff:
  "FindCrlf bs = None \<longleftrightarrow> \<not> (\<exists>xs ys. bs = xs @ CR # LF # ys)"
proof (induction bs rule: FindCrlf.induct)
  case (1 a b bs)
  have "(\<exists>xs ys. a # b # bs = xs @ CR # LF # ys) \<longleftrightarrow>
      (a = CR \<and> b = LF) \<or> (\<exists>xs ys. b # bs = xs @ CR # LF # ys)"
    by (auto simp: Cons_eq_append_conv)
  with "1.IH" show ?case by auto
qed (auto simp: Cons_eq_append_conv)

text \<open>A first line with no CR in it, followed by CR LF, ends where its CR LF begins.\<close>

lemma FindCrlf_line: "CR \<notin> set line \<Longrightarrow> FindCrlf (line @ CR # LF # rest) = Some (length line)"
proof (induction line)
  case (Cons a line)
  then show ?case by (cases line) auto
qed simp

text \<open>Bytes that arrive later do not move the first CR LF of a buffer.\<close>

lemma FindCrlf_append: "FindCrlf bs = Some i \<Longrightarrow> FindCrlf (bs @ more) = Some i"
proof (induction bs arbitrary: i rule: FindCrlf.induct)
  case (1 a b bs)
  then show ?case by (auto split: if_splits)
qed auto

lemma BufferPrefixToString_take: "n \<le> length buffer \<Longrightarrow> BufferPrefixToString buffer n = take n buffer"
  by (simp add: BufferPrefixToString_def)

lemma length_BufferPrefixToString [simp]: "length (BufferPrefixToString buffer n) = n"
  by (simp add: BufferPrefixToString_def)

lemma StartsWithCrlf_iff: "StartsWithCrlf bs \<longleftrightarrow> FindCrlf bs = Some 0"
  by (cases bs rule: FindCrlf.cases) (auto simp: StartsWithCrlf_def)

section \<open>ParseChunkSizeLine\<close>

text \<open>Reference definitions: optional white space, the value of a hexadecimal numeral.\<close>

definition is_ows :: "char \<Rightarrow> bool" where
  "is_ows c \<longleftrightarrow> c = CHR '' '' \<or> c = TAB"

definition rtrim :: "bytes \<Rightarrow> bytes" where
  "rtrim cs = rev (dropWhile is_ows (rev cs))"

definition is_hex :: "char \<Rightarrow> bool" where
  "is_hex c \<longleftrightarrow> c \<in> set ''0123456789abcdefABCDEF''"

definition hex_val :: "char \<Rightarrow> nat" where
  "hex_val c = (if c \<in> set ''0123456789'' then of_char c - 48
     else if c \<in> set ''abcdef'' then of_char c - 87 else of_char c - 55)"

definition hex_value_from :: "nat \<Rightarrow> bytes \<Rightarrow> nat" where
  "hex_value_from n cs = foldl (\<lambda>v c. v * 16 + hex_val c) n cs"

abbreviation hex_value :: "bytes \<Rightarrow> nat" where
  "hex_value \<equiv> hex_value_from 0"

lemma hex_value_from_simps [simp]:
  "hex_value_from n [] = n"
  "hex_value_from n (c # cs) = hex_value_from (n * 16 + hex_val c) cs"
  "hex_value_from n (cs @ ds) = hex_value_from (hex_value_from n cs) ds"
  by (simp_all add: hex_value_from_def)

lemma hex_value_from_ge: "n \<le> hex_value_from n cs"
proof (induction cs arbitrary: n)
  case (Cons c cs)
  have "n \<le> n * 16 + hex_val c" by simp
  also have "\<dots> \<le> hex_value_from (n * 16 + hex_val c) cs" by (rule Cons.IH)
  finally show ?case by simp
qed simp

lemma TrimTrailingOws_rtrim: "TrimTrailingOws cs = rtrim cs"
proof (induction cs rule: TrimTrailingOws.induct)
  case (1 cs)
  show ?case
  proof (cases cs rule: rev_cases)
    case Nil
    then show ?thesis by (simp add: TrimTrailingOws.simps [of "[]"] rtrim_def)
  next
    case (snoc ys y)
    with 1 show ?thesis
      by (auto simp: TrimTrailingOws.simps [of "ys @ [y]"] rtrim_def is_ows_def)
  qed
qed

lemma in_char_range:
  "m \<le> (of_char c :: nat) \<and> (of_char c :: nat) \<le> n \<longleftrightarrow> (of_char c :: nat) \<in> set [m..<Suc n]"
  by auto

lemma of_char_mem:
  "(of_char c :: nat) \<in> of_char ` set cs \<longleftrightarrow> c \<in> set cs"
  by auto

lemma hex_digit_eq:
  "hex_digit c = (if is_hex c then Some (of_nat (hex_val c)) else None)"
proof -
  have d: "48 \<le> (of_char c :: nat) \<and> (of_char c :: nat) \<le> 57 \<longleftrightarrow> c \<in> set ''0123456789''"
    unfolding in_char_range of_char_mem [symmetric] by (simp add: upt_rec)
  have l: "97 \<le> (of_char c :: nat) \<and> (of_char c :: nat) \<le> 102 \<longleftrightarrow> c \<in> set ''abcdef''"
    unfolding in_char_range of_char_mem [symmetric] by (simp add: upt_rec)
  have u: "65 \<le> (of_char c :: nat) \<and> (of_char c :: nat) \<le> 70 \<longleftrightarrow> c \<in> set ''ABCDEF''"
    unfolding in_char_range of_char_mem [symmetric] by (simp add: upt_rec)
  have "is_hex c \<longleftrightarrow> c \<in> set ''0123456789'' \<or> c \<in> set ''abcdef'' \<or> c \<in> set ''ABCDEF''"
    by (simp add: is_hex_def)
  with d l u show ?thesis
    by (simp add: hex_digit_def hex_val_def del: of_nat_add)
qed

lemma hex_val_less: "is_hex c \<Longrightarrow> hex_val c < 16"
proof -
  have "list_all (\<lambda>c. hex_val c < 16) ''0123456789abcdefABCDEF''"
    by code_simp
  then show "is_hex c \<Longrightarrow> hex_val c < 16"
    unfolding is_hex_def list_all_iff by blast
qed

text \<open>The overflow test is exact: it fails just when \<open>size * 16 + digit\<close> would not fit.\<close>

lemma overflow_test:
  fixes sz :: size_t
  assumes "d < 16"
  shows "sz > (size_max - of_nat d) div 16 \<longleftrightarrow> 2 ^ 64 \<le> unat sz * 16 + d"
proof -
  have "unat (size_max - of_nat d) = 2 ^ 64 - 1 - d"
    using assms by (subst unat_sub_of_nat) (simp_all add: unat_size_max)
  then have "unat ((size_max - of_nat d) div 16) = (2 ^ 64 - 1 - d) div 16"
    by (simp add: unat_div)
  then have "sz > (size_max - of_nat d) div 16 \<longleftrightarrow> (2 ^ 64 - 1 - d) div 16 < unat sz"
    by (simp add: word_less_nat_alt)
  also have "\<dots> \<longleftrightarrow> 2 ^ 64 \<le> unat sz * 16 + d"
    using assms by (simp add: div_less_iff_less_mult) arith
  finally show ?thesis .
qed

lemma unat_shift_digit:
  fixes sz :: size_t
  assumes "unat sz * 16 + d < 2 ^ 64"
  shows "unat (sz * 16 + of_nat d) = unat sz * 16 + d"
proof -
  have "sz * 16 + of_nat d = of_nat (unat sz * 16 + d)"
    by simp
  then show ?thesis
    using unat_of_nat_small [OF assms] by presburger
qed

lemma parse_size_iff:
  "parse_size sz cs = Some w \<longleftrightarrow>
     list_all is_hex cs \<and> hex_value_from (unat sz) cs < 2 ^ 64 \<and>
     unat w = hex_value_from (unat sz) cs"
proof (induction cs arbitrary: sz)
  case Nil
  have "unat sz < 2 ^ 64" by (rule unat_less_size)
  then show ?case by (auto simp: word_unat_eq_iff)
next
  case (Cons c cs)
  show ?case
  proof (cases "is_hex c")
    case hex: True
    let ?d = "hex_val c"
    have d: "?d < 16" using hex by (rule hex_val_less)
    show ?thesis
    proof (cases "2 ^ 64 \<le> unat sz * 16 + ?d")
      case True
      moreover have "unat sz * 16 + ?d \<le> hex_value_from (unat sz * 16 + ?d) cs"
        by (rule hex_value_from_ge)
      ultimately show ?thesis
        using hex overflow_test [OF d, of sz] by (auto simp: hex_digit_eq)
    next
      case False
      then have "unat (sz * 16 + of_nat ?d) = unat sz * 16 + ?d"
        by (simp add: unat_shift_digit)
      with False show ?thesis
        using hex overflow_test [OF d, of sz] Cons.IH [of "sz * 16 + of_nat ?d"]
        by (simp add: hex_digit_eq)
    qed
  qed (simp add: hex_digit_eq)
qed

text \<open>The hexadecimal numeral of a number, most significant digit first.\<close>

fun to_hex :: "nat \<Rightarrow> bytes" where
  "to_hex n = (if n < 16 then [''0123456789abcdef'' ! n]
     else to_hex (n div 16) @ [''0123456789abcdef'' ! (n mod 16)])"

declare to_hex.simps [simp del]

lemma hex_nth: "d < 16 \<Longrightarrow> is_hex (''0123456789abcdef'' ! d) \<and> hex_val (''0123456789abcdef'' ! d) = d"
proof -
  have "list_all (\<lambda>d. is_hex (''0123456789abcdef'' ! d) \<and> hex_val (''0123456789abcdef'' ! d) = d) [0..<16]"
    by code_simp
  then show "d < 16 \<Longrightarrow> ?thesis" by (simp add: list_all_iff)
qed

lemma to_hex_value: "list_all is_hex (to_hex n) \<and> hex_value (to_hex n) = n \<and> to_hex n \<noteq> []"
proof (induction n rule: to_hex.induct)
  case (1 n)
  show ?case
  proof (cases "n < 16")
    case True
    then show ?thesis using hex_nth [of n] by (simp add: to_hex.simps [of n])
  next
    case False
    then show ?thesis using 1 hex_nth [of "n mod 16"] by (simp add: to_hex.simps [of n])
  qed
qed

lemma hex_not_special:
  assumes "is_hex c"
  shows "c \<noteq> CR" "c \<noteq> LF" "c \<noteq> CHR '';''" "\<not> is_ows c"
  using assms by (auto simp: is_hex_def is_ows_def)

lemma rtrim_hex_ows:
  assumes "list_all is_hex ds" and "list_all is_ows ws"
  shows "rtrim (ds @ ws) = ds"
proof -
  have "dropWhile is_ows (rev ws @ rev ds) = dropWhile is_ows (rev ds)"
    using assms(2) dropWhile_append2 [of "rev ws" is_ows "rev ds"] by (simp add: list_all_iff)
  also have "\<dots> = rev ds"
  proof (cases ds rule: rev_cases)
    case (snoc ys y)
    with assms(1) have "\<not> is_ows y" using hex_not_special(4) by simp
    with snoc show ?thesis by simp
  qed simp
  finally show ?thesis by (simp add: rtrim_def)
qed

lemma ows_not_special: "is_ows c \<Longrightarrow> c \<noteq> CR \<and> c \<noteq> LF \<and> c \<noteq> CHR '';''"
  by (auto simp: is_ows_def)

section \<open>Properties\<close>

text \<open>
  \<open>FindCrlf\<close> finds the first CR LF of the buffer: a returned position is inside the
  buffer with both bytes there and no earlier occurrence, and \<open>nullopt\<close> is returned
  exactly when the buffer holds no CR LF at all. \<open>StartsWithCrlf\<close> agrees with it.
\<close>

theorem FindCrlf_correct:
  "(FindCrlf bs = Some i) = (i + 1 < length bs \<and> bs ! i = CR \<and> bs ! (i + 1) = LF \<and>
      \<not> (\<exists>j < i. bs ! j = CR \<and> bs ! (j + 1) = LF)) \<and>
   (FindCrlf bs = None) = (\<nexists>xs ys. bs = xs @ CR # LF # ys) \<and>
   StartsWithCrlf bs = (FindCrlf bs = Some 0)"
  by (auto simp: FindCrlf_Some_iff FindCrlf_None_iff StartsWithCrlf_iff)


text \<open>
  Round trip of chunk sizes: the hexadecimal numeral of any 64-bit size, followed by
  optional blanks and an optional chunk extension, is read back as that size.
\<close>

theorem ParseChunkSizeLine_roundtrip:
  assumes "list_all is_ows ws" and "ext = [] \<or> hd ext = CHR '';''"
    and "CR \<notin> set ext" and "LF \<notin> set ext"
  shows "ParseChunkSizeLine (to_hex (unat w) @ ws @ ext) = Some w"
proof -
  let ?ds = "to_hex (unat w)"
  have ds: "list_all is_hex ?ds" "hex_value ?ds = unat w" "?ds \<noteq> []"
    using to_hex_value [of "unat w"] by auto
  have plain: "c \<noteq> CR \<and> c \<noteq> LF \<and> c \<noteq> CHR '';''" if "c \<in> set (?ds @ ws)" for c
    using that ds(1) assms(1) hex_not_special ows_not_special
    unfolding list_all_iff by (metis Un_iff set_append)
  have "takeWhile (\<lambda>c. c \<noteq> CHR '';'') ext = []"
    using assms(2) by (cases ext) auto
  then have tw: "takeWhile (\<lambda>c. c \<noteq> CHR '';'') (?ds @ ws @ ext) = ?ds @ ws"
    using plain takeWhile_append2 [of "?ds @ ws" "\<lambda>c. c \<noteq> CHR '';''" ext] by simp
  have "CR \<notin> set (?ds @ ws @ ext)" "LF \<notin> set (?ds @ ws @ ext)"
    using plain [of CR] plain [of LF] assms(3,4) by auto
  with tw ds show ?thesis
    by (simp add: ParseChunkSizeLine_def Let_def parse_size_iff TrimTrailingOws_rtrim
        rtrim_hex_ows [OF ds(1) assms(1)] unat_less_size [simplified])
qed

theorem ParseChunkSizeLine_roundtrip_witness:
  "ParseChunkSizeLine (to_hex (unat (26 :: size_t)) @ '' '' @ '';foo=bar'') = Some 26"
  by (rule ParseChunkSizeLine_roundtrip) (simp_all add: is_ows_def)

text \<open>
  A line whose size field holds only blanks is accepted as the size zero: the emptiness
  test comes before the blanks are trimmed, so \<open>1*HEXDIG\<close> of the grammar quoted in the
  source is not enforced and such a line ends the body like a last chunk.
\<close>

theorem ParseChunkSizeLine_blank:
  assumes "ws \<noteq> []" and "list_all is_ows ws"
  shows "ParseChunkSizeLine ws = Some 0"
proof -
  have "\<forall>c \<in> set ws. c \<noteq> CR \<and> c \<noteq> LF \<and> c \<noteq> CHR '';''"
    using assms(2) ows_not_special by (simp add: list_all_iff)
  then have "\<And>c. c \<in> set ws \<Longrightarrow> c \<noteq> CHR '';''" "CR \<notin> set ws" "LF \<notin> set ws"
    by auto
  moreover have "rtrim ws = []"
    using rtrim_hex_ows [of "[]" ws] assms(2) by simp
  ultimately show ?thesis
    using assms(1) by (simp add: ParseChunkSizeLine_def Let_def takeWhile_all TrimTrailingOws_rtrim)
qed

theorem ParseChunkSizeLine_blank_witness: "ParseChunkSizeLine [CHR '' '', TAB] = Some 0"
  by (rule ParseChunkSizeLine_blank) (simp_all add: is_ows_def)

end
