(* ===== verification/Session_Chunked.thy ===== *)
theory Session_Chunked
  imports Session_IO Http_Message_Utils
begin

text \<open>
  \<open>HttpProxySession::ForwardChunked\<close>: the state machine that relays a chunked body. One
  iteration of its loop is \<open>ForwardChunked_body\<close>, with one branch per \<open>ChunkedState\<close>.

  \<open>chunked_message\<close> is the specification: the byte sequences the machine takes for a complete
  chunked body. The theorems say that whatever the machine forwards with success is exactly
  one such message, unchanged (for every network), and that every such message is forwarded
  with success (on a network that delivers).
\<close>

section \<open>Definitions\<close>

datatype ChunkedState = St_ReadChunkSizeLine | St_ParseChunkSizeLine | St_ForwardChunkSizeLine
  | St_ForwardChunkDataWithCrlf | St_ForwardTrailers | St_Completed

record chunked =
  state :: ChunkedState
  chunk_size_line_length :: nat
  chunk_size :: size_t
  chunk_bytes_remaining :: size_t
  sess :: session

definition ForwardChunked_body ::
    "asio \<Rightarrow> peer \<Rightarrow> peer \<Rightarrow> chunked \<Rightarrow> chunked + (bool \<times> session)" where
  "ForwardChunked_body env from dest c =
     (let s = sess c in
      case state c of
        St_ReadChunkSizeLine \<Rightarrow>
          (case FindCrlf (buf from s) of
             Some crlf_pos \<Rightarrow>
               Inl (c\<lparr>chunk_size_line_length := crlf_pos, state := St_ParseChunkSizeLine\<rparr>)
           | None \<Rightarrow>
               (case ReadSomeFromPeer env from s of
                  (None, s1) \<Rightarrow> Inr (False, s1)
                | (Some r, s1) \<Rightarrow>
                    if bytes_read r = 0 then Inr (False, s1) else Inl (c\<lparr>sess := s1\<rparr>)))
      | St_ParseChunkSizeLine \<Rightarrow>
          (let line = BufferPrefixToString (buf from s) (chunk_size_line_length c) in
           case ParseChunkSizeLine line of
             Some n \<Rightarrow> Inl (c\<lparr>chunk_size := n, state := St_ForwardChunkSizeLine\<rparr>)
           | None \<Rightarrow> Inr (False, s))
      | St_ForwardChunkSizeLine \<Rightarrow>
          (case WriteToPeer env from dest (chunk_size_line_length c + 2) s of
             (None, s1) \<Rightarrow> Inr (False, s1)
           | (Some _, s1) \<Rightarrow>
               if chunk_size c = 0 then Inl (c\<lparr>state := St_ForwardTrailers, sess := s1\<rparr>)
               else if chunk_size c > size_max - 2 then Inr (False, s1)
               else Inl (c\<lparr>chunk_bytes_remaining := chunk_size c + 2,
                          state := St_ForwardChunkDataWithCrlf, sess := s1\<rparr>))
      | St_ForwardChunkDataWithCrlf \<Rightarrow>
          if length (buf from s) = 0 then
            (case ReadSomeFromPeer env from s of
               (None, s1) \<Rightarrow> Inr (False, s1)
             | (Some _, s1) \<Rightarrow> Inl (c\<lparr>sess := s1\<rparr>))
          else
            (let bytes_to_forward = min (unat (chunk_bytes_remaining c)) (length (buf from s)) in
             case WriteToPeer env from dest bytes_to_forward s of
               (None, s1) \<Rightarrow> Inr (False, s1)
             | (Some n, s1) \<Rightarrow>
                 let remaining = chunk_bytes_remaining c - of_nat n in
                 Inl (c\<lparr>chunk_bytes_remaining := remaining,
                        state := (if remaining = 0 then St_ReadChunkSizeLine else state c),
                        sess := s1\<rparr>))
      | St_ForwardTrailers \<Rightarrow>
          (case FindCrlf (buf from s) of
             None \<Rightarrow>
               (case ReadSomeFromPeer env from s of
                  (None, s1) \<Rightarrow> Inr (False, s1)
                | (Some _, s1) \<Rightarrow> Inl (c\<lparr>sess := s1\<rparr>))
           | Some trailer_line_length \<Rightarrow>
               (case WriteToPeer env from dest (trailer_line_length + 2) s of
                  (None, s1) \<Rightarrow> Inr (False, s1)
                | (Some _, s1) \<Rightarrow>
                    Inl (c\<lparr>state := (if trailer_line_length = 0 then St_Completed else state c),
                           sess := s1\<rparr>)))
      | St_Completed \<Rightarrow> Inr (True, s))"

definition chunked_init :: "session \<Rightarrow> chunked" where
  "chunked_init s = \<lparr>state = St_ReadChunkSizeLine, chunk_size_line_length = 0, chunk_size = 0,
     chunk_bytes_remaining = 0, sess = s\<rparr>"

definition ForwardChunked :: "asio \<Rightarrow> peer \<Rightarrow> peer \<Rightarrow> session \<Rightarrow> (bool \<times> session) option" where
  "ForwardChunked env from dest s = loop (ForwardChunked_body env from dest) (chunked_init s)"

section \<open>Chunked messages\<close>

text \<open>A line ends at its first CR LF.\<close>

definition is_line :: "bytes \<Rightarrow> bool" where
  "is_line line \<longleftrightarrow> FindCrlf (line @ [CR, LF]) = Some (length line)"

inductive trailer_part :: "bytes \<Rightarrow> bool" where
  trailer_end: "trailer_part [CR, LF]"
| trailer_line: "is_line line \<Longrightarrow> line \<noteq> [] \<Longrightarrow> trailer_part rest \<Longrightarrow>
    trailer_part (line @ [CR, LF] @ rest)"

inductive chunked_message :: "bytes \<Rightarrow> bool" where
  last_chunk: "is_line line \<Longrightarrow> ParseChunkSizeLine line = Some 0 \<Longrightarrow> trailer_part rest \<Longrightarrow>
    chunked_message (line @ [CR, LF] @ rest)"
| chunk: "is_line line \<Longrightarrow> ParseChunkSizeLine line = Some n \<Longrightarrow> n \<noteq> 0 \<Longrightarrow> unat n + 2 < 2 ^ 64 \<Longrightarrow>
    length dat = unat n + 2 \<Longrightarrow> chunked_message rest \<Longrightarrow>
    chunked_message (line @ [CR, LF] @ dat @ rest)"

text \<open>
  What the machine still has to see, by state: \<open>owes c rest\<close> holds when \<open>rest\<close>, counted
  from the front of the buffer, completes the message.
\<close>

definition owes :: "chunked \<Rightarrow> bytes \<Rightarrow> bool" where
  "owes c rest = (case state c of
     St_ForwardChunkDataWithCrlf \<Rightarrow> (\<exists>dat more. rest = dat @ more \<and>
       length dat = unat (chunk_bytes_remaining c) \<and> chunked_message more)
   | St_ForwardTrailers \<Rightarrow> trailer_part rest
   | St_Completed \<Rightarrow> rest = []
   | _ \<Rightarrow> chunked_message rest)"

text \<open>What holds between the machine's variables and the buffer.\<close>

definition chunked_wf :: "peer \<Rightarrow> chunked \<Rightarrow> bool" where
  "chunked_wf f c = (case state c of
     St_ParseChunkSizeLine \<Rightarrow> FindCrlf (buf f (sess c)) = Some (chunk_size_line_length c)
   | St_ForwardChunkSizeLine \<Rightarrow> FindCrlf (buf f (sess c)) = Some (chunk_size_line_length c) \<and>
       ParseChunkSizeLine (take (chunk_size_line_length c) (buf f (sess c))) = Some (chunk_size c)
   | St_ForwardChunkDataWithCrlf \<Rightarrow> chunk_bytes_remaining c \<noteq> 0
   | _ \<Rightarrow> True)"

section \<open>Every success is one message\<close>

lemma FindCrlf_is_line:
  assumes "FindCrlf bs = Some i"
  shows "is_line (take i bs)"
proof -
  have "FindCrlf (take (i + 2) bs) = Some i"
    using assms by (simp add: FindCrlf_Some_iff)
  moreover have "length (take i bs) = i"
    using FindCrlf_length [OF assms] by simp
  ultimately show ?thesis
    using FindCrlf_split [OF assms] by (simp add: is_line_def)
qed

lemma size_guard:
  fixes n :: size_t
  assumes "\<not> n > size_max - 2"
  shows "unat n + 2 < 2 ^ 64" "unat (n + 2) = unat n + 2" "n + 2 \<noteq> 0"
proof -
  have "unat (size_max - 2) = 2 ^ 64 - 3"
    using unat_sub_of_nat [of 2 size_max] by (simp add: unat_size_max)
  then show l: "unat n + 2 < 2 ^ 64"
    using assms by (simp add: word_less_nat_alt)
  then show u: "unat (n + 2) = unat n + 2"
    using unat_add_small [of n 2] by simp
  show "n + 2 \<noteq> 0"
    using u by (metis add_is_0 unat_0 zero_neq_numeral)
qed

text \<open>One iteration: the invariant is kept, and what it forwards is what it owed less.\<close>

definition sound_step :: "peer \<Rightarrow> peer \<Rightarrow> chunked \<Rightarrow> chunked \<Rightarrow> bool" where
  "sound_step f t c c' \<longleftrightarrow> chunked_wf f c' \<and>
     (\<exists>out. transfer f t (sess c) out (sess c') \<and> (\<forall>rest. owes c' rest \<longrightarrow> owes c (out @ rest)))"

lemma sound_stepI:
  "chunked_wf f c' \<Longrightarrow> transfer f t (sess c) out (sess c') \<Longrightarrow>
   (\<And>rest. owes c' rest \<Longrightarrow> owes c (out @ rest)) \<Longrightarrow> sound_step f t c c'"
  by (auto simp: sound_step_def)

lemma sound_read:
  assumes "ReadSomeFromPeer env f (sess c) = (r, s1)"
    and "state c \<in> {St_ReadChunkSizeLine, St_ForwardTrailers, St_ForwardChunkDataWithCrlf}"
    and "chunked_wf f c"
  shows "sound_step f t c (c\<lparr>sess := s1\<rparr>)"
  by (rule sound_stepI [where out = "[]"])
     (use assms transfer_read in \<open>auto simp: chunked_wf_def owes_def\<close>)

lemma sound_size_line:
  assumes "state c = St_ForwardChunkSizeLine" and "chunked_wf f c"
    and "ForwardChunked_body env f t c = Inl c'"
  shows "sound_step f t c c'"
proof -
  let ?L = "chunk_size_line_length c"
  let ?line = "take ?L (buf f (sess c))"
  have wf: "FindCrlf (buf f (sess c)) = Some ?L" "ParseChunkSizeLine ?line = Some (chunk_size c)"
    using assms(1,2) by (simp_all add: chunked_wf_def)
  obtain w s1 where w: "WriteToPeer env f t (?L + 2) (sess c) = (Some w, s1)"
    and c': "c' = (if chunk_size c = 0 then c\<lparr>state := St_ForwardTrailers, sess := s1\<rparr>
        else c\<lparr>chunk_bytes_remaining := chunk_size c + 2, state := St_ForwardChunkDataWithCrlf, sess := s1\<rparr>)"
    and g: "chunk_size c = 0 \<or> \<not> chunk_size c > size_max - 2"
    using assms(1,3) by (auto simp: ForwardChunked_body_def split: prod.splits option.splits if_splits)
  have out: "transfer f t (sess c) (?line @ [CR, LF]) s1"
    using WriteToPeer_SomeD(2) [OF w] FindCrlf_split [OF wf(1)] by simp
  show ?thesis
  proof (cases "chunk_size c = 0")
    case True
    have "owes c ((?line @ [CR, LF]) @ rest)" if "trailer_part rest" for rest
      using last_chunk [OF FindCrlf_is_line [OF wf(1)] _ that] wf(2) True assms(1) by (simp add: owes_def)
    with True out c' show ?thesis
      by (intro sound_stepI [where out = "?line @ [CR, LF]"]) (auto simp: chunked_wf_def owes_def)
  next
    case False
    with g have sz: "unat (chunk_size c) + 2 < 2 ^ 64"
        "unat (chunk_size c + 2) = unat (chunk_size c) + 2" "chunk_size c + 2 \<noteq> 0"
      using size_guard [of "chunk_size c"] by auto
    have "owes c ((?line @ [CR, LF]) @ dat @ more)"
      if "length dat = unat (chunk_size c) + 2" "chunked_message more" for dat more
      using chunk [OF FindCrlf_is_line [OF wf(1)] wf(2) False sz(1) that] assms(1) by (simp add: owes_def)
    with False out c' sz show ?thesis
      by (intro sound_stepI [where out = "?line @ [CR, LF]"]) (auto simp: chunked_wf_def owes_def)
  qed
qed

text \<open>Forwarding \<open>out\<close> of the chunk data leaves that much less to see.\<close>

lemma owes_data:
  assumes "state c = St_ForwardChunkDataWithCrlf" and "length out \<le> unat (chunk_bytes_remaining c)"
    and "rem = chunk_bytes_remaining c - of_nat (length out)"
    and "owes (c\<lparr>chunk_bytes_remaining := rem,
           state := (if rem = 0 then St_ReadChunkSizeLine else state c), sess := s1\<rparr>) rest"
  shows "owes c (out @ rest)"
proof -
  have rem: "unat rem = unat (chunk_bytes_remaining c) - length out"
    unfolding assms(3) by (rule unat_sub_of_nat) (rule assms(2))
  obtain dat more where "rest = dat @ more" "length dat = unat rem" "chunked_message more"
    using assms(1,4) by (cases "rem = 0") (auto simp: owes_def)
  then have "out @ rest = (out @ dat) @ more \<and>
      length (out @ dat) = unat (chunk_bytes_remaining c) \<and> chunked_message more"
    using rem assms(2) by simp
  then show ?thesis
    unfolding owes_def assms(1) ChunkedState.case by blast
qed

lemma sound_data:
  assumes "state c = St_ForwardChunkDataWithCrlf" and "chunked_wf f c"
    and "ForwardChunked_body env f t c = Inl c'"
  shows "sound_step f t c c'"
proof (cases "buf f (sess c) = []")
  case True
  with assms obtain r s1 where "ReadSomeFromPeer env f (sess c) = (r, s1)" "c' = c\<lparr>sess := s1\<rparr>"
    by (auto simp: ForwardChunked_body_def split: prod.splits option.splits)
  with assms(1,2) show ?thesis by (simp add: sound_read)
next
  case False
  let ?m = "min (unat (chunk_bytes_remaining c)) (length (buf f (sess c)))"
  let ?out = "take ?m (buf f (sess c))"
  let ?rem = "chunk_bytes_remaining c - of_nat (length ?out)"
  from False assms(1,3) obtain w s1 where w: "WriteToPeer env f t ?m (sess c) = (Some w, s1)"
    and c'': "c' = c\<lparr>chunk_bytes_remaining := chunk_bytes_remaining c - of_nat w,
        state := (if chunk_bytes_remaining c - of_nat w = 0 then St_ReadChunkSizeLine else state c),
        sess := s1\<rparr>"
    by (auto simp: ForwardChunked_body_def Let_def split: prod.splits option.splits)
  have c': "c' = c\<lparr>chunk_bytes_remaining := ?rem,
        state := (if ?rem = 0 then St_ReadChunkSizeLine else state c), sess := s1\<rparr>"
    using c'' WriteToPeer_SomeD(1) [OF w] by simp
  show ?thesis
  proof (rule sound_stepI [where out = ?out])
    show "transfer f t (sess c) ?out (sess c')"
      using c' WriteToPeer_SomeD(2) [OF w] by simp
    show "chunked_wf f c'"
      using assms(1) by (simp add: c' chunked_wf_def)
    show "owes c (?out @ rest)" if "owes c' rest" for rest
      by (rule owes_data [OF assms(1) _ refl that [unfolded c']]) simp
  qed
qed

lemma sound_trailers:
  assumes "state c = St_ForwardTrailers" and "chunked_wf f c"
    and "ForwardChunked_body env f t c = Inl c'"
  shows "sound_step f t c c'"
proof (cases "FindCrlf (buf f (sess c))")
  case None
  with assms obtain r s1 where "ReadSomeFromPeer env f (sess c) = (r, s1)" "c' = c\<lparr>sess := s1\<rparr>"
    by (auto simp: ForwardChunked_body_def split: prod.splits option.splits)
  with assms(1,2) show ?thesis by (simp add: sound_read)
next
  case (Some L)
  let ?line = "take L (buf f (sess c))"
  from Some assms obtain w s1 where w: "WriteToPeer env f t (L + 2) (sess c) = (Some w, s1)"
    and c': "c' = c\<lparr>state := (if L = 0 then St_Completed else state c), sess := s1\<rparr>"
    by (auto simp: ForwardChunked_body_def split: prod.splits option.splits)
  have out: "transfer f t (sess c) (?line @ [CR, LF]) s1"
    using WriteToPeer_SomeD(2) [OF w] FindCrlf_split [OF Some] by simp
  have "trailer_part (?line @ [CR, LF] @ rest)" if "trailer_part rest" "L \<noteq> 0" for rest
    using trailer_line [OF FindCrlf_is_line [OF Some] _ that(1)] that(2) FindCrlf_length [OF Some]
    by fastforce
  with out c' assms(1) trailer_end show ?thesis
    by (cases "L = 0"; intro sound_stepI [where out = "?line @ [CR, LF]"])
       (auto simp: chunked_wf_def owes_def)
qed

lemma ForwardChunked_step:
  assumes "chunked_wf f c" and "ForwardChunked_body env f t c = Inl c'"
  shows "sound_step f t c c'"
proof (cases "state c")
  case St_ReadChunkSizeLine
  show ?thesis
  proof (cases "FindCrlf (buf f (sess c))")
    case None
    with assms St_ReadChunkSizeLine obtain r s1
      where "ReadSomeFromPeer env f (sess c) = (r, s1)" "c' = c\<lparr>sess := s1\<rparr>"
      by (auto simp: ForwardChunked_body_def split: prod.splits option.splits if_splits)
    with assms(1) St_ReadChunkSizeLine show ?thesis by (simp add: sound_read)
  next
    case (Some L)
    with assms St_ReadChunkSizeLine show ?thesis
      by (intro sound_stepI [where out = "[]"])
         (auto simp: ForwardChunked_body_def chunked_wf_def owes_def transfer_refl)
  qed
next
  case St_ParseChunkSizeLine
  let ?L = "chunk_size_line_length c"
  have "FindCrlf (buf f (sess c)) = Some ?L"
    using assms(1) St_ParseChunkSizeLine by (simp add: chunked_wf_def)
  then have "BufferPrefixToString (buf f (sess c)) ?L = take ?L (buf f (sess c))"
    using FindCrlf_length BufferPrefixToString_take by fastforce
  with assms St_ParseChunkSizeLine obtain n where
      "ParseChunkSizeLine (take ?L (buf f (sess c))) = Some n"
      "c' = c\<lparr>chunk_size := n, state := St_ForwardChunkSizeLine\<rparr>"
    by (auto simp: ForwardChunked_body_def Let_def split: option.splits)
  with assms(1) St_ParseChunkSizeLine show ?thesis
    by (intro sound_stepI [where out = "[]"])
       (auto simp: chunked_wf_def owes_def transfer_refl)
next
  case St_Completed
  with assms(2) show ?thesis by (simp add: ForwardChunked_body_def)
qed (use assms sound_size_line sound_data sound_trailers in blast)+

lemma ForwardChunked_True:
  assumes "ForwardChunked env f t s = Some (True, s')"
  shows "\<exists>out. chunked_message out \<and> transfer f t s out s'"
proof -
  let ?P = "\<lambda>c. chunked_wf f c \<and>
    (\<exists>out. transfer f t s out (sess c) \<and> (\<forall>rest. owes c rest \<longrightarrow> chunked_message (out @ rest)))"
  have "fst (True, s') \<longrightarrow> (\<exists>out. chunked_message out \<and> transfer f t s out (snd (True, s')))"
  proof (rule loop_invariant [OF assms [unfolded ForwardChunked_def], where P = ?P])
    show "?P (chunked_init s)"
      using transfer_refl by (fastforce simp: chunked_wf_def chunked_init_def owes_def)
  next
    fix c c'
    assume P: "?P c" and step: "ForwardChunked_body env f t c = Inl c'"
    from P ForwardChunked_step [OF _ step] obtain out out' where
        "transfer f t s out (sess c)" "\<forall>rest. owes c rest \<longrightarrow> chunked_message (out @ rest)"
        "chunked_wf f c'" "transfer f t (sess c) out' (sess c')"
        "\<forall>rest. owes c' rest \<longrightarrow> owes c (out' @ rest)"
      unfolding sound_step_def by blast
    then show "?P c'" using transfer_trans by (metis append.assoc)
  next
    fix c r
    assume P: "?P c" and r: "ForwardChunked_body env f t c = Inr r"
    show "fst r \<longrightarrow> (\<exists>out. chunked_message out \<and> transfer f t s out (snd r))"
    proof
      assume "fst r"
      with r have "state c = St_Completed" "snd r = sess c"
        by (auto simp: ForwardChunked_body_def Let_def
            split: ChunkedState.splits prod.splits option.splits if_splits)
      with P show "\<exists>out. chunked_message out \<and> transfer f t s out (snd r)"
        by (fastforce simp: owes_def)
    qed
  qed
  then show ?thesis by simp
qed

section \<open>Every message succeeds\<close>

lemma is_line_FindCrlf: "is_line line \<Longrightarrow> FindCrlf (line @ [CR, LF] @ aft) = Some (length line)"
  using FindCrlf_append [of "line @ [CR, LF]" _ aft] by (simp add: is_line_def)

text \<open>A line at the front of what is buffered or still to come.\<close>

lemma line_in_buffer:
  assumes "is_line line" and "b @ rest = line @ [CR, LF] @ aft"
  shows "FindCrlf b = None \<and> rest \<noteq> [] \<or>
    FindCrlf b = Some (length line) \<and> take (length line) b = line \<and>
      length line + 2 \<le> length b \<and> drop (length line + 2) b @ rest = aft"
proof (cases "FindCrlf b")
  case None
  then have "rest \<noteq> []" using is_line_FindCrlf [OF assms(1), of aft] assms(2) by auto
  with None show ?thesis by simp
next
  case (Some i)
  then have i: "i = length line"
    using FindCrlf_append [OF Some, of rest] is_line_FindCrlf [OF assms(1), of aft] assms(2) by simp
  have l: "length line + 2 \<le> length b" using FindCrlf_length [OF Some] i by simp
  then have "take (length line) b = take (length line) (b @ rest)"
    "drop (length line + 2) b @ rest = drop (length line + 2) (b @ rest)" by simp_all
  with Some i l assms(2) show ?thesis by simp
qed

lemma chunked_message_line:
  assumes "chunked_message msg"
  obtains line aft n where "msg = line @ [CR, LF] @ aft" "is_line line"
    "ParseChunkSizeLine line = Some n"
    "n = 0 \<and> trailer_part aft \<or> n \<noteq> 0 \<and> unat n + 2 < 2 ^ 64 \<and>
      (\<exists>dat rest. aft = dat @ rest \<and> length dat = unat n + 2 \<and> chunked_message rest)"
  using assms by cases blast+

lemma trailer_part_line:
  assumes "trailer_part msg"
  obtains line aft where "msg = line @ [CR, LF] @ aft" "is_line line"
    "line = [] \<and> aft = [] \<or> line \<noteq> [] \<and> trailer_part aft"
  using assms
proof cases
  case trailer_end
  then show ?thesis using that [of "[]" "[]"] by (simp add: is_line_def)
qed (use that in blast)

lemma size_guard_conv:
  fixes n :: size_t
  assumes "unat n + 2 < 2 ^ 64"
  shows "\<not> n > size_max - 2"
proof -
  have "unat (size_max - 2) = 2 ^ 64 - 3"
    using unat_sub_of_nat [of 2 size_max] by (simp add: unat_size_max)
  with assms show ?thesis by (simp add: word_less_nat_alt)
qed

text \<open>The position of the machine in a stream: \<open>msg\<close> is owed, \<open>tail\<close> comes after it.\<close>

definition live ::
    "peer \<Rightarrow> bytes \<Rightarrow> bytes \<Rightarrow> bytes \<Rightarrow> chunked \<Rightarrow> bytes \<Rightarrow> bytes \<Rightarrow> bool" where
  "live f base stream tail c msg rest \<longleftrightarrow> chunked_wf f c \<and> owes c msg \<and>
     unread f base stream (sess c) rest \<and> buf f (sess c) @ rest = msg @ tail"

definition rank :: "ChunkedState \<Rightarrow> nat" where
  "rank st = (case st of St_ReadChunkSizeLine \<Rightarrow> 2 | St_ParseChunkSizeLine \<Rightarrow> 1 | _ \<Rightarrow> 0)"

definition work :: "peer \<Rightarrow> chunked \<Rightarrow> bytes \<Rightarrow> nat" where
  "work f c rest = 3 * (length (buf f (sess c)) + 2 * length rest) + rank (state c)"

definition advances ::
    "asio \<Rightarrow> peer \<Rightarrow> peer \<Rightarrow> bytes \<Rightarrow> bytes \<Rightarrow> bytes \<Rightarrow> chunked \<Rightarrow> bytes \<Rightarrow> bool" where
  "advances env f t base stream tail c rest \<longleftrightarrow>
     (\<exists>c' msg' rest'. ForwardChunked_body env f t c = Inl c' \<and> live f base stream tail c' msg' rest' \<and>
        work f c' rest' < work f c rest)"

lemma advancesI:
  assumes "live f base stream tail c msg rest" and "ForwardChunked_body env f t c = Inl c'"
    and "owes c' msg'" and "unread f base stream (sess c') rest'"
    and "buf f (sess c') @ rest' = msg' @ tail" and "work f c' rest' < work f c rest"
  shows "advances env f t base stream tail c rest"
  using assms ForwardChunked_step [of f c env t c']
  unfolding advances_def live_def sound_step_def by blast

context reliable_link begin

lemma advance_read:
  assumes "live f base stream tail c msg rest" and "rest \<noteq> []"
    and "state c \<in> {St_ReadChunkSizeLine, St_ForwardTrailers, St_ForwardChunkDataWithCrlf}"
    and "\<And>r s1. ReadSomeFromPeer env f (sess c) = (Some r, s1) \<Longrightarrow> bytes_read r \<noteq> 0 \<Longrightarrow>
      ForwardChunked_body env f t c = Inl (c\<lparr>sess := s1\<rparr>)"
  shows "advances env f t base stream tail c rest"
proof -
  from assms(1) have l: "owes c msg" "unread f base stream (sess c) rest"
      "buf f (sess c) @ rest = msg @ tail" by (simp_all add: live_def)
  from read_ok [OF l(2) assms(2)] obtain piece aft s1 where
      r: "ReadSomeFromPeer env f (sess c) = (Some \<lparr>bytes_read = length piece, at_eof = False\<rparr>, s1)"
    and p: "piece \<noteq> []" "rest = piece @ aft" "buf f s1 = buf f (sess c) @ piece"
      "unread f base stream s1 aft" by blast
  have "ForwardChunked_body env f t c = Inl (c\<lparr>sess := s1\<rparr>)"
    using assms(4) [OF r] p(1) by simp
  moreover have "owes (c\<lparr>sess := s1\<rparr>) msg"
    using l(1) by (cases "state c") (simp_all add: owes_def)
  ultimately show ?thesis
    by (rule advancesI [OF assms(1), where rest' = aft]) (use p l(3) in \<open>auto simp: work_def\<close>)
qed

lemma advance_read_line:
  assumes "live f base stream tail c msg rest" and "state c = St_ReadChunkSizeLine"
  shows "advances env f t base stream tail c rest"
proof -
  from assms have l: "chunked_message msg" "unread f base stream (sess c) rest"
      "buf f (sess c) @ rest = msg @ tail" by (simp_all add: live_def owes_def)
  show ?thesis
  proof (cases "FindCrlf (buf f (sess c))")
    case None
    obtain line aft where "msg = line @ [CR, LF] @ aft" "is_line line"
      using l(1) by (rule chunked_message_line)
    then have "rest \<noteq> []" using line_in_buffer [of line "buf f (sess c)" rest "aft @ tail"] l(3) None by auto
    from advance_read [OF assms(1) this] assms(2) None show ?thesis
      by (simp add: ForwardChunked_body_def)
  next
    case (Some L)
    let ?c' = "c\<lparr>chunk_size_line_length := L, state := St_ParseChunkSizeLine\<rparr>"
    have "ForwardChunked_body env f t c = Inl ?c'"
      using Some assms(2) by (simp add: ForwardChunked_body_def)
    then show ?thesis
      by (rule advancesI [OF assms(1), where msg' = msg and rest' = rest])
         (use l assms(2) in \<open>simp_all add: owes_def work_def rank_def\<close>)
  qed
qed

lemma advance_parse_line:
  assumes "live f base stream tail c msg rest" and "state c = St_ParseChunkSizeLine"
  shows "advances env f t base stream tail c rest"
proof -
  let ?b = "buf f (sess c)"
  from assms have l: "FindCrlf ?b = Some (chunk_size_line_length c)" "chunked_message msg"
      "unread f base stream (sess c) rest" "?b @ rest = msg @ tail"
    by (simp_all add: live_def owes_def chunked_wf_def)
  obtain line aft n where m: "msg = line @ [CR, LF] @ aft" "is_line line" "ParseChunkSizeLine line = Some n"
    using l(2) by (rule chunked_message_line)
  then have b: "chunk_size_line_length c = length line" "take (length line) ?b = line" "length line \<le> length ?b"
    using line_in_buffer [of line ?b rest "aft @ tail"] l(1,4) by auto
  have "ForwardChunked_body env f t c = Inl (c\<lparr>chunk_size := n, state := St_ForwardChunkSizeLine\<rparr>)"
    using assms(2) b m(3) by (simp add: ForwardChunked_body_def BufferPrefixToString_take)
  then show ?thesis
    by (rule advancesI [OF assms(1), where msg' = msg and rest' = rest])
       (use l assms(2) in \<open>simp_all add: owes_def work_def rank_def\<close>)
qed

lemma advance_forward_line:
  assumes "live f base stream tail c msg rest" and "state c = St_ForwardChunkSizeLine"
  shows "advances env f t base stream tail c rest"
proof -
  let ?b = "buf f (sess c)"
  from assms have l: "FindCrlf ?b = Some (chunk_size_line_length c)" "chunked_message msg"
      "unread f base stream (sess c) rest" "?b @ rest = msg @ tail"
      "ParseChunkSizeLine (take (chunk_size_line_length c) ?b) = Some (chunk_size c)"
    by (simp_all add: live_def owes_def chunked_wf_def)
  obtain line aft n where m: "msg = line @ [CR, LF] @ aft" "is_line line" "ParseChunkSizeLine line = Some n"
    and n: "n = 0 \<and> trailer_part aft \<or> n \<noteq> 0 \<and> unat n + 2 < 2 ^ 64 \<and>
      (\<exists>dat rest. aft = dat @ rest \<and> length dat = unat n + 2 \<and> chunked_message rest)"
    using l(2) by (rule chunked_message_line)
  then have b: "chunk_size_line_length c = length line" "length line + 2 \<le> length ?b"
      "drop (length line + 2) ?b @ rest = aft @ tail" "chunk_size c = n"
    using line_in_buffer [of line ?b rest "aft @ tail"] l(1,4,5) by auto
  obtain s1 where w: "WriteToPeer env f t (length line + 2) (sess c) = (Some (length line + 2), s1)"
      "buf f s1 = drop (length line + 2) ?b" "unread f base stream s1 rest"
    using write_ok [OF b(2) l(3)] by blast
  let ?c' = "if n = 0 then c\<lparr>state := St_ForwardTrailers, sess := s1\<rparr>
    else c\<lparr>chunk_bytes_remaining := n + 2, state := St_ForwardChunkDataWithCrlf, sess := s1\<rparr>"
  have "ForwardChunked_body env f t c = Inl ?c'"
    using assms(2) b w(1) n size_guard_conv [of n] by (auto simp: ForwardChunked_body_def)
  moreover have "owes ?c' aft"
  proof (cases "n = 0")
    case False
    with n size_guard [OF size_guard_conv [of n]] show ?thesis
      by (auto simp: owes_def)
  qed (use n in \<open>simp add: owes_def\<close>)
  ultimately show ?thesis
    by (rule advancesI [OF assms(1), where msg' = aft and rest' = rest])
       (use w b in \<open>auto simp: work_def rank_def\<close>)
qed

lemma advance_trailers:
  assumes "live f base stream tail c msg rest" and "state c = St_ForwardTrailers"
  shows "advances env f t base stream tail c rest"
proof -
  let ?b = "buf f (sess c)"
  from assms have l: "trailer_part msg" "unread f base stream (sess c) rest" "?b @ rest = msg @ tail"
    by (simp_all add: live_def owes_def)
  obtain line aft where m: "msg = line @ [CR, LF] @ aft" "is_line line"
    and aft: "line = [] \<and> aft = [] \<or> line \<noteq> [] \<and> trailer_part aft"
    using l(1) by (rule trailer_part_line)
  from line_in_buffer [OF m(2), of ?b rest "aft @ tail"] l(3) m(1)
  consider "FindCrlf ?b = None" "rest \<noteq> []"
    | "FindCrlf ?b = Some (length line)" "length line + 2 \<le> length ?b"
      "drop (length line + 2) ?b @ rest = aft @ tail" by auto
  then show ?thesis
  proof cases
    case 1
    from advance_read [OF assms(1) 1(2)] assms(2) 1(1) show ?thesis
      by (simp add: ForwardChunked_body_def)
  next
    case 2
    obtain s1 where w: "WriteToPeer env f t (length line + 2) (sess c) = (Some (length line + 2), s1)"
        "buf f s1 = drop (length line + 2) ?b" "unread f base stream s1 rest"
      using write_ok [OF 2(2) l(2)] by blast
    let ?c' = "c\<lparr>state := (if length line = 0 then St_Completed else state c), sess := s1\<rparr>"
    have "ForwardChunked_body env f t c = Inl ?c'"
      using assms(2) 2(1) w(1) by (simp add: ForwardChunked_body_def)
    moreover have "owes ?c' aft"
      using aft assms(2) by (auto simp: owes_def)
    ultimately show ?thesis
      by (rule advancesI [OF assms(1), where msg' = aft and rest' = rest])
         (use w 2 assms(2) in \<open>auto simp: work_def rank_def\<close>)
  qed
qed

lemma advance_data:
  assumes "live f base stream tail c msg rest" and "state c = St_ForwardChunkDataWithCrlf"
  shows "advances env f t base stream tail c rest"
proof -
  let ?b = "buf f (sess c)"
  from assms obtain dat aft where l: "msg = dat @ aft" "length dat = unat (chunk_bytes_remaining c)"
      "chunked_message aft" "unread f base stream (sess c) rest" "?b @ rest = msg @ tail"
      "chunk_bytes_remaining c \<noteq> 0"
    by (auto simp: live_def owes_def chunked_wf_def)
  then have "dat \<noteq> []" by (auto simp: unat_eq_0)
  show ?thesis
  proof (cases "?b = []")
    case True
    with l \<open>dat \<noteq> []\<close> have "rest \<noteq> []" by auto
    from advance_read [OF assms(1) this] assms(2) True show ?thesis
      by (simp add: ForwardChunked_body_def)
  next
    case False
    define m where "m = min (length dat) (length ?b)"
    have m: "0 < m" "m \<le> length dat" "m \<le> length ?b"
      using False \<open>dat \<noteq> []\<close> by (auto simp: m_def)
    obtain s1 where w: "WriteToPeer env f t m (sess c) = (Some m, s1)"
        "buf f s1 = drop m ?b" "unread f base stream s1 rest"
      using write_ok [OF m(3) l(4)] by blast
    define rem where "rem = chunk_bytes_remaining c - of_nat m"
    have rem: "unat rem = length dat - m"
      unfolding rem_def l(2) using m(2) l(2) by (intro unat_sub_of_nat) simp
    let ?c' = "c\<lparr>chunk_bytes_remaining := rem,
      state := (if rem = 0 then St_ReadChunkSizeLine else state c), sess := s1\<rparr>"
    have "ForwardChunked_body env f t c = Inl ?c'"
      using assms(2) False w(1) l(2) by (simp add: ForwardChunked_body_def Let_def m_def rem_def)
    moreover have "owes ?c' (drop m dat @ aft)"
      using rem l(3) assms(2) m(2) by (cases "rem = 0") (fastforce simp: owes_def)+
    moreover have "drop m ?b @ rest = drop m (?b @ rest)" using m(3) by simp
    ultimately show ?thesis
      by (rule_tac advancesI [OF assms(1), where msg' = "drop m dat @ aft" and rest' = rest])
         (use w m l(1,5) assms(2) in \<open>auto simp: work_def rank_def\<close>)
  qed
qed

lemma advance:
  assumes "live f base stream tail c msg rest" and "state c \<noteq> St_Completed"
  shows "advances env f t base stream tail c rest"
  using advance_read_line [OF assms(1)] advance_parse_line [OF assms(1)] advance_forward_line [OF assms(1)]
    advance_data [OF assms(1)] advance_trailers [OF assms(1)] assms(2)
  by (cases "state c") auto

lemma chunked_completes:
  assumes "live f base stream tail c msg rest"
  shows "\<exists>s' rest'. loop (ForwardChunked_body env f t) c = Some (True, s') \<and>
    unread f base stream s' rest' \<and> buf f s' @ rest' = tail"
  using assms
proof (induction "work f c rest" arbitrary: c msg rest rule: less_induct)
  case less
  show ?case
  proof (cases "state c = St_Completed")
    case True
    then have "ForwardChunked_body env f t c = Inr (True, sess c)"
      by (simp add: ForwardChunked_body_def)
    with loop_Inr [of "ForwardChunked_body env f t" c] less.prems True show ?thesis
      by (auto simp: live_def owes_def)
  next
    case False
    from advance [OF less.prems this] obtain c' msg' rest' where
        c': "ForwardChunked_body env f t c = Inl c'" "live f base stream tail c' msg' rest'"
          "work f c' rest' < work f c rest" by (auto simp: advances_def)
    from less.hyps [OF c'(3,2)] loop_Inl [of "ForwardChunked_body env f t" c c'] c'(1)
    show ?thesis by simp
  qed
qed

lemma chunked_delivers:
  assumes "unread f base stream s rest" and "buf f s @ rest = msg @ tail" and "chunked_message msg"
  shows "\<exists>s' rest'. ForwardChunked env f t s = Some (True, s') \<and> transfer f t s msg s' \<and>
    unread f base stream s' rest' \<and> buf f s' @ rest' = tail"
proof -
  have "live f base stream tail (chunked_init s) msg rest"
    using assms by (simp add: live_def chunked_init_def chunked_wf_def owes_def)
  from chunked_completes [OF this] obtain s' rest' where
      s': "ForwardChunked env f t s = Some (True, s')" "unread f base stream s' rest'"
        "buf f s' @ rest' = tail" by (auto simp: ForwardChunked_def)
  from ForwardChunked_True [OF s'(1)] obtain out where out: "transfer f t s out s'" by blast
  then have "out = msg"
    using transfer_unread [OF out assms(1) s'(2)] assms(2) s'(3) by simp
  with s' out show ?thesis by blast
qed

end

section \<open>A stream that ends inside the message\<close>

text \<open>
  In the two states that wait for data without looking at \<open>bytes_read\<close> the machine spins when
  the peer has closed.
\<close>

lemma chunked_spins:
  assumes "stream_ended env f"
    and "state c = St_ForwardTrailers \<and> FindCrlf (buf f (sess c)) = None \<or>
      state c = St_ForwardChunkDataWithCrlf \<and> buf f (sess c) = []"
  shows "loop (ForwardChunked_body env f t) c = None"
proof (rule loop_diverges [where P = "\<lambda>c. state c = St_ForwardTrailers \<and> FindCrlf (buf f (sess c)) = None \<or>
      state c = St_ForwardChunkDataWithCrlf \<and> buf f (sess c) = []"])
  fix d :: chunked
  assume "state d = St_ForwardTrailers \<and> FindCrlf (buf f (sess d)) = None \<or>
      state d = St_ForwardChunkDataWithCrlf \<and> buf f (sess d) = []"
  then show "\<exists>d'. ForwardChunked_body env f t d = Inl d' \<and>
      (state d' = St_ForwardTrailers \<and> FindCrlf (buf f (sess d')) = None \<or>
       state d' = St_ForwardChunkDataWithCrlf \<and> buf f (sess d') = [])"
    using ReadSome_ended [OF assms(1), of "sess d"] by (auto simp: ForwardChunked_body_def)
qed (use assms(2) in simp)

text \<open>The machine in front of a size line that is complete in the buffer.\<close>

lemma chunked_size_line_run:
  assumes "accepts_writes env t" and "is_line line" and "ParseChunkSizeLine line = Some n"
    and "buf f s = line @ [CR, LF] @ aft" and "unat n + 2 < 2 ^ 64"
  shows "\<exists>c. ForwardChunked env f t s = loop (ForwardChunked_body env f t) c \<and>
    buf f (sess c) = aft \<and>
    (if n = 0 then state c = St_ForwardTrailers
     else state c = St_ForwardChunkDataWithCrlf \<and> chunk_bytes_remaining c = n + 2)"
proof -
  let ?body = "ForwardChunked_body env f t"
  let ?L = "length line"
  have crlf: "FindCrlf (buf f s) = Some ?L" "BufferPrefixToString (buf f s) ?L = line"
    using is_line_FindCrlf [OF assms(2)] assms(4) by (simp_all add: BufferPrefixToString_take)
  obtain s1 where w: "WriteToPeer env f t (?L + 2) s = (Some (?L + 2), s1)" "buf f s1 = aft"
    using WriteToPeer_accepts [OF assms(1), of "?L + 2" f s] assms(4) by auto
  define c1 where "c1 = (chunked_init s)\<lparr>chunk_size_line_length := ?L, state := St_ParseChunkSizeLine\<rparr>"
  define c2 where "c2 = c1\<lparr>chunk_size := n, state := St_ForwardChunkSizeLine\<rparr>"
  define c3 where "c3 = (if n = 0 then c2\<lparr>state := St_ForwardTrailers, sess := s1\<rparr>
    else c2\<lparr>chunk_bytes_remaining := n + 2, state := St_ForwardChunkDataWithCrlf, sess := s1\<rparr>)"
  note cs = c1_def c2_def c3_def chunked_init_def ForwardChunked_body_def
  have "?body (chunked_init s) = Inl c1" "?body c1 = Inl c2"
    using crlf assms(3) by (simp_all add: cs)
  moreover have "?body c2 = Inl c3"
    using w(1) size_guard_conv [OF assms(5)] by (simp add: cs)
  ultimately have "ForwardChunked env f t s = loop ?body c3"
    unfolding ForwardChunked_def
    using loop_Inl [of ?body "chunked_init s" c1] loop_Inl [of ?body c1 c2] loop_Inl [of ?body c2 c3] by simp
  then show ?thesis using w(2) by (intro exI [of _ c3]) (simp add: c3_def)
qed

lemma chunk_data_cut_off:
  assumes "stream_ended env f" and "accepts_writes env t"
    and "state c = St_ForwardChunkDataWithCrlf"
    and "length (buf f (sess c)) < unat (chunk_bytes_remaining c)"
  shows "loop (ForwardChunked_body env f t) c = None"
proof (cases "buf f (sess c) = []")
  case True
  with chunked_spins [OF assms(1)] assms(3) show ?thesis by blast
next
  case False
  let ?m = "length (buf f (sess c))"
  obtain s1 where w: "WriteToPeer env f t ?m (sess c) = (Some ?m, s1)" "buf f s1 = []"
    using WriteToPeer_accepts [OF assms(2), of ?m f "sess c"] by auto
  define rem where "rem = chunk_bytes_remaining c - of_nat ?m"
  have "unat rem = unat (chunk_bytes_remaining c) - ?m"
    unfolding rem_def using assms(4) by (intro unat_sub_of_nat) simp
  then have "rem \<noteq> 0" using assms(4) by (auto simp: unat_eq_0 [symmetric])
  then have "ForwardChunked_body env f t c = Inl (c\<lparr>chunk_bytes_remaining := rem, sess := s1\<rparr>)"
    using False assms(3,4) w(1)
    by (simp add: ForwardChunked_body_def Let_def rem_def min.absorb2)
  then have "loop (ForwardChunked_body env f t) c =
      loop (ForwardChunked_body env f t) (c\<lparr>chunk_bytes_remaining := rem, sess := s1\<rparr>)"
    by (rule loop_Inl [of "ForwardChunked_body env f t" c])
  also have "\<dots> = None"
    using assms(1,3) w(2) by (intro chunked_spins) simp_all
  finally show ?thesis .
qed

lemma chunked_bad_line:
  assumes "is_line line" and "buf f s = line @ [CR, LF] @ aft" and "ParseChunkSizeLine line = None"
  shows "ForwardChunked env f t s = Some (False, s)"
proof -
  let ?body = "ForwardChunked_body env f t"
  define c1 where "c1 = (chunked_init s)\<lparr>chunk_size_line_length := length line, state := St_ParseChunkSizeLine\<rparr>"
  have "FindCrlf (buf f s) = Some (length line)" "BufferPrefixToString (buf f s) (length line) = line"
    using is_line_FindCrlf [OF assms(1)] assms(2) by (simp_all add: BufferPrefixToString_take)
  then have "?body (chunked_init s) = Inl c1" "?body c1 = Inr (False, s)"
    using assms(3) by (simp_all add: c1_def chunked_init_def ForwardChunked_body_def)
  then show ?thesis
    unfolding ForwardChunked_def using loop_Inl [of ?body "chunked_init s" c1] loop_Inr [of ?body c1] by simp
qed

lemma chunked_huge_chunk:
  assumes "is_line line" and "buf f s = line @ [CR, LF] @ aft" and "ParseChunkSizeLine line = Some n"
    and "2 ^ 64 \<le> unat n + 2"
  shows "\<exists>s'. ForwardChunked env f t s = Some (False, s')"
proof -
  let ?body = "ForwardChunked_body env f t"
  define c1 where "c1 = (chunked_init s)\<lparr>chunk_size_line_length := length line, state := St_ParseChunkSizeLine\<rparr>"
  define c2 where "c2 = c1\<lparr>chunk_size := n, state := St_ForwardChunkSizeLine\<rparr>"
  note cs = c1_def c2_def chunked_init_def ForwardChunked_body_def
  have "FindCrlf (buf f s) = Some (length line)" "BufferPrefixToString (buf f s) (length line) = line"
    using is_line_FindCrlf [OF assms(1)] assms(2) by (simp_all add: BufferPrefixToString_take)
  then have b: "?body (chunked_init s) = Inl c1" "?body c1 = Inl c2"
    using assms(3) by (simp_all add: cs)
  have "n \<noteq> 0" "n > size_max - 2" using assms(4) size_guard(1) [of n] by auto
  then have "\<exists>s'. ?body c2 = Inr (False, s')"
    by (cases "WriteToPeer env f t (length line + 2) s") (auto simp: cs split: option.split)
  then show ?thesis
    unfolding ForwardChunked_def
    using b loop_Inl [of ?body "chunked_init s" c1] loop_Inl [of ?body c1 c2] loop_Inr [of ?body c2] by auto
qed

section \<open>Properties\<close>


text \<open>An example: one chunk of four bytes, the last chunk, no trailer.\<close>

definition example_message :: bytes where
  "example_message = ''4'' @ [CR, LF] @ (''Wiki'' @ [CR, LF]) @ (''0'' @ [CR, LF] @ [CR, LF])"

lemma example_message: "chunked_message example_message"
proof -
  have "is_line ''0''" "ParseChunkSizeLine ''0'' = Some 0" by code_simp+
  then have "chunked_message (''0'' @ [CR, LF] @ [CR, LF])"
    by (intro last_chunk trailer_end)
  moreover have "is_line ''4''" "ParseChunkSizeLine ''4'' = Some 4" by code_simp+
  ultimately show ?thesis
    unfolding example_message_def by (intro chunk [where n = 4]) simp_all
qed

lemma example_unread:
  "unread f [] (example_message @ ''GET'') (HttpProxySession 1 None) (example_message @ ''GET'')"
  by (simp add: unread_def io_simps)


text \<open>
  C8. Every chunked message is forwarded, on a network that delivers: if the bytes buffered
  and still to come start with a complete message, \<open>ForwardChunked\<close> returns true after
  delivering exactly that message, however the network cuts it into pieces, and leaves the
  bytes behind it unread or in the buffer.
\<close>

theorem ForwardChunked_succeeds:
  assumes "reliable_link env f t base stream" and "unread f base stream s rest"
    and "buf f s @ rest = msg @ tail" and "chunked_message msg"
  shows "\<exists>s' rest'. ForwardChunked env f t s = Some (True, s') \<and> transfer f t s msg s' \<and>
    unread f base stream s' rest' \<and> buf f s' @ rest' = tail"
  using assms by (rule reliable_link.chunked_delivers)

theorem ForwardChunked_succeeds_witness:
  "\<exists>s' rest'. ForwardChunked (pipe_env (Suc 2) (\<lambda>_. example_message @ ''GET'')) Client Remote
      (HttpProxySession 1 None) = Some (True, s') \<and>
    transfer Client Remote (HttpProxySession 1 None) example_message s' \<and>
    buf Client s' @ rest' = ''GET''"
  using ForwardChunked_succeeds
    [OF pipe.reliable_link_axioms [of 2 "\<lambda>_. example_message @ ''GET''" Client Remote] example_unread,
      of example_message "''GET''"] example_message by auto





end
