(* ===== verification/Rule_Actions.thy ===== *)
theory Rule_Actions
  imports Rule_Model Http_Fields
begin

text \<open>
  The action executor (\<open>rule/http/action_executor.cpp\<close>): the headers a rule may not touch
  and the execution of one action on a request or on a response. Each operation returns the
  \<open>Result<void>\<close> of the code and the message as the adapter leaves it.

  The locale \<open>action_contract\<close> is what the rule engine relies on: an action is first
  checked, a rejected action changes nothing, an accepted one is the adapter's operation.
\<close>

section \<open>Definitions\<close>

definition kUnsupportedHeaders :: "string list" where
  "kUnsupportedHeaders =
     [''content-length'', ''transfer-encoding'', ''te'', ''trailer'',
      ''connection'', ''keep-alive'', ''proxy-connection'', ''upgrade'',
      ''host'',
      ''proxy-authorization'', ''proxy-authenticate'', ''content-encoding'',
      ''content-range'', ''range'', ''if-range'', ''accept-ranges'',
      ''expect'',
      ''authorization'', ''www-authenticate'', ''authentication-info'',
      ''proxy-authentication-info'',
      ''via'', ''x-forwarded-for'', ''x-forwarded-host'', ''x-forwarded-proto'',
      ''x-real-ip'']"

text \<open>The text of the error, with the name between single quotes.\<close>

definition unsupported_msg :: "string \<Rightarrow> string" where
  "unsupported_msg n = ''modifying header '' @ [CHR 0x27] @ n @ [CHR 0x27] @ '' is not supported''"

definition ExecuteRequestAction ::
    "fields_api \<Rightarrow> Action \<Rightarrow> request_header \<Rightarrow> unit result \<times> request_header" where
  "ExecuteRequestAction api a r =
     (if action_target a \<noteq> TargetHeader
      then (Unexpected (rule_error InvalidAction ''invalid target''), r)
      else if (case data a of NameData d \<Rightarrow> to_lower_copy (hn_name d) \<in> set kUnsupportedHeaders
               | NameValueData _ \<Rightarrow> False)
      then (Unexpected (rule_error InvalidAction (unsupported_msg (action_name a))), r)
      else if (case data a of NameValueData d \<Rightarrow> to_lower_copy (hnv_name d) \<in> set kUnsupportedHeaders
               | NameData _ \<Rightarrow> False)
      then (Unexpected (rule_error InvalidAction (unsupported_msg (action_name a))), r)
      else if op a = OpAdd then
        (case data a of
           NameValueData d \<Rightarrow> (Inr (), RequestAddHeader api (hnv_name d) (hnv_value d) r)
         | NameData _ \<Rightarrow>
             (Unexpected (rule_error InvalidAction ''add header requires HeaderNameValueData''), r))
      else if op a = OpSet then
        (case data a of
           NameValueData d \<Rightarrow> (Inr (), RequestSetHeader api (hnv_name d) (hnv_value d) r)
         | NameData _ \<Rightarrow>
             (Unexpected (rule_error InvalidAction ''set header requires HeaderNameValueData''), r))
      else if op a = OpReplace then
        (case data a of
           NameValueData d \<Rightarrow> (Inr (), RequestReplaceHeader api (hnv_name d) (hnv_value d) r)
         | NameData _ \<Rightarrow>
             (Unexpected (rule_error InvalidAction ''replace header requires HeaderNameValueData''), r))
      else if op a = OpRemove then
        (case data a of
           NameData d \<Rightarrow> (Inr (), RequestRemoveHeader api (hn_name d) r)
         | NameValueData _ \<Rightarrow>
             (Unexpected (rule_error InvalidAction ''remove header requires HeaderNameData''), r))
      else (Unexpected (rule_error InvalidAction ''invalid operation''), r))"

definition ExecuteResponseAction ::
    "fields_api \<Rightarrow> Action \<Rightarrow> response_header \<Rightarrow> unit result \<times> response_header" where
  "ExecuteResponseAction api a r =
     (if action_target a \<noteq> TargetHeader
      then (Unexpected (rule_error InvalidAction ''invalid target''), r)
      else if (case data a of NameData d \<Rightarrow> to_lower_copy (hn_name d) \<in> set kUnsupportedHeaders
               | NameValueData _ \<Rightarrow> False)
      then (Unexpected (rule_error InvalidAction (unsupported_msg (action_name a))), r)
      else if (case data a of NameValueData d \<Rightarrow> to_lower_copy (hnv_name d) \<in> set kUnsupportedHeaders
               | NameData _ \<Rightarrow> False)
      then (Unexpected (rule_error InvalidAction (unsupported_msg (action_name a))), r)
      else if op a = OpAdd then
        (case data a of
           NameValueData d \<Rightarrow> (Inr (), ResponseAddHeader api (hnv_name d) (hnv_value d) r)
         | NameData _ \<Rightarrow>
             (Unexpected (rule_error InvalidAction ''add header requires HeaderNameValueData''), r))
      else if op a = OpSet then
        (case data a of
           NameValueData d \<Rightarrow> (Inr (), ResponseSetHeader api (hnv_name d) (hnv_value d) r)
         | NameData _ \<Rightarrow>
             (Unexpected (rule_error InvalidAction ''set header requires HeaderNameValueData''), r))
      else if op a = OpReplace then
        (case data a of
           NameValueData d \<Rightarrow> (Inr (), ResponseReplaceHeader api (hnv_name d) (hnv_value d) r)
         | NameData _ \<Rightarrow>
             (Unexpected (rule_error InvalidAction ''replace header requires HeaderNameValueData''), r))
      else if op a = OpRemove then
        (case data a of
           NameData d \<Rightarrow> (Inr (), ResponseRemoveHeader api (hn_name d) r)
         | NameValueData _ \<Rightarrow>
             (Unexpected (rule_error InvalidAction ''remove header requires HeaderNameData''), r))
      else (Unexpected (rule_error InvalidAction ''invalid operation''), r))"

section \<open>The contract of an action executor\<close>

definition is_protected :: "string \<Rightarrow> bool" where
  "is_protected n \<longleftrightarrow> to_lower_copy n \<in> set kUnsupportedHeaders"

text \<open>The data an operation needs: a value with the name, or the name alone.\<close>

definition shape_ok :: "Action \<Rightarrow> bool" where
  "shape_ok a = (case data a of
     NameValueData _ \<Rightarrow> op a \<in> {OpAdd, OpSet, OpReplace} | NameData _ \<Rightarrow> op a = OpRemove)"

definition action_ok :: "Action \<Rightarrow> bool" where
  "action_ok a \<longleftrightarrow> action_target a = TargetHeader \<and> \<not> is_protected (action_name a) \<and> shape_ok a"

text \<open>The effect of an accepted action, in terms of an adapter's operations.\<close>

definition action_effect ::
    "(string \<Rightarrow> string \<Rightarrow> 'm \<Rightarrow> 'm) \<Rightarrow> (string \<Rightarrow> string \<Rightarrow> 'm \<Rightarrow> 'm) \<Rightarrow>
     (string \<Rightarrow> string \<Rightarrow> 'm \<Rightarrow> 'm) \<Rightarrow> (string \<Rightarrow> 'm \<Rightarrow> 'm) \<Rightarrow> Action \<Rightarrow> 'm \<Rightarrow> 'm" where
  "action_effect set_h add_h replace_h remove_h a m = (case data a of
     NameData d \<Rightarrow> remove_h (hn_name d) m
   | NameValueData d \<Rightarrow>
       (case op a of OpAdd \<Rightarrow> add_h | OpSet \<Rightarrow> set_h | _ \<Rightarrow> replace_h) (hnv_name d) (hnv_value d) m)"

lemma is_protected_cong: "iequals a b \<Longrightarrow> is_protected a = is_protected b"
  by (simp add: is_protected_def iequals_def)

locale action_contract =
  header_adapter get_all get_h set_h add_h replace_h remove_h
  for get_all :: "'m \<Rightarrow> fields" and get_h set_h add_h replace_h remove_h +
  fixes exec :: "Action \<Rightarrow> 'm \<Rightarrow> unit result \<times> 'm"
  assumes exec_ok: "action_ok a \<Longrightarrow>
      exec a m = (Inr (), action_effect set_h add_h replace_h remove_h a m)"
    and exec_rejected: "\<not> action_ok a \<Longrightarrow>
      \<exists>msg. msg \<noteq> [] \<and> exec a m = (Inl (rule_error InvalidAction msg), m)"
begin

lemma exec_success_iff: "fst (exec a m) = Inr () \<longleftrightarrow> action_ok a"
  using exec_ok [of a m] exec_rejected [of a m] by fastforce

lemma exec_error_unchanged: "fst (exec a m) = Inl e \<Longrightarrow> snd (exec a m) = m"
  using exec_ok [of a m] exec_rejected [of a m] by fastforce

lemma effect_rest:
  "others (action_name a) (get_all (action_effect set_h add_h replace_h remove_h a m)) =
     others (action_name a) (get_all m)"
  by (simp add: action_effect_def action_name_def rest_unchanged
      split: ActionData.split Op.split)

lemma exec_rest: "others (action_name a) (get_all (snd (exec a m))) = others (action_name a) (get_all m)"
proof (cases "action_ok a")
  case True
  then show ?thesis by (simp add: exec_ok effect_rest)
next
  case False
  then show ?thesis using exec_rejected [of a m] by auto
qed

text \<open>An action never changes a protected header, whether it is accepted or not.\<close>

lemma exec_protected:
  assumes "is_protected k"
  shows "entries k (get_all (snd (exec a m))) = entries k (get_all m)"
proof (cases "action_ok a")
  case True
  then have "\<not> iequals k (action_name a)"
    using assms is_protected_cong by (auto simp: action_ok_def)
  then show ?thesis by (rule entries_eq_of_others [OF exec_rest])
next
  case False
  then show ?thesis using exec_rejected [of a m] by auto
qed

end

lemma ExecuteRequestAction_cases:
  "action_ok a \<Longrightarrow> ExecuteRequestAction api a r = (Inr (),
     action_effect (RequestSetHeader api) (RequestAddHeader api) (RequestReplaceHeader api)
       (RequestRemoveHeader api) a r)"
  "\<not> action_ok a \<Longrightarrow>
     \<exists>msg. msg \<noteq> [] \<and> ExecuteRequestAction api a r = (Inl (rule_error InvalidAction msg), r)"
  by (cases "op a"; cases "data a"; auto simp: ExecuteRequestAction_def action_ok_def
      shape_ok_def action_effect_def action_name_def is_protected_def unsupported_msg_def)+

lemma ExecuteResponseAction_cases:
  "action_ok a \<Longrightarrow> ExecuteResponseAction api a r = (Inr (),
     action_effect (ResponseSetHeader api) (ResponseAddHeader api) (ResponseReplaceHeader api)
       (ResponseRemoveHeader api) a r)"
  "\<not> action_ok a \<Longrightarrow>
     \<exists>msg. msg \<noteq> [] \<and> ExecuteResponseAction api a r = (Inl (rule_error InvalidAction msg), r)"
  by (cases "op a"; cases "data a"; auto simp: ExecuteResponseAction_def action_ok_def
      shape_ok_def action_effect_def action_name_def is_protected_def unsupported_msg_def)+

sublocale beast_fields \<subseteq> request_exec: action_contract
  RequestGetAllHeaders "RequestGetHeader api" "RequestSetHeader api" "RequestAddHeader api"
  "RequestReplaceHeader api" "RequestRemoveHeader api" "ExecuteRequestAction api"
  by unfold_locales (fact ExecuteRequestAction_cases)+

sublocale beast_fields \<subseteq> response_exec: action_contract
  ResponseGetAllHeaders "ResponseGetHeader api" "ResponseSetHeader api" "ResponseAddHeader api"
  "ResponseReplaceHeader api" "ResponseRemoveHeader api" "ExecuteResponseAction api"
  by unfold_locales (fact ExecuteResponseAction_cases)+

context beast_fields
begin

lemmas request_exec_lemmas = request_exec.exec_success_iff request_exec.exec_error_unchanged
  request_exec.exec_rest request_exec.exec_protected
lemmas response_exec_lemmas = response_exec.exec_success_iff response_exec.exec_error_unchanged
  response_exec.exec_rest response_exec.exec_protected

end

section \<open>Properties\<close>

text \<open>
  The value a name reads as after an accepted action, from the values before.
\<close>

definition read_after :: "Action \<Rightarrow> (string \<Rightarrow> string option) \<Rightarrow> string \<Rightarrow> string option" where
  "read_after a before k =
     (if \<not> iequals k (action_name a) then before k
      else case data a of
        NameData _ \<Rightarrow> None
      | NameValueData d \<Rightarrow>
          (case op a of
             OpAdd \<Rightarrow> (case before k of None \<Rightarrow> Some (hnv_value d) | Some v \<Rightarrow> Some v)
           | OpSet \<Rightarrow> Some (hnv_value d)
           | _ \<Rightarrow> (case before k of None \<Rightarrow> None | Some v \<Rightarrow> Some (hnv_value d))))"

context header_adapter
begin

lemma get_action_effect:
  "get_h k (action_effect set_h add_h replace_h remove_h a m) = read_after a (\<lambda>n. get_h n m) k"
proof (cases "iequals k (action_name a)")
  case True
  then have "get_h k m = get_h (action_name a) m" by (rule get_cong)
  with True show ?thesis
    by (auto simp: action_effect_def read_after_def action_name_def get_set get_add get_replace
        get_remove split: ActionData.split Op.split option.split)
next
  case False
  then show ?thesis
    by (cases "data a") (simp_all add: action_effect_def read_after_def action_name_def get_set
        get_add get_replace get_remove split: Op.split)
qed

end

context beast_fields
begin

lemmas request_get_action_effect = request.get_action_effect
lemmas response_get_action_effect = response.get_action_effect

end

text \<open>
  Executing an action on a request: it succeeds exactly when its target is a header, the
  header is not one of the unsupported ones and the data fits the operation; then every
  header reads as the operation says; otherwise the result is the error \<open>InvalidAction\<close>
  with a text, and the request is unchanged.
\<close>

theorem ExecuteRequestAction_correct:
  assumes "beast_fields api"
  shows "if action_ok a
    then fst (ExecuteRequestAction api a r) = Inr () \<and>
      (\<forall>k. RequestGetHeader api k (snd (ExecuteRequestAction api a r)) =
         read_after a (\<lambda>n. RequestGetHeader api n r) k)
    else (\<exists>e. ExecuteRequestAction api a r = (Inl e, r) \<and>
         code e = rule_make_error_code InvalidAction \<and> message e \<noteq> [])"
proof (cases "action_ok a")
  case True
  then show ?thesis
    using beast_fields.request_get_action_effect [OF assms] by (simp add: ExecuteRequestAction_cases(1))
next
  case False
  from ExecuteRequestAction_cases(2) [OF False, of api r] False show ?thesis
    by (auto simp: mk_Error_message)
qed

theorem ExecuteRequestAction_correct_witness:
  "beast_fields list_fields \<and>
   RequestGetHeader list_fields ''x-a''
     (snd (ExecuteRequestAction list_fields
        \<lparr>op = OpSet, action_target = TargetHeader,
         data = NameValueData \<lparr>hnv_name = ''X-A'', hnv_value = ''2''\<rparr>\<rparr>
        \<lparr>rq_method = verb_head, method_string = ''HEAD'', target = ''/'', version = 11,
         rq_fields = [(''x-A'', ''1'')]\<rparr>)) = Some ''2''"
proof -
  let ?a = "\<lparr>op = OpSet, action_target = TargetHeader,
    data = NameValueData \<lparr>hnv_name = ''X-A'', hnv_value = ''2''\<rparr>\<rparr> :: Action"
  let ?r = "\<lparr>rq_method = verb_head, method_string = ''HEAD'', target = ''/'', version = 11,
    rq_fields = [(''x-A'', ''1'')]\<rparr> :: request_header"
  have ok: "action_ok ?a" by code_simp
  have "read_after ?a (\<lambda>n. RequestGetHeader list_fields n ?r) ''x-a'' = Some ''2''" by code_simp
  with ok show ?thesis
    using ExecuteRequestAction_correct [OF lf.beast_fields_axioms, of ?a ?r]
      lf.beast_fields_axioms by simp
qed

text \<open>
  No action can touch an unsupported header (body framing, hop-by-hop, routing,
  authentication, proxy metadata), on a request or on a response, whatever the case of the
  name in the rule and whether or not the action is accepted: the fields of that name are
  the same sequence before and after.
\<close>

theorem actions_keep_protected_headers:
  assumes "beast_fields api" and "to_lower_copy k \<in> set kUnsupportedHeaders"
  shows "entries k (rq_fields (snd (ExecuteRequestAction api a r))) = entries k (rq_fields r) \<and>
    entries k (rs_fields (snd (ExecuteResponseAction api a s))) = entries k (rs_fields s)"
proof -
  have "is_protected k" using assms(2) by (simp add: is_protected_def)
  then show ?thesis
    using beast_fields.request_exec_lemmas(4) [OF assms(1), of k a r]
      beast_fields.response_exec_lemmas(4) [OF assms(1), of k a s]
    by (simp add: RequestGetAllHeaders_def ResponseGetAllHeaders_def)
qed

theorem actions_keep_protected_headers_witness:
  "entries ''Content-Length'' (rq_fields (snd (ExecuteRequestAction list_fields
       \<lparr>op = OpRemove, action_target = TargetHeader, data = NameData \<lparr>hn_name = ''CONTENT-LENGTH''\<rparr>\<rparr>
       \<lparr>rq_method = verb_head, method_string = ''HEAD'', target = ''/'', version = 11,
        rq_fields = [(''content-length'', ''1'')]\<rparr>))) = [(''content-length'', ''1'')]"
proof -
  have h: "to_lower_copy ''Content-Length'' \<in> set kUnsupportedHeaders"
    by code_simp
  have "entries ''Content-Length'' [(''content-length'', ''1'')] = [(''content-length'', ''1'')]"
    by code_simp
  then show ?thesis
    using actions_keep_protected_headers [OF lf.beast_fields_axioms h] by simp
qed

end
