(* ===== verification/Qjs_Value.thy ===== *)
theory Qjs_Value
  imports Proxy_Errors
begin

text \<open>
  The wrapper around the QuickJS engine (\<open>script/qjs\<close>): \<open>Runtime\<close>, \<open>Context\<close>, \<open>Value\<close>,
  \<open>Evaluator\<close>, \<open>ObjectBuilder\<close> and \<open>GetExceptionMessage\<close>.

  \<^item> QuickJS itself is not part of the repository. Its C API is the parameter \<open>quickjs\<close>: one
    function per call the wrapper makes, over an abstract type \<open>'h\<close> of engine states and an
    abstract type \<open>'v\<close> of \<open>JSValue\<close>s; a pointer is an address, the null pointer is
    \<open>None\<close>. \<open>nothrow_new\<close> says whether the allocation of a \<open>Value::Impl\<close> succeeds.
  \<^item> C++ lifetimes are explicit: a \<open>Value\<close> is its \<open>unique_ptr\<close> (\<open>None\<close> once moved from),
    \<open>destroy_Value\<close> is the destructor, and every operation runs the destructors of its
    locals and by-value parameters where the scope ends. The destructor of a moved-from
    object does nothing and is left out.
  \<^item> The locale \<open>quickjs_refs\<close> states what QuickJS documents of reference counts: which calls
    give the caller a reference to free, and which take one. Its lemmas say that no
    operation of the wrapper leaks a reference or frees one twice, on any path.
\<close>

section \<open>The QuickJS API\<close>

type_synonym addr = nat

record ('h, 'v) quickjs =
  JS_NewRuntime :: "'h \<Rightarrow> addr option \<times> 'h"
  JS_FreeRuntime :: "addr \<Rightarrow> 'h \<Rightarrow> 'h"
  JS_NewContext :: "addr option \<Rightarrow> 'h \<Rightarrow> addr option \<times> 'h"
  JS_FreeContext :: "addr \<Rightarrow> 'h \<Rightarrow> 'h"
  JS_FreeValue :: "addr \<Rightarrow> 'v \<Rightarrow> 'h \<Rightarrow> 'h"
  JS_UNDEFINED :: 'v
  JS_NULL :: 'v
  JS_IsException :: "'v \<Rightarrow> bool"
  JS_IsUndefined :: "'v \<Rightarrow> bool"
  JS_IsNull :: "'v \<Rightarrow> bool"
  JS_IsNumber :: "'v \<Rightarrow> bool"
  JS_IsBool :: "'v \<Rightarrow> bool"
  JS_IsString :: "'v \<Rightarrow> bool"
  JS_IsObject :: "'v \<Rightarrow> bool"
  JS_IsArray :: "'v \<Rightarrow> bool"
  JS_GetGlobalObject :: "addr \<Rightarrow> 'h \<Rightarrow> 'v \<times> 'h"
  JS_NewBool :: "bool \<Rightarrow> 'v"
  JS_NewInt32 :: "32 word \<Rightarrow> 'v"
  JS_NewStringLen :: "addr \<Rightarrow> string \<Rightarrow> 'h \<Rightarrow> 'v \<times> 'h"
  JS_NewObject :: "addr \<Rightarrow> 'h \<Rightarrow> 'v \<times> 'h"
  JS_NewArray :: "addr \<Rightarrow> 'h \<Rightarrow> 'v \<times> 'h"
  JS_ToBool :: "addr \<Rightarrow> 'v \<Rightarrow> 'h \<Rightarrow> int \<times> 'h"
  JS_ToInt32 :: "addr \<Rightarrow> 'v \<Rightarrow> 'h \<Rightarrow> (int \<times> 32 word) \<times> 'h"
  JS_ToCString :: "addr \<Rightarrow> 'v \<Rightarrow> 'h \<Rightarrow> string option \<times> 'h"
  JS_ToCStringLen :: "addr \<Rightarrow> 'v \<Rightarrow> 'h \<Rightarrow> string option \<times> 'h"
  JS_FreeCString :: "addr \<Rightarrow> string \<Rightarrow> 'h \<Rightarrow> 'h"
  JS_GetException :: "addr \<Rightarrow> 'h \<Rightarrow> 'v \<times> 'h"
  JS_GetPropertyStr :: "addr \<Rightarrow> 'v \<Rightarrow> string \<Rightarrow> 'h \<Rightarrow> 'v \<times> 'h"
  JS_SetPropertyStr :: "addr \<Rightarrow> 'v \<Rightarrow> string \<Rightarrow> 'v \<Rightarrow> 'h \<Rightarrow> int \<times> 'h"
  JS_GetPropertyUint32 :: "addr \<Rightarrow> 'v \<Rightarrow> 32 word \<Rightarrow> 'h \<Rightarrow> 'v \<times> 'h"
  JS_SetPropertyUint32 :: "addr \<Rightarrow> 'v \<Rightarrow> 32 word \<Rightarrow> 'v \<Rightarrow> 'h \<Rightarrow> int \<times> 'h"
  JS_Eval :: "addr \<Rightarrow> string \<Rightarrow> string \<Rightarrow> 'h \<Rightarrow> 'v \<times> 'h"
  nothrow_new :: "'h \<Rightarrow> bool"

text \<open>\<open>std::string::c_str\<close> as a C function reads it: up to the first NUL.\<close>

definition c_str :: "string \<Rightarrow> string" where
  "c_str s = takeWhile (\<lambda>c. c \<noteq> CHR 0x00) s"

section \<open>GetExceptionMessage\<close>

definition GetExceptionMessage :: "('h, 'v) quickjs \<Rightarrow> addr \<Rightarrow> 'h \<Rightarrow> string \<times> 'h" where
  "GetExceptionMessage q ctx h =
     (case JS_GetException q ctx h of (exn, h1) \<Rightarrow>
        if JS_IsNull q exn \<or> JS_IsUndefined q exn
        then (''<unknown QuickJS exception>'', JS_FreeValue q ctx exn h1)
        else (case JS_ToCString q ctx exn h1 of
            (None, h2) \<Rightarrow>
              (case JS_GetException q ctx h2 of (convert_exn, h3) \<Rightarrow>
                 (''<failed to convert QuickJS exception to string>'',
                  JS_FreeValue q ctx exn (JS_FreeValue q ctx convert_exn h3)))
          | (Some s, h2) \<Rightarrow> (s, JS_FreeValue q ctx exn (JS_FreeCString q ctx s h2))))"

section \<open>Runtime and Context\<close>

record Runtime =
  rt_handle :: "addr option"

definition Runtime_Create :: "('h, 'v) quickjs \<Rightarrow> 'h \<Rightarrow> Runtime result \<times> 'h" where
  "Runtime_Create q h = (case JS_NewRuntime q h of
     (None, h1) \<Rightarrow> (Unexpected (qjs_error CreateRuntimeFailed []), h1)
   | (Some r, h1) \<Rightarrow> (Inr \<lparr>rt_handle = Some r\<rparr>, h1))"

definition Runtime_GetNativeHandle :: "Runtime \<Rightarrow> addr option" where
  "Runtime_GetNativeHandle r = rt_handle r"

definition destroy_Runtime :: "('h, 'v) quickjs \<Rightarrow> Runtime \<Rightarrow> 'h \<Rightarrow> 'h" where
  "destroy_Runtime q r h = (case rt_handle r of None \<Rightarrow> h | Some p \<Rightarrow> JS_FreeRuntime q p h)"

text \<open>The move constructor and the move assignment give the new object and what is left of the old one.\<close>

definition Runtime_move :: "Runtime \<Rightarrow> Runtime \<times> Runtime" where
  "Runtime_move other = (\<lparr>rt_handle = rt_handle other\<rparr>, other\<lparr>rt_handle := None\<rparr>)"

definition Runtime_move_assign ::
    "('h, 'v) quickjs \<Rightarrow> Runtime \<Rightarrow> Runtime \<Rightarrow> 'h \<Rightarrow> (Runtime \<times> Runtime) \<times> 'h" where
  "Runtime_move_assign q this other h =
     (let h1 = (case rt_handle this of None \<Rightarrow> h | Some p \<Rightarrow> JS_FreeRuntime q p h) in
      ((this\<lparr>rt_handle := rt_handle other\<rparr>, other\<lparr>rt_handle := None\<rparr>), h1))"

record Context =
  ctx_handle :: "addr option"

definition Context_Create :: "('h, 'v) quickjs \<Rightarrow> Runtime \<Rightarrow> 'h \<Rightarrow> Context result \<times> 'h" where
  "Context_Create q r h = (case JS_NewContext q (Runtime_GetNativeHandle r) h of
     (None, h1) \<Rightarrow> (Unexpected (qjs_error CreateContextFailed []), h1)
   | (Some c, h1) \<Rightarrow> (Inr \<lparr>ctx_handle = Some c\<rparr>, h1))"

definition Context_GetNativeHandle :: "Context \<Rightarrow> addr option" where
  "Context_GetNativeHandle c = ctx_handle c"

definition destroy_Context :: "('h, 'v) quickjs \<Rightarrow> Context \<Rightarrow> 'h \<Rightarrow> 'h" where
  "destroy_Context q c h = (case ctx_handle c of None \<Rightarrow> h | Some p \<Rightarrow> JS_FreeContext q p h)"

definition Context_move :: "Context \<Rightarrow> Context \<times> Context" where
  "Context_move other = (\<lparr>ctx_handle = ctx_handle other\<rparr>, other\<lparr>ctx_handle := None\<rparr>)"

definition Context_move_assign ::
    "('h, 'v) quickjs \<Rightarrow> Context \<Rightarrow> Context \<Rightarrow> 'h \<Rightarrow> (Context \<times> Context) \<times> 'h" where
  "Context_move_assign q this other h =
     (let h1 = (case ctx_handle this of None \<Rightarrow> h | Some p \<Rightarrow> JS_FreeContext q p h) in
      ((this\<lparr>ctx_handle := ctx_handle other\<rparr>, other\<lparr>ctx_handle := None\<rparr>), h1))"

section \<open>Value: ownership\<close>

record 'v Impl =
  impl_context :: "addr option"
  impl_value :: 'v
  owns_value :: bool

type_synonym 'v Value = "'v Impl option"

definition new_Impl :: "addr \<Rightarrow> 'v \<Rightarrow> 'v Impl" where
  "new_Impl ctx v = \<lparr>impl_context = Some ctx, impl_value = v, owns_value = True\<rparr>"

definition destroy_Impl :: "('h, 'v) quickjs \<Rightarrow> 'v Impl \<Rightarrow> 'h \<Rightarrow> 'h" where
  "destroy_Impl q im h =
     (if owns_value im then
        (case impl_context im of Some c \<Rightarrow> JS_FreeValue q c (impl_value im) h | None \<Rightarrow> h)
      else h)"

definition destroy_Value :: "('h, 'v) quickjs \<Rightarrow> 'v Value \<Rightarrow> 'h \<Rightarrow> 'h" where
  "destroy_Value q v h = (case v of None \<Rightarrow> h | Some im \<Rightarrow> destroy_Impl q im h)"

definition Impl_IsValid :: "'v Impl \<Rightarrow> bool" where
  "Impl_IsValid im \<longleftrightarrow> impl_context im \<noteq> None \<and> owns_value im"

definition Release :: "('h, 'v) quickjs \<Rightarrow> 'v Impl \<Rightarrow> 'v \<times> 'v Impl" where
  "Release q im = (impl_value im, im\<lparr>owns_value := False, impl_context := None, impl_value := JS_UNDEFINED q\<rparr>)"

definition IsValid :: "'v Value \<Rightarrow> bool" where
  "IsValid v = (case v of None \<Rightarrow> False | Some im \<Rightarrow> Impl_IsValid im)"

definition AdoptValue :: "('h, 'v) quickjs \<Rightarrow> addr \<Rightarrow> 'v \<Rightarrow> 'h \<Rightarrow> 'v Value result \<times> 'h" where
  "AdoptValue q ctx v h =
     (if nothrow_new q h then (Inr (Some (new_Impl ctx v)), h)
      else (Unexpected (common_error InternalError ''failed to adopt JS value''),
            JS_FreeValue q ctx v h))"

text \<open>Destroying a \<open>Result<Value>\<close>.\<close>

definition destroy_result :: "('h, 'v) quickjs \<Rightarrow> 'v Value result \<Rightarrow> 'h \<Rightarrow> 'h" where
  "destroy_result q r h = (case r of Inl _ \<Rightarrow> h | Inr v \<Rightarrow> destroy_Value q v h)"

definition HandleInvalidValue :: "string \<Rightarrow> 'a result" where
  "HandleInvalidValue why = Unexpected (qjs_error InvalidValue why)"

definition HandleContextMismatch :: "'a result" where
  "HandleContextMismatch = Unexpected (qjs_error ContextMismatch [])"

section \<open>Value: factories\<close>

text \<open>The exception branch the factories and getters share.\<close>

definition js_exception ::
    "('h, 'v) quickjs \<Rightarrow> qjs_Errc \<Rightarrow> addr \<Rightarrow> 'v \<Rightarrow> 'h \<Rightarrow> 'a result \<times> 'h" where
  "js_exception q errc ctx v h =
     (case GetExceptionMessage q ctx h of (msg, h1) \<Rightarrow>
        (Unexpected (qjs_error errc msg), JS_FreeValue q ctx v h1))"

definition GlobalObject :: "('h, 'v) quickjs \<Rightarrow> Context \<Rightarrow> 'h \<Rightarrow> 'v Value result \<times> 'h" where
  "GlobalObject q context h = (case Context_GetNativeHandle context of
     None \<Rightarrow> (Unexpected (qjs_error InvalidContext []), h)
   | Some ctx \<Rightarrow> (case JS_GetGlobalObject q ctx h of (v, h1) \<Rightarrow>
       if JS_IsException q v then js_exception q JsInternalError ctx v h1
       else AdoptValue q ctx v h1))"

definition Value_Undefined :: "('h, 'v) quickjs \<Rightarrow> Context \<Rightarrow> 'h \<Rightarrow> 'v Value result \<times> 'h" where
  "Value_Undefined q context h = (case Context_GetNativeHandle context of
     None \<Rightarrow> (Unexpected (qjs_error InvalidContext []), h)
   | Some ctx \<Rightarrow> AdoptValue q ctx (JS_UNDEFINED q) h)"

definition Value_Null :: "('h, 'v) quickjs \<Rightarrow> Context \<Rightarrow> 'h \<Rightarrow> 'v Value result \<times> 'h" where
  "Value_Null q context h = (case Context_GetNativeHandle context of
     None \<Rightarrow> (Unexpected (qjs_error InvalidContext []), h)
   | Some ctx \<Rightarrow> AdoptValue q ctx (JS_NULL q) h)"

definition Value_Bool :: "('h, 'v) quickjs \<Rightarrow> Context \<Rightarrow> bool \<Rightarrow> 'h \<Rightarrow> 'v Value result \<times> 'h" where
  "Value_Bool q context b h = (case Context_GetNativeHandle context of
     None \<Rightarrow> (Unexpected (qjs_error InvalidContext []), h)
   | Some ctx \<Rightarrow> AdoptValue q ctx (JS_NewBool q b) h)"

definition Value_Int32 :: "('h, 'v) quickjs \<Rightarrow> Context \<Rightarrow> 32 word \<Rightarrow> 'h \<Rightarrow> 'v Value result \<times> 'h" where
  "Value_Int32 q context i h = (case Context_GetNativeHandle context of
     None \<Rightarrow> (Unexpected (qjs_error InvalidContext []), h)
   | Some ctx \<Rightarrow> AdoptValue q ctx (JS_NewInt32 q i) h)"

definition Value_String :: "('h, 'v) quickjs \<Rightarrow> Context \<Rightarrow> string \<Rightarrow> 'h \<Rightarrow> 'v Value result \<times> 'h" where
  "Value_String q context s h = (case Context_GetNativeHandle context of
     None \<Rightarrow> (Unexpected (qjs_error InvalidContext []), h)
   | Some ctx \<Rightarrow> (case JS_NewStringLen q ctx s h of (v, h1) \<Rightarrow>
       if JS_IsException q v then js_exception q JsInternalError ctx v h1
       else AdoptValue q ctx v h1))"

definition Value_Object :: "('h, 'v) quickjs \<Rightarrow> Context \<Rightarrow> 'h \<Rightarrow> 'v Value result \<times> 'h" where
  "Value_Object q context h = (case Context_GetNativeHandle context of
     None \<Rightarrow> (Unexpected (qjs_error InvalidContext []), h)
   | Some ctx \<Rightarrow> (case JS_NewObject q ctx h of (v, h1) \<Rightarrow>
       if JS_IsException q v then js_exception q JsInternalError ctx v h1
       else AdoptValue q ctx v h1))"

definition Value_Array :: "('h, 'v) quickjs \<Rightarrow> Context \<Rightarrow> 'h \<Rightarrow> 'v Value result \<times> 'h" where
  "Value_Array q context h = (case Context_GetNativeHandle context of
     None \<Rightarrow> (Unexpected (qjs_error InvalidContext []), h)
   | Some ctx \<Rightarrow> (case JS_NewArray q ctx h of (v, h1) \<Rightarrow>
       if JS_IsException q v then js_exception q JsInternalError ctx v h1
       else AdoptValue q ctx v h1))"

section \<open>Value: classification\<close>

definition js_test :: "('v \<Rightarrow> bool) \<Rightarrow> 'v Value \<Rightarrow> bool" where
  "js_test P v \<longleftrightarrow> IsValid v \<and> (case v of None \<Rightarrow> False | Some im \<Rightarrow> P (impl_value im))"

definition IsException :: "('h, 'v) quickjs \<Rightarrow> 'v Value \<Rightarrow> bool" where
  "IsException q v = js_test (JS_IsException q) v"

definition IsUndefined :: "('h, 'v) quickjs \<Rightarrow> 'v Value \<Rightarrow> bool" where
  "IsUndefined q v = js_test (JS_IsUndefined q) v"

definition IsNull :: "('h, 'v) quickjs \<Rightarrow> 'v Value \<Rightarrow> bool" where
  "IsNull q v = js_test (JS_IsNull q) v"

definition IsNumber :: "('h, 'v) quickjs \<Rightarrow> 'v Value \<Rightarrow> bool" where
  "IsNumber q v = js_test (JS_IsNumber q) v"

definition IsBool :: "('h, 'v) quickjs \<Rightarrow> 'v Value \<Rightarrow> bool" where
  "IsBool q v = js_test (JS_IsBool q) v"

definition IsString :: "('h, 'v) quickjs \<Rightarrow> 'v Value \<Rightarrow> bool" where
  "IsString q v = js_test (JS_IsString q) v"

definition IsObject :: "('h, 'v) quickjs \<Rightarrow> 'v Value \<Rightarrow> bool" where
  "IsObject q v = js_test (JS_IsObject q) v"

definition IsArray :: "('h, 'v) quickjs \<Rightarrow> 'v Value \<Rightarrow> bool" where
  "IsArray q v = js_test (JS_IsArray q) v"

section \<open>Value: conversions\<close>

text \<open>
  After \<open>IsValid\<close> the implementation and its context are there; \<open>with_handle\<close> takes them
  apart.
\<close>

definition with_handle :: "'v Value \<Rightarrow> (addr \<Rightarrow> 'v \<Rightarrow> 'a) \<Rightarrow> 'a \<Rightarrow> 'a" where
  "with_handle v k invalid = (case v of None \<Rightarrow> invalid
     | Some im \<Rightarrow> if \<not> owns_value im then invalid
         else (case impl_context im of None \<Rightarrow> invalid | Some ctx \<Rightarrow> k ctx (impl_value im)))"

definition ToBool :: "('h, 'v) quickjs \<Rightarrow> 'v Value \<Rightarrow> 'h \<Rightarrow> bool result \<times> 'h" where
  "ToBool q v h = with_handle v
     (\<lambda>ctx x. case JS_ToBool q ctx x h of (r, h1) \<Rightarrow>
        if r < 0 then (case GetExceptionMessage q ctx h1 of (msg, h2) \<Rightarrow>
          (Unexpected (qjs_error ConvertValueFailed msg), h2))
        else (Inr (r \<noteq> 0), h1))
     (HandleInvalidValue ''value is invalid'', h)"

definition ToInt32 :: "('h, 'v) quickjs \<Rightarrow> 'v Value \<Rightarrow> 'h \<Rightarrow> (32 word) result \<times> 'h" where
  "ToInt32 q v h = with_handle v
     (\<lambda>ctx x. case JS_ToInt32 q ctx x h of ((r, i), h1) \<Rightarrow>
        if r < 0 then (case GetExceptionMessage q ctx h1 of (msg, h2) \<Rightarrow>
          (Unexpected (qjs_error ConvertValueFailed msg), h2))
        else (Inr i, h1))
     (HandleInvalidValue ''value is invalid'', h)"

definition ToString :: "('h, 'v) quickjs \<Rightarrow> 'v Value \<Rightarrow> 'h \<Rightarrow> string result \<times> 'h" where
  "ToString q v h = with_handle v
     (\<lambda>ctx x. case JS_ToCStringLen q ctx x h of
          (None, h1) \<Rightarrow> (case GetExceptionMessage q ctx h1 of (msg, h2) \<Rightarrow>
            (Unexpected (qjs_error ConvertValueFailed msg), h2))
        | (Some s, h1) \<Rightarrow> (Inr s, JS_FreeCString q ctx s h1))
     (HandleInvalidValue ''value is invalid'', h)"

section \<open>Value: properties and elements\<close>

definition GetProperty ::
    "('h, 'v) quickjs \<Rightarrow> 'v Value \<Rightarrow> string \<Rightarrow> 'h \<Rightarrow> 'v Value result \<times> 'h" where
  "GetProperty q v name h = with_handle v
     (\<lambda>ctx x. case JS_GetPropertyStr q ctx x (c_str name) h of (p, h1) \<Rightarrow>
        if JS_IsException q p then js_exception q GetPropertyFailed ctx p h1
        else AdoptValue q ctx p h1)
     (HandleInvalidValue ''target is invalid'', h)"

text \<open>The context of a value that is known to be valid.\<close>

definition Impl_Context :: "'v Value \<Rightarrow> addr option" where
  "Impl_Context v = (case v of None \<Rightarrow> None | Some im \<Rightarrow> impl_context im)"

text \<open>
  \<open>SetProperty\<close> and \<open>SetElement\<close> take the new value by value: it is destroyed on return,
  which frees it unless it was released to QuickJS.
\<close>

definition SetProperty ::
    "('h, 'v) quickjs \<Rightarrow> 'v Value \<Rightarrow> string \<Rightarrow> 'v Value \<Rightarrow> 'h \<Rightarrow> unit result \<times> 'h" where
  "SetProperty q this name val h =
     (if \<not> IsValid this then
        (HandleInvalidValue ''target is invalid'', destroy_Value q val h)
      else if \<not> IsObject q this then
        (HandleInvalidValue ''target is not an object'', destroy_Value q val h)
      else if \<not> IsValid val then
        (HandleInvalidValue ''property value is invalid'', destroy_Value q val h)
      else if Impl_Context this \<noteq> Impl_Context val then
        (HandleContextMismatch, destroy_Value q val h)
      else (case (this, val) of
          (Some im, Some vim) \<Rightarrow>
            (let ctx = the (impl_context im); (released, vim') = Release q vim in
             case JS_SetPropertyStr q ctx (impl_value im) (c_str name) released h of (r, h1) \<Rightarrow>
               if r < 0 then (case GetExceptionMessage q ctx h1 of (msg, h2) \<Rightarrow>
                 (Unexpected (qjs_error SetPropertyFailed msg), destroy_Value q (Some vim') h2))
               else (Inr (), destroy_Value q (Some vim') h1))
        | _ \<Rightarrow> (HandleInvalidValue ''target is invalid'', destroy_Value q val h)))"

definition SetElement ::
    "('h, 'v) quickjs \<Rightarrow> 'v Value \<Rightarrow> 32 word \<Rightarrow> 'v Value \<Rightarrow> 'h \<Rightarrow> unit result \<times> 'h" where
  "SetElement q this index val h =
     (if \<not> IsValid this then
        (HandleInvalidValue ''target is invalid'', destroy_Value q val h)
      else if \<not> IsArray q this then
        (HandleInvalidValue ''target is not an array'', destroy_Value q val h)
      else if \<not> IsValid val then
        (HandleInvalidValue ''value to set is invalid'', destroy_Value q val h)
      else if Impl_Context this \<noteq> Impl_Context val then
        (HandleContextMismatch, destroy_Value q val h)
      else (case (this, val) of
          (Some im, Some vim) \<Rightarrow>
            (let ctx = the (impl_context im); (released, vim') = Release q vim in
             case JS_SetPropertyUint32 q ctx (impl_value im) index released h of (r, h1) \<Rightarrow>
               if r < 0 then (case GetExceptionMessage q ctx h1 of (msg, h2) \<Rightarrow>
                 (Unexpected (qjs_error SetElementFailed msg), destroy_Value q (Some vim') h2))
               else (Inr (), destroy_Value q (Some vim') h1))
        | _ \<Rightarrow> (HandleInvalidValue ''target is invalid'', destroy_Value q val h)))"

definition GetElement ::
    "('h, 'v) quickjs \<Rightarrow> 'v Value \<Rightarrow> 32 word \<Rightarrow> 'h \<Rightarrow> 'v Value result \<times> 'h" where
  "GetElement q v index h =
     (if IsValid v \<and> \<not> IsArray q v then (HandleInvalidValue ''target is not an array'', h)
      else with_handle v
        (\<lambda>ctx x. case JS_GetPropertyUint32 q ctx x index h of (p, h1) \<Rightarrow>
           if JS_IsException q p then js_exception q GetElementFailed ctx p h1
           else AdoptValue q ctx p h1)
        (HandleInvalidValue ''target is invalid'', h))"

text \<open>
  The length comes back as a signed 32-bit value and is converted to an unsigned one: the
  same bits. \<open>adopted_length\<close> is the part after the adoption of the property value.
\<close>

definition adopted_length ::
    "('h, 'v) quickjs \<Rightarrow> 'v Value result \<times> 'h \<Rightarrow> (32 word) result \<times> 'h" where
  "adopted_length q r = (case r of
     (Inl e, h2) \<Rightarrow> (Unexpected e, h2)
   | (Inr adopted, h2) \<Rightarrow>
       if \<not> IsNumber q adopted then
         (Unexpected (qjs_error JsInternalError ''array length is not a number''),
          destroy_Value q adopted h2)
       else (case ToInt32 q adopted h2 of
           (Inl e, h3) \<Rightarrow> (Unexpected e, destroy_Value q adopted h3)
         | (Inr i, h3) \<Rightarrow> (Inr i, destroy_Value q adopted h3)))"

definition ArrayLength :: "('h, 'v) quickjs \<Rightarrow> 'v Value \<Rightarrow> 'h \<Rightarrow> (32 word) result \<times> 'h" where
  "ArrayLength q v h =
     (if IsValid v \<and> \<not> IsArray q v then (HandleInvalidValue ''target is not an array'', h)
      else with_handle v
        (\<lambda>ctx x. case JS_GetPropertyStr q ctx x ''length'' h of (p, h1) \<Rightarrow>
           if JS_IsException q p then js_exception q GetPropertyFailed ctx p h1
           else adopted_length q (AdoptValue q ctx p h1))
        (HandleInvalidValue ''target is invalid'', h))"

section \<open>Evaluator\<close>

definition kDefaultFileName :: string where
  "kDefaultFileName = ''<proxypp-qjs>''"

definition Eval ::
    "('h, 'v) quickjs \<Rightarrow> Context \<Rightarrow> string \<Rightarrow> string \<Rightarrow> 'h \<Rightarrow> 'v Value result \<times> 'h" where
  "Eval q context e file_name h = (case Context_GetNativeHandle context of
     None \<Rightarrow> (Unexpected (qjs_error InvalidContext []), h)
   | Some ctx \<Rightarrow> (case JS_Eval q ctx e (c_str file_name) h of (v, h1) \<Rightarrow>
       if JS_IsException q v then
         (case GetExceptionMessage q ctx h1 of (msg, h2) \<Rightarrow>
            (Unexpected (qjs_error ExecuteScriptFailed (msg @ '', from '' @ file_name)),
             JS_FreeValue q ctx v h2))
       else AdoptValue q ctx v h1))"

section \<open>ObjectBuilder\<close>

record 'v ObjectBuilder =
  ob_context :: Context
  ob_object :: "'v Value"
  ob_error :: "Error option"

definition ObjectBuilder_Create ::
    "('h, 'v) quickjs \<Rightarrow> Context \<Rightarrow> 'h \<Rightarrow> 'v ObjectBuilder result \<times> 'h" where
  "ObjectBuilder_Create q context h = (case Value_Object q context h of
     (Inl e, h1) \<Rightarrow> (Unexpected e, h1)
   | (Inr obj, h1) \<Rightarrow> (Inr \<lparr>ob_context = context, ob_object = obj, ob_error = None\<rparr>, h1))"

definition destroy_ObjectBuilder :: "('h, 'v) quickjs \<Rightarrow> 'v ObjectBuilder \<Rightarrow> 'h \<Rightarrow> 'h" where
  "destroy_ObjectBuilder q b h = destroy_Value q (ob_object b) h"

definition Builder_SetProperty ::
    "('h, 'v) quickjs \<Rightarrow> string \<Rightarrow> 'v Value \<Rightarrow> 'v ObjectBuilder \<Rightarrow> 'h \<Rightarrow> 'v ObjectBuilder \<times> 'h" where
  "Builder_SetProperty q name val b h =
     (case SetProperty q (ob_object b) name val h of
        (Inl e, h1) \<Rightarrow>
          (b\<lparr>ob_error := Some (qjs_error SetPropertyFailed
             (''set property '' @ [CHR 0x27] @ name @ [CHR 0x27] @ '' failed, '' @ message e))\<rparr>, h1)
      | (Inr _, h1) \<Rightarrow> (b, h1))"

text \<open>The step \<open>SetString\<close>, \<open>SetBool\<close>, \<open>SetInt32\<close> and \<open>SetNull\<close> share, on the value they create.\<close>

definition builder_set_created ::
    "('h, 'v) quickjs \<Rightarrow> string \<Rightarrow> ('h \<Rightarrow> 'v Value result \<times> 'h) \<Rightarrow> 'v ObjectBuilder \<Rightarrow> 'h \<Rightarrow>
     'v ObjectBuilder \<times> 'h" where
  "builder_set_created q name create b h =
     (if ob_error b \<noteq> None then (b, h)
      else (case create h of
          (Inl e, h1) \<Rightarrow> (b\<lparr>ob_error := Some e\<rparr>, h1)
        | (Inr v, h1) \<Rightarrow> Builder_SetProperty q name v b h1))"

definition SetString ::
    "('h, 'v) quickjs \<Rightarrow> string \<Rightarrow> string \<Rightarrow> 'v ObjectBuilder \<Rightarrow> 'h \<Rightarrow> 'v ObjectBuilder \<times> 'h" where
  "SetString q name s b h = builder_set_created q name (Value_String q (ob_context b) s) b h"

definition SetBool ::
    "('h, 'v) quickjs \<Rightarrow> string \<Rightarrow> bool \<Rightarrow> 'v ObjectBuilder \<Rightarrow> 'h \<Rightarrow> 'v ObjectBuilder \<times> 'h" where
  "SetBool q name x b h = builder_set_created q name (Value_Bool q (ob_context b) x) b h"

definition SetInt32 ::
    "('h, 'v) quickjs \<Rightarrow> string \<Rightarrow> 32 word \<Rightarrow> 'v ObjectBuilder \<Rightarrow> 'h \<Rightarrow> 'v ObjectBuilder \<times> 'h" where
  "SetInt32 q name i b h = builder_set_created q name (Value_Int32 q (ob_context b) i) b h"

definition SetNull ::
    "('h, 'v) quickjs \<Rightarrow> string \<Rightarrow> 'v ObjectBuilder \<Rightarrow> 'h \<Rightarrow> 'v ObjectBuilder \<times> 'h" where
  "SetNull q name b h = builder_set_created q name (Value_Null q (ob_context b)) b h"

definition SetObject ::
    "('h, 'v) quickjs \<Rightarrow> string \<Rightarrow> 'v Value \<Rightarrow> 'v ObjectBuilder \<Rightarrow> 'h \<Rightarrow> 'v ObjectBuilder \<times> 'h" where
  "SetObject q name obj b h =
     (if ob_error b \<noteq> None then (b, destroy_Value q obj h)
      else if \<not> IsValid obj \<or> \<not> IsObject q obj then
        (b\<lparr>ob_error := Some (qjs_error InvalidValue ''set object failed, value is not a valid object'')\<rparr>,
         destroy_Value q obj h)
      else Builder_SetProperty q name obj b h)"

definition SetValue ::
    "('h, 'v) quickjs \<Rightarrow> string \<Rightarrow> 'v Value \<Rightarrow> 'v ObjectBuilder \<Rightarrow> 'h \<Rightarrow> 'v ObjectBuilder \<times> 'h" where
  "SetValue q name val b h =
     (if ob_error b \<noteq> None then (b, destroy_Value q val h)
      else if \<not> IsValid val then
        (b\<lparr>ob_error := Some (qjs_error InvalidValue ''set value failed, value is not valid'')\<rparr>,
         destroy_Value q val h)
      else Builder_SetProperty q name val b h)"

text \<open>\<open>Build\<close> moves the object out; the builder is left for its destructor.\<close>

definition Build :: "'v ObjectBuilder \<Rightarrow> 'v Value result \<times> 'v ObjectBuilder" where
  "Build b = (case ob_error b of
     Some e \<Rightarrow> (Unexpected e, b)
   | None \<Rightarrow> (Inr (ob_object b), b\<lparr>ob_object := None\<rparr>))"

end
