(* ===== verification/Qjs_Ownership.thy ===== *)
theory Qjs_Ownership
  imports Qjs_Value
begin

text \<open>
  Reference counting. \<open>owned h\<close> is the number of references (values, C strings, contexts,
  runtimes) that QuickJS has handed to the host program and that the host has still to give
  back. The locale \<open>quickjs_refs\<close> states what each call of the API does to it, as the
  QuickJS documentation does; a value whose tag is not reference counted counts for nothing.
  \<open>own_value\<close> is the reference a \<open>Value\<close> holds. The lemmas balance the two for every
  operation of the wrapper, on every path: a leak or a double free would break the balance.
\<close>

section \<open>What a value holds\<close>

definition own_value :: "('v \<Rightarrow> bool) \<Rightarrow> 'v Value \<Rightarrow> int" where
  "own_value counted v = (case v of None \<Rightarrow> 0
     | Some im \<Rightarrow> if owns_value im \<and> impl_context im \<noteq> None
         then of_bool (counted (impl_value im)) else 0)"

definition own_result :: "('v \<Rightarrow> bool) \<Rightarrow> 'v Value result \<Rightarrow> int" where
  "own_result counted r = (case r of Inl _ \<Rightarrow> 0 | Inr v \<Rightarrow> own_value counted v)"

definition own_builder :: "('v \<Rightarrow> bool) \<Rightarrow> 'v ObjectBuilder \<Rightarrow> int" where
  "own_builder counted b = own_value counted (ob_object b)"

definition own_builder_result :: "('v \<Rightarrow> bool) \<Rightarrow> 'v ObjectBuilder result \<Rightarrow> int" where
  "own_builder_result counted r = (case r of Inl _ \<Rightarrow> 0 | Inr b \<Rightarrow> own_builder counted b)"

definition own_context :: "Context \<Rightarrow> int" where
  "own_context c = (case ctx_handle c of None \<Rightarrow> 0 | Some _ \<Rightarrow> 1)"

definition own_runtime :: "Runtime \<Rightarrow> int" where
  "own_runtime r = (case rt_handle r of None \<Rightarrow> 0 | Some _ \<Rightarrow> 1)"

lemmas own_simps = own_value_def own_result_def own_builder_def own_builder_result_def
  own_context_def own_runtime_def

section \<open>The contract of QuickJS\<close>

locale quickjs_refs =
  fixes q :: "('h, 'v) quickjs" and owned :: "'h \<Rightarrow> int" and counted :: "'v \<Rightarrow> bool"
  assumes uncounted: "\<not> counted (JS_UNDEFINED q)" "\<not> counted (JS_NULL q)"
      "\<not> counted (JS_NewBool q b)" "\<not> counted (JS_NewInt32 q i)"
      "JS_IsException q v \<Longrightarrow> \<not> counted v"
    and gives: "owned (snd (JS_GetGlobalObject q c h)) = owned h + of_bool (counted (fst (JS_GetGlobalObject q c h)))"
      "owned (snd (JS_NewStringLen q c s h)) = owned h + of_bool (counted (fst (JS_NewStringLen q c s h)))"
      "owned (snd (JS_NewObject q c h)) = owned h + of_bool (counted (fst (JS_NewObject q c h)))"
      "owned (snd (JS_NewArray q c h)) = owned h + of_bool (counted (fst (JS_NewArray q c h)))"
      "owned (snd (JS_GetException q c h)) = owned h + of_bool (counted (fst (JS_GetException q c h)))"
      "owned (snd (JS_GetPropertyStr q c v s h)) = owned h + of_bool (counted (fst (JS_GetPropertyStr q c v s h)))"
      "owned (snd (JS_GetPropertyUint32 q c v i h)) = owned h + of_bool (counted (fst (JS_GetPropertyUint32 q c v i h)))"
      "owned (snd (JS_Eval q c s f h)) = owned h + of_bool (counted (fst (JS_Eval q c s f h)))"
    and takes: "owned (JS_FreeValue q c v h) = owned h - of_bool (counted v)"
      "owned (snd (JS_SetPropertyStr q c v s w h)) = owned h - of_bool (counted w)"
      "owned (snd (JS_SetPropertyUint32 q c v i w h)) = owned h - of_bool (counted w)"
    and reads: "owned (snd (JS_ToBool q c v h)) = owned h" "owned (snd (JS_ToInt32 q c v h)) = owned h"
    and cstrings: "owned (snd (JS_ToCString q c v h)) = owned h + of_bool (fst (JS_ToCString q c v h) \<noteq> None)"
      "owned (snd (JS_ToCStringLen q c v h)) = owned h + of_bool (fst (JS_ToCStringLen q c v h) \<noteq> None)"
      "owned (JS_FreeCString q c s h) = owned h - 1"
    and contexts: "owned (snd (JS_NewContext q r h)) = owned h + of_bool (fst (JS_NewContext q r h) \<noteq> None)"
      "owned (JS_FreeContext q c h) = owned h - 1"
    and runtimes: "owned (snd (JS_NewRuntime q h)) = owned h + of_bool (fst (JS_NewRuntime q h) \<noteq> None)"
      "owned (JS_FreeRuntime q c h) = owned h - 1"
begin

lemmas ref_laws = uncounted gives takes reads cstrings contexts runtimes

lemma GetExceptionMessage_balance [simp]: "owned (snd (GetExceptionMessage q c h)) = owned h"
  by (auto simp: GetExceptionMessage_def case_prod_beta ref_laws split: option.split)

lemma GetExceptionMessage_eq_balance: "GetExceptionMessage q c h = (msg, h') \<Longrightarrow> owned h' = owned h"
  using GetExceptionMessage_balance [of c h] by simp

lemma destroy_balance [simp]:
  "owned (destroy_Value q v h) = owned h - own_value counted v"
  "owned (destroy_result q r h) = owned h - own_result counted r"
  "owned (destroy_ObjectBuilder q b h) = owned h - own_builder counted b"
  "owned (destroy_Context q x h) = owned h - own_context x"
  "owned (destroy_Runtime q y h) = owned h - own_runtime y"
  by (auto simp: destroy_Value_def destroy_Impl_def destroy_result_def destroy_ObjectBuilder_def
      destroy_Context_def destroy_Runtime_def own_simps ref_laws split: option.split sum.split)

lemma AdoptValue_balance:
  "owned (snd (AdoptValue q c v h)) + of_bool (counted v) = owned h + own_result counted (fst (AdoptValue q c v h))"
  by (simp add: AdoptValue_def new_Impl_def own_simps ref_laws)

lemma js_exception_balance:
  "owned (snd (js_exception q e c v h)) = owned h - of_bool (counted v)"
  by (simp add: js_exception_def case_prod_beta ref_laws)

lemma own_js_exception [simp]:
  "own_result counted (fst (js_exception q e c v h)) = 0"
  by (simp add: js_exception_def case_prod_beta own_result_def)

text \<open>The end of a factory or getter: an exception is reported, a value is adopted.\<close>

lemma adopt_or_fail_balance:
  assumes "owned h1 = owned h + of_bool (counted v)"
  shows "owned (snd (if JS_IsException q v then js_exception q e c v h1 else AdoptValue q c v h1)) =
    owned h + own_result counted
      (fst (if JS_IsException q v then js_exception q e c v h1 else AdoptValue q c v h1))"
  using assms AdoptValue_balance [of c v h1] by (simp add: js_exception_balance ref_laws)

lemma AdoptValue_uncounted_balance:
  "\<not> counted v \<Longrightarrow> owned (snd (AdoptValue q c v h)) = owned h + own_result counted (fst (AdoptValue q c v h))"
  using AdoptValue_balance [of c v h] by simp

lemma factories_balance:
  "owned (snd (GlobalObject q x h)) = owned h + own_result counted (fst (GlobalObject q x h))"
  "owned (snd (Value_Undefined q x h)) = owned h + own_result counted (fst (Value_Undefined q x h))"
  "owned (snd (Value_Null q x h)) = owned h + own_result counted (fst (Value_Null q x h))"
  "owned (snd (Value_Bool q x b h)) = owned h + own_result counted (fst (Value_Bool q x b h))"
  "owned (snd (Value_Int32 q x i h)) = owned h + own_result counted (fst (Value_Int32 q x i h))"
  "owned (snd (Value_String q x s h)) = owned h + own_result counted (fst (Value_String q x s h))"
  "owned (snd (Value_Object q x h)) = owned h + own_result counted (fst (Value_Object q x h))"
  "owned (snd (Value_Array q x h)) = owned h + own_result counted (fst (Value_Array q x h))"
  unfolding GlobalObject_def Value_Undefined_def Value_Null_def Value_Bool_def Value_Int32_def
    Value_String_def Value_Object_def Value_Array_def
  by (auto simp: case_prod_beta own_result_def [where r = "Inl _"] AdoptValue_uncounted_balance uncounted
      adopt_or_fail_balance gives split: option.split simp del: if_split)

lemma conversions_balance:
  "owned (snd (ToBool q v h)) = owned h" "owned (snd (ToInt32 q v h)) = owned h"
  "owned (snd (ToString q v h)) = owned h"
  by (auto simp: ToBool_def ToInt32_def ToString_def with_handle_def case_prod_beta ref_laws
      split: option.split)

lemma getters_balance:
  "owned (snd (GetProperty q v n h)) = owned h + own_result counted (fst (GetProperty q v n h))"
  "owned (snd (GetElement q v i h)) = owned h + own_result counted (fst (GetElement q v i h))"
  unfolding GetProperty_def GetElement_def with_handle_def HandleInvalidValue_def
  by (auto simp: case_prod_beta own_result_def [where r = "Inl _"] adopt_or_fail_balance gives
      split: option.split simp del: if_split)

text \<open>A released value is QuickJS's to free, any other is freed by its destructor.\<close>

lemma own_released [simp]: "own_value counted (Some (snd (Release q im))) = 0"
  by (simp add: own_value_def Release_def)

lemma setters_balance:
  "owned (snd (SetProperty q v n w h)) = owned h - own_value counted w"
  "owned (snd (SetElement q v i w h)) = owned h - own_value counted w"
  unfolding SetProperty_def SetElement_def
  by (auto simp: case_prod_beta Let_def own_value_def [where v = "Some _"] Release_def ref_laws
      IsValid_def Impl_IsValid_def split: option.split)

lemma adopt_balance:
  "owned h1 = owned h + of_bool (counted v) \<Longrightarrow>
   owned (snd (AdoptValue q c v h1)) = owned h + own_result counted (fst (AdoptValue q c v h1))"
  using AdoptValue_balance [of c v h1] by simp

lemma adopted_length_balance: "owned (snd (adopted_length q r)) = owned (snd r) - own_result counted (fst r)"
proof (cases r)
  case (Pair x h2)
  show ?thesis
  proof (cases x)
    case (Inr v)
    with Pair conversions_balance(2) [of v h2] show ?thesis
      by (auto simp: adopted_length_def own_result_def split: prod.split sum.split)
  qed (simp add: Pair adopted_length_def own_result_def)
qed

lemma ArrayLength_balance: "owned (snd (ArrayLength q v h)) = owned h"
  unfolding ArrayLength_def with_handle_def
  by (auto simp: case_prod_beta adopted_length_balance adopt_balance [OF gives(6)]
      js_exception_balance gives split: option.split)

lemma Eval_balance: "owned (snd (Eval q x e f h)) = owned h + own_result counted (fst (Eval q x e f h))"
  by (auto simp: Eval_def case_prod_beta ref_laws own_result_def [where r = "Inl _"]
      adopt_balance [OF gives(8)] split: option.split)

lemma ObjectBuilder_Create_balance:
  "owned (snd (ObjectBuilder_Create q x h)) =
     owned h + own_builder_result counted (fst (ObjectBuilder_Create q x h))"
  using factories_balance(7) [of x h]
  by (auto simp: ObjectBuilder_Create_def case_prod_beta own_builder_result_def own_builder_def
      own_result_def split: sum.split)

lemma Builder_SetProperty_balance:
  "owned (snd (Builder_SetProperty q n w b h)) = owned h - own_value counted w"
  "own_builder counted (fst (Builder_SetProperty q n w b h)) = own_builder counted b"
  using setters_balance(1) [of "ob_object b" n w h]
  by (auto simp: Builder_SetProperty_def case_prod_beta own_builder_def split: sum.split)

lemma builder_set_created_balance:
  assumes "\<And>h. owned (snd (create h)) = owned h + own_result counted (fst (create h))"
  shows "owned (snd (builder_set_created q n create b h)) = owned h"
    "own_builder counted (fst (builder_set_created q n create b h)) = own_builder counted b"
  using assms [of h] Builder_SetProperty_balance
  by (auto simp: builder_set_created_def case_prod_beta own_builder_def own_result_def split: sum.split)

lemma builder_ops_balance [simp]:
  "owned (snd (SetString q n s b h)) = owned h"
  "own_builder counted (fst (SetString q n s b h)) = own_builder counted b"
  "owned (snd (SetBool q n x b h)) = owned h"
  "own_builder counted (fst (SetBool q n x b h)) = own_builder counted b"
  "owned (snd (SetInt32 q n i b h)) = owned h"
  "own_builder counted (fst (SetInt32 q n i b h)) = own_builder counted b"
  "owned (snd (SetNull q n b h)) = owned h"
  "own_builder counted (fst (SetNull q n b h)) = own_builder counted b"
  "owned (snd (SetObject q n w b h)) = owned h - own_value counted w"
  "own_builder counted (fst (SetObject q n w b h)) = own_builder counted b"
  "owned (snd (SetValue q n w b h)) = owned h - own_value counted w"
  "own_builder counted (fst (SetValue q n w b h)) = own_builder counted b"
  unfolding SetString_def SetBool_def SetInt32_def SetNull_def SetObject_def SetValue_def
  by (simp_all add: builder_set_created_balance factories_balance Builder_SetProperty_balance)
     (simp_all add: own_builder_def)

lemma Build_balance:
  "own_result counted (fst (Build b)) + own_builder counted (snd (Build b)) = own_builder counted b"
  by (auto simp: Build_def own_simps split: option.split)

lemma create_balance:
  "owned (snd (Context_Create q y h)) =
     owned h + (case fst (Context_Create q y h) of Inl _ \<Rightarrow> 0 | Inr c \<Rightarrow> own_context c)"
  "owned (snd (Runtime_Create q h)) =
     owned h + (case fst (Runtime_Create q h) of Inl _ \<Rightarrow> 0 | Inr r \<Rightarrow> own_runtime r)"
  using contexts(1) [of "Runtime_GetNativeHandle y" h] runtimes(1) [of h]
  by (auto simp: Context_Create_def Runtime_Create_def case_prod_beta own_context_def own_runtime_def
      split: option.split)

end

section \<open>A small engine\<close>

text \<open>
  An engine that keeps the contract: objects are property lists, the address of a context is
  that of its global object, and the evaluator is a parameter. It allocates without failing.
\<close>

datatype jsval = JUndefined | JNull | JException | JBool bool | JInt "32 word" | JString string
  | JObject nat | JArray nat

record jsheap =
  live :: int
  objects :: "(string \<times> jsval) list list"
  pending :: jsval

fun js_counted :: "jsval \<Rightarrow> bool" where
  "js_counted (JString _) = True"
| "js_counted (JObject _) = True"
| "js_counted (JArray _) = True"
| "js_counted _ = False"

definition js_give :: "jsval \<Rightarrow> jsheap \<Rightarrow> jsval \<times> jsheap" where
  "js_give v h = (v, h\<lparr>live := live h + of_bool (js_counted v)\<rparr>)"

definition js_take :: "jsval \<Rightarrow> jsheap \<Rightarrow> jsheap" where
  "js_take v h = h\<lparr>live := live h - of_bool (js_counted v)\<rparr>"

definition js_alloc :: "(nat \<Rightarrow> jsval) \<Rightarrow> jsheap \<Rightarrow> jsval \<times> jsheap" where
  "js_alloc mk h = js_give (mk (length (objects h))) (h\<lparr>objects := objects h @ [[]]\<rparr>)"

definition js_lookup :: "jsheap \<Rightarrow> jsval \<Rightarrow> string \<Rightarrow> jsval" where
  "js_lookup h v n = (case v of
     JObject i \<Rightarrow> (if i < length (objects h) then
       (case map_of (objects h ! i) n of Some x \<Rightarrow> x | None \<Rightarrow> JUndefined) else JUndefined)
   | _ \<Rightarrow> JUndefined)"

definition js_store :: "jsval \<Rightarrow> string \<Rightarrow> jsval \<Rightarrow> jsheap \<Rightarrow> int \<times> jsheap" where
  "js_store v n w h = (case v of
     JObject i \<Rightarrow> (1, js_take w (h\<lparr>objects := (objects h)[i := (n, w) # (if i < length (objects h)
        then objects h ! i else [])]\<rparr>))
   | _ \<Rightarrow> (- 1, js_take w (h\<lparr>pending := JString ''not an object''\<rparr>)))"

definition js_text :: "jsval \<Rightarrow> string" where
  "js_text v = (case v of JString s \<Rightarrow> s | _ \<Rightarrow> ''value'')"

definition mini_js :: "(jsheap \<Rightarrow> addr \<Rightarrow> string \<Rightarrow> jsval) \<Rightarrow> (jsheap, jsval) quickjs" where
  "mini_js ev = \<lparr>
     JS_NewRuntime = (\<lambda>h. (Some 0, h\<lparr>live := live h + 1\<rparr>)),
     JS_FreeRuntime = (\<lambda>r h. h\<lparr>live := live h - 1\<rparr>),
     JS_NewContext = (\<lambda>r h. (Some (length (objects h)),
       h\<lparr>objects := objects h @ [[]], live := live h + 1\<rparr>)),
     JS_FreeContext = (\<lambda>c h. h\<lparr>live := live h - 1\<rparr>),
     JS_FreeValue = (\<lambda>c v h. js_take v h),
     JS_UNDEFINED = JUndefined, JS_NULL = JNull,
     JS_IsException = (\<lambda>v. v = JException),
     JS_IsUndefined = (\<lambda>v. v = JUndefined),
     JS_IsNull = (\<lambda>v. v = JNull),
     JS_IsNumber = (\<lambda>v. case v of JInt _ \<Rightarrow> True | _ \<Rightarrow> False),
     JS_IsBool = (\<lambda>v. v = JBool True \<or> v = JBool False),
     JS_IsString = (\<lambda>v. case v of JString _ \<Rightarrow> True | _ \<Rightarrow> False),
     JS_IsObject = (\<lambda>v. case v of JObject _ \<Rightarrow> True | JArray _ \<Rightarrow> True | _ \<Rightarrow> False),
     JS_IsArray = (\<lambda>v. case v of JArray _ \<Rightarrow> True | _ \<Rightarrow> False),
     JS_GetGlobalObject = (\<lambda>c h. js_give (JObject c) h),
     JS_NewBool = JBool, JS_NewInt32 = JInt,
     JS_NewStringLen = (\<lambda>c s h. js_give (JString s) h),
     JS_NewObject = (\<lambda>c h. js_alloc JObject h),
     JS_NewArray = (\<lambda>c h. js_alloc JArray h),
     JS_ToBool = (\<lambda>c v h. (of_bool (v = JBool True), h)),
     JS_ToInt32 = (\<lambda>c v h. (case v of JInt i \<Rightarrow> ((0, i), h) | _ \<Rightarrow> ((- 1, 0), h))),
     JS_ToCString = (\<lambda>c v h. (Some (c_str (js_text v)), h\<lparr>live := live h + 1\<rparr>)),
     JS_ToCStringLen = (\<lambda>c v h. (Some (js_text v), h\<lparr>live := live h + 1\<rparr>)),
     JS_FreeCString = (\<lambda>c s h. h\<lparr>live := live h - 1\<rparr>),
     JS_GetException = (\<lambda>c h. js_give (pending h) (h\<lparr>pending := JUndefined\<rparr>)),
     JS_GetPropertyStr = (\<lambda>c v n h. js_give (js_lookup h v n) h),
     JS_SetPropertyStr = (\<lambda>c v n w h. js_store v n w h),
     JS_GetPropertyUint32 = (\<lambda>c v i h. js_give JUndefined h),
     JS_SetPropertyUint32 = (\<lambda>c v i w h. (1, js_take w h)),
     JS_Eval = (\<lambda>c e f h. js_give (ev h c e) h),
     nothrow_new = (\<lambda>h. True)\<rparr>"

lemma js_heap_ops [simp]:
  "live (js_take v h) = live h - of_bool (js_counted v)"
  "live (snd (js_give v h)) = live h + of_bool (js_counted v)" "fst (js_give v h) = v"
  "live (snd (js_store v n w h)) = live h - of_bool (js_counted w)"
  by (simp_all add: js_take_def js_give_def js_store_def split: jsval.split)

interpretation mini: quickjs_refs "mini_js ev" live js_counted for ev
  by unfold_locales (auto simp: mini_js_def js_alloc_def split: jsval.split)

lemma valid_same_context:
  assumes "IsObject q v \<and> IsValid w \<and> Impl_Context v = Impl_Context w"
  obtains c o' w' where "v = Some (new_Impl c o')" "w = Some (new_Impl c w')"
proof -
  from assms obtain vi wi where vw: "v = Some vi" "w = Some wi"
    by (cases v; cases w) (auto simp: IsObject_def js_test_def IsValid_def)
  with assms obtain c where "impl_context vi = Some c" "owns_value vi" "impl_context wi = Some c" "owns_value wi"
    by (auto simp: IsObject_def js_test_def IsValid_def Impl_IsValid_def Impl_Context_def)
  then have "vi = new_Impl c (impl_value vi)" "wi = new_Impl c (impl_value wi)"
    by (simp_all add: new_Impl_def)
  with that vw show thesis by metis
qed

section \<open>Properties\<close>

text \<open>
  C20. Ownership in the script wrapper, for every engine that keeps the reference-counting
  contract and on every path, failures included: a factory, a getter and the evaluator give
  the program exactly the reference the returned \<open>Value\<close> holds (none when they fail), a
  setter takes exactly the reference of the value passed to it, whether it succeeds or not,
  and conversions take none. So nothing leaks and nothing is freed twice.
\<close>

theorem value_ownership:
  fixes q :: "('h, 'v) quickjs"
  assumes "quickjs_refs q owned counted"
  shows "owned (snd (GlobalObject q x h)) = owned h + own_result counted (fst (GlobalObject q x h)) \<and>
    owned (snd (Value_String q x s h)) = owned h + own_result counted (fst (Value_String q x s h)) \<and>
    owned (snd (Value_Object q x h)) = owned h + own_result counted (fst (Value_Object q x h)) \<and>
    owned (snd (Value_Array q x h)) = owned h + own_result counted (fst (Value_Array q x h)) \<and>
    owned (snd (Eval q x e f h)) = owned h + own_result counted (fst (Eval q x e f h)) \<and>
    owned (snd (GetProperty q v n h)) = owned h + own_result counted (fst (GetProperty q v n h)) \<and>
    owned (snd (GetElement q v i h)) = owned h + own_result counted (fst (GetElement q v i h)) \<and>
    owned (snd (SetProperty q v n w h)) = owned h - own_value counted w \<and>
    owned (snd (SetElement q v i w h)) = owned h - own_value counted w \<and>
    owned (snd (ArrayLength q v h)) = owned h \<and> owned (snd (ToBool q v h)) = owned h \<and>
    owned (snd (ToInt32 q v h)) = owned h \<and> owned (snd (ToString q v h)) = owned h \<and>
    owned (destroy_Value q v h) = owned h - own_value counted v"
  by (intro conjI quickjs_refs.factories_balance [OF assms] quickjs_refs.getters_balance [OF assms]
      quickjs_refs.setters_balance [OF assms] quickjs_refs.conversions_balance [OF assms]
      quickjs_refs.ArrayLength_balance [OF assms] quickjs_refs.Eval_balance [OF assms]
      quickjs_refs.destroy_balance(1) [OF assms])

theorem value_ownership_witness:
  "live (snd (SetProperty (mini_js (\<lambda>_ _ _. JNull)) (Some (new_Impl 0 JNull)) ''a''
      (Some (new_Impl 0 (JString ''x''))) \<lparr>live = 1, objects = [], pending = JUndefined\<rparr>)) = 0"
  using value_ownership [OF mini.quickjs_refs_axioms]
  by (simp add: own_value_def new_Impl_def)

text \<open>
  The error branches of \<open>SetProperty\<close>: it calls QuickJS only for a valid object of the
  same context as a valid value; otherwise it fails with \<open>InvalidValue\<close> or
  \<open>ContextMismatch\<close>, in the order target, kind of target, value, context, and the only
  effect on the engine is that the value is freed. When QuickJS fails the error is
  \<open>SetPropertyFailed\<close>.
\<close>

theorem SetProperty_branches:
  "(\<not> IsValid v \<or> \<not> IsObject q v \<or> \<not> IsValid w \<longrightarrow>
     (\<exists>e. SetProperty q v n w h = (Inl e, destroy_Value q w h) \<and> code e = qjs_make_error_code InvalidValue)) \<and>
   (IsObject q v \<and> IsValid w \<and> Impl_Context v \<noteq> Impl_Context w \<longrightarrow>
     (\<exists>e. SetProperty q v n w h = (Inl e, destroy_Value q w h) \<and> code e = qjs_make_error_code ContextMismatch)) \<and>
   (IsObject q v \<and> IsValid w \<and> Impl_Context v = Impl_Context w \<longrightarrow>
     (\<exists>c o' w' r h1. v = Some (new_Impl c o') \<and> w = Some (new_Impl c w') \<and>
        JS_SetPropertyStr q c o' (c_str n) w' h = (r, h1) \<and>
        (if r < 0 then (\<exists>e. SetProperty q v n w h = (Inl e, snd (GetExceptionMessage q c h1)) \<and>
             code e = qjs_make_error_code SetPropertyFailed)
         else SetProperty q v n w h = (Inr (), h1))))"
proof (intro conjI impI)
  assume *: "IsObject q v \<and> IsValid w \<and> Impl_Context v = Impl_Context w"
  then obtain c o' w' where vw: "v = Some (new_Impl c o')" "w = Some (new_Impl c w')"
    by (rule valid_same_context)
  then have "SetProperty q v n w h = (case JS_SetPropertyStr q c o' (c_str n) w' h of (r, h1) \<Rightarrow>
      if r < 0 then (case GetExceptionMessage q c h1 of (msg, h2) \<Rightarrow>
        (Inl (qjs_error SetPropertyFailed msg), h2)) else (Inr (), h1))"
    using * by (simp add: SetProperty_def js_test_def IsObject_def Release_def destroy_Value_def
        destroy_Impl_def new_Impl_def case_prod_beta)
  moreover obtain r h1 where "JS_SetPropertyStr q c o' (c_str n) w' h = (r, h1)"
    by (cases "JS_SetPropertyStr q c o' (c_str n) w' h")
  ultimately have "v = Some (new_Impl c o') \<and> w = Some (new_Impl c w') \<and>
      JS_SetPropertyStr q c o' (c_str n) w' h = (r, h1) \<and>
      (if r < 0 then (\<exists>e. SetProperty q v n w h = (Inl e, snd (GetExceptionMessage q c h1)) \<and>
           code e = qjs_make_error_code SetPropertyFailed)
       else SetProperty q v n w h = (Inr (), h1))"
    using vw by (simp add: case_prod_beta)
  then show "\<exists>c o' w' r h1. v = Some (new_Impl c o') \<and> w = Some (new_Impl c w') \<and>
      JS_SetPropertyStr q c o' (c_str n) w' h = (r, h1) \<and>
      (if r < 0 then (\<exists>e. SetProperty q v n w h = (Inl e, snd (GetExceptionMessage q c h1)) \<and>
           code e = qjs_make_error_code SetPropertyFailed)
       else SetProperty q v n w h = (Inr (), h1))"
    by (intro exI)
qed (auto simp: SetProperty_def HandleInvalidValue_def HandleContextMismatch_def IsObject_def js_test_def)

theorem SetProperty_branches_witness:
  "\<exists>e. SetProperty (mini_js (\<lambda>_ _ _. JNull)) (Some (new_Impl 0 (JObject 0))) ''a''
      (Some (new_Impl 1 (JString ''x''))) \<lparr>live = 1, objects = [[]], pending = JUndefined\<rparr> =
      (Inl e, \<lparr>live = 0, objects = [[]], pending = JUndefined\<rparr>) \<and>
    code e = qjs_make_error_code ContextMismatch"
proof -
  let ?q = "mini_js (\<lambda>_ _ _. JNull)"
  let ?v = "Some (new_Impl 0 (JObject 0))" and ?w = "Some (new_Impl 1 (JString ''x''))"
  let ?h = "\<lparr>live = 1, objects = [[]], pending = JUndefined\<rparr>"
  have "IsObject ?q ?v" "IsValid ?w" "Impl_Context ?v \<noteq> Impl_Context ?w"
    by (simp_all add: IsObject_def js_test_def IsValid_def Impl_IsValid_def Impl_Context_def new_Impl_def
        mini_js_def)
  moreover have "destroy_Value ?q ?w ?h = \<lparr>live = 0, objects = [[]], pending = JUndefined\<rparr>"
    by (simp add: destroy_Value_def destroy_Impl_def new_Impl_def mini_js_def js_take_def)
  ultimately show ?thesis
    using SetProperty_branches [of ?v ?q ?w "''a''" ?h] by auto
qed

end
