(* ===== verification/Rule_Engine.thy ===== *)
theory Rule_Engine
  imports Rule_Actions Qjs_Ownership "HOL-Library.Sublist"
begin

text \<open>
  The rule engine: \<open>MatchContext\<close>, the injection of request and response data into a script
  context (\<open>rule/http/context_injector.cpp\<close>), the protocol-independent loop \<open>ApplyRules\<close>
  (\<open>rule/rule_engine.h\<close>) with its callbacks as arguments, and \<open>ApplyRequest\<close> and
  \<open>ApplyResponse\<close> (\<open>rule/http/apply.cpp\<close>), which instantiate it.

  The callbacks that change the adapter return it changed; the injector sees the adapter as
  the earlier rules left it. The lemmas relate the loop to a reference definition
  (\<open>run_rules\<close>), and say which actions ran (\<open>ApplyRules_trace\<close>), that contexts and values
  are always given back (\<open>ApplyRules_balance\<close>), and that a fact every action keeps is kept
  by the loop (\<open>ApplyRules_keeps\<close>).
\<close>

section \<open>MatchContext\<close>

record MatchContext =
  mc_context :: Context

definition MatchContext_Create :: "Context \<Rightarrow> MatchContext result" where
  "MatchContext_Create c = Inr \<lparr>mc_context = c\<rparr>"

definition destroy_MatchContext :: "('h, 'v) quickjs \<Rightarrow> MatchContext \<Rightarrow> 'h \<Rightarrow> 'h" where
  "destroy_MatchContext q mc h = destroy_Context q (mc_context mc) h"

definition AddGlobalValue ::
    "('h, 'v) quickjs \<Rightarrow> MatchContext \<Rightarrow> string \<Rightarrow> 'v Value \<Rightarrow> 'h \<Rightarrow> unit result \<times> 'h" where
  "AddGlobalValue q mc n val h =
     (case GlobalObject q (mc_context mc) h of
        (Inl e, h1) \<Rightarrow>
          (Unexpected (rule_error RuleContextPreparationFailed (message e)), destroy_Value q val h1)
      | (Inr glob, h1) \<Rightarrow>
          (case SetProperty q glob n val h1 of
             (Inl e, h2) \<Rightarrow>
               (Unexpected (rule_error RuleContextPreparationFailed (message e)), destroy_Value q glob h2)
           | (Inr _, h2) \<Rightarrow> (Inr (), destroy_Value q glob h2)))"

definition AddObject ::
    "('h, 'v) quickjs \<Rightarrow> MatchContext \<Rightarrow> string \<Rightarrow> 'v Value \<Rightarrow> 'h \<Rightarrow> unit result \<times> 'h" where
  "AddObject q mc n obj h =
     (if \<not> IsValid obj then
        (Unexpected (rule_error RuleContextPreparationFailed ''value is invalid''), destroy_Value q obj h)
      else if \<not> IsObject q obj then
        (Unexpected (rule_error RuleContextPreparationFailed ''value is not an object''),
         destroy_Value q obj h)
      else AddGlobalValue q mc n obj h)"

section \<open>Context injection\<close>

text \<open>The loop over the headers, then \<open>Build\<close> and the end of the builder's scope.\<close>

fun set_headers ::
    "('h, 'v) quickjs \<Rightarrow> (string \<times> string) list \<Rightarrow> 'v ObjectBuilder \<Rightarrow> 'h \<Rightarrow> 'v ObjectBuilder \<times> 'h" where
  "set_headers q [] b h = (b, h)"
| "set_headers q ((n, v) # hs) b h =
     (case SetString q (to_lower_copy n) v b h of (b1, h1) \<Rightarrow> set_headers q hs b1 h1)"

definition finish_build ::
    "('h, 'v) quickjs \<Rightarrow> 'v ObjectBuilder \<Rightarrow> 'h \<Rightarrow> 'v Value result \<times> 'h" where
  "finish_build q b h = (case Build b of (r, b1) \<Rightarrow> (r, destroy_ObjectBuilder q b1 h))"

definition BuildHeaderObject ::
    "('h, 'v) quickjs \<Rightarrow> (string \<times> string) list \<Rightarrow> Context \<Rightarrow> 'h \<Rightarrow> 'v Value result \<times> 'h" where
  "BuildHeaderObject q headers c h =
     (case ObjectBuilder_Create q c h of
        (Inl e, h1) \<Rightarrow> (Unexpected e, h1)
      | (Inr b, h1) \<Rightarrow> (case set_headers q headers b h1 of (b1, h2) \<Rightarrow> finish_build q b1 h2))"

definition BuildRequestObject ::
    "('h, 'v) quickjs \<Rightarrow> request_header \<Rightarrow> Context \<Rightarrow> 'h \<Rightarrow> 'v Value result \<times> 'h" where
  "BuildRequestObject q req c h =
     (case BuildHeaderObject q (RequestGetAllHeaders req) c h of
        (Inl e, h1) \<Rightarrow> (Unexpected e, h1)
      | (Inr headers, h1) \<Rightarrow>
          (case ObjectBuilder_Create q c h1 of
             (Inl e, h2) \<Rightarrow> (Unexpected e, destroy_Value q headers h2)
           | (Inr b, h2) \<Rightarrow>
               (case SetString q ''method'' (RequestMethod req) b h2 of (b1, h3) \<Rightarrow>
                case SetString q ''target'' (RequestTarget req) b1 h3 of (b2, h4) \<Rightarrow>
                case SetInt32 q ''version'' (RequestVersion req) b2 h4 of (b3, h5) \<Rightarrow>
                case SetObject q ''headers'' headers b3 h5 of (b4, h6) \<Rightarrow> finish_build q b4 h6)))"

definition BuildResponseObject ::
    "('h, 'v) quickjs \<Rightarrow> response_header \<Rightarrow> Context \<Rightarrow> 'h \<Rightarrow> 'v Value result \<times> 'h" where
  "BuildResponseObject q res c h =
     (case BuildHeaderObject q (ResponseGetAllHeaders res) c h of
        (Inl e, h1) \<Rightarrow> (Unexpected e, h1)
      | (Inr headers, h1) \<Rightarrow>
          (case ObjectBuilder_Create q c h1 of
             (Inl e, h2) \<Rightarrow> (Unexpected e, destroy_Value q headers h2)
           | (Inr b, h2) \<Rightarrow>
               (case SetInt32 q ''status'' (ResponseStatus res) b h2 of (b1, h3) \<Rightarrow>
                case SetString q ''reason'' (ResponseReason res) b1 h3 of (b2, h4) \<Rightarrow>
                case SetInt32 q ''version'' (ResponseVersion res) b2 h4 of (b3, h5) \<Rightarrow>
                case SetObject q ''headers'' headers b3 h5 of (b4, h6) \<Rightarrow> finish_build q b4 h6)))"

definition InjectRequestContext ::
    "('h, 'v) quickjs \<Rightarrow> MatchContext \<Rightarrow> request_header \<Rightarrow> 'h \<Rightarrow> unit result \<times> 'h" where
  "InjectRequestContext q mc req h =
     (let c = mc_context mc in
      case BuildRequestObject q req c h of
        (Inl e, h1) \<Rightarrow> (Unexpected e, h1)
      | (Inr request_obj, h1) \<Rightarrow>
          (case ObjectBuilder_Create q c h1 of
             (Inl e, h2) \<Rightarrow> (Unexpected e, destroy_Value q request_obj h2)
           | (Inr b, h2) \<Rightarrow>
               (case SetString q ''phase'' ''request'' b h2 of (b1, h3) \<Rightarrow>
                case SetObject q ''request'' request_obj b1 h3 of (b2, h4) \<Rightarrow>
                case finish_build q b2 h4 of
                  (Inl e, h5) \<Rightarrow> (Unexpected e, h5)
                | (Inr ctx_obj, h5) \<Rightarrow> AddObject q mc ''ctx'' ctx_obj h5)))"

definition InjectResponseContext ::
    "('h, 'v) quickjs \<Rightarrow> MatchContext \<Rightarrow> request_header \<Rightarrow> response_header \<Rightarrow> 'h \<Rightarrow>
     unit result \<times> 'h" where
  "InjectResponseContext q mc req res h =
     (let c = mc_context mc in
      case BuildRequestObject q req c h of
        (Inl e, h1) \<Rightarrow> (Unexpected e, h1)
      | (Inr request_obj, h1) \<Rightarrow>
          (case BuildResponseObject q res c h1 of
             (Inl e, h2) \<Rightarrow> (Unexpected e, destroy_Value q request_obj h2)
           | (Inr response_obj, h2) \<Rightarrow>
               (case ObjectBuilder_Create q c h2 of
                  (Inl e, h3) \<Rightarrow>
                    (Unexpected e, destroy_Value q request_obj (destroy_Value q response_obj h3))
                | (Inr b, h3) \<Rightarrow>
                    (case SetString q ''phase'' ''response'' b h3 of (b1, h4) \<Rightarrow>
                     case SetObject q ''request'' request_obj b1 h4 of (b2, h5) \<Rightarrow>
                     case SetObject q ''response'' response_obj b2 h5 of (b3, h6) \<Rightarrow>
                     case finish_build q b3 h6 of
                       (Inl e, h7) \<Rightarrow> (Unexpected e, h7)
                     | (Inr ctx_obj, h7) \<Rightarrow> AddObject q mc ''ctx'' ctx_obj h7))))"

section \<open>RuleEngine\<close>

record RuleEngine =
  engine_runtime :: Runtime

definition RuleEngine_Create :: "('h, 'v) quickjs \<Rightarrow> 'h \<Rightarrow> RuleEngine result \<times> 'h" where
  "RuleEngine_Create q h = (case Runtime_Create q h of
     (Inl e, h1) \<Rightarrow> (Unexpected (rule_error RuleEngineInitializationFailed
        (''create qjs runtime failed: '' @ message e)), h1)
   | (Inr r, h1) \<Rightarrow> (Inr \<lparr>engine_runtime = r\<rparr>, h1))"

definition CreateMatchContext ::
    "('h, 'v) quickjs \<Rightarrow> RuleEngine \<Rightarrow> 'h \<Rightarrow> MatchContext result \<times> 'h" where
  "CreateMatchContext q eng h = (case Context_Create q (engine_runtime eng) h of
     (Inl e, h1) \<Rightarrow> (Unexpected (rule_error RuleEngineInitializationFailed
        (''create match context failed: '' @ message e)), h1)
   | (Inr c, h1) \<Rightarrow> (MatchContext_Create c, h1))"

definition quoted :: "string \<Rightarrow> string" where
  "quoted s = [CHR 0x22] @ s @ [CHR 0x22]"

definition EvaluateMatch ::
    "('h, 'v) quickjs \<Rightarrow> MatchContext \<Rightarrow> string \<Rightarrow> 'h \<Rightarrow> bool result \<times> 'h" where
  "EvaluateMatch q mc ex h =
     (case Eval q (mc_context mc) ex kDefaultFileName h of
        (Inl e, h1) \<Rightarrow> (Unexpected (rule_error MatchEvaluationFailed
          (''failed to evaluate match expression: expr='' @ quoted ex @ '', error='' @
            quoted (message e))), h1)
      | (Inr v, h1) \<Rightarrow>
          if \<not> IsBool q v then
            (Unexpected (rule_error MatchResultNotBoolean
               (''match expression result is not boolean: expr='' @ quoted ex)), destroy_Value q v h1)
          else (case ToBool q v h1 of
              (Inl e, h2) \<Rightarrow> (Unexpected (rule_error MatchEvaluationFailed
                (''failed to convert match expression result to boolean: expr='' @ quoted ex @
                 '', error='' @ quoted (message e))), destroy_Value q v h2)
            | (Inr b, h2) \<Rightarrow> (Inr b, destroy_Value q v h2)))"

fun ExecuteActions :: "('a \<Rightarrow> 'm \<Rightarrow> unit result \<times> 'm) \<Rightarrow> 'a list \<Rightarrow> 'm \<Rightarrow> unit result \<times> 'm" where
  "ExecuteActions execute_action [] m = (Inr (), m)"
| "ExecuteActions execute_action (a # acts) m = (case execute_action a m of
     (Inl e, m1) \<Rightarrow> (Unexpected e, m1)
   | (Inr _, m1) \<Rightarrow> ExecuteActions execute_action acts m1)"

text \<open>
  \<open>ApplyRules\<close> for one rule after the other; a \<open>continue\<close> is the recursive call, and the
  match context is destroyed at the end of the iteration or on return.
\<close>

fun ApplyRules ::
    "('h, 'v) quickjs \<Rightarrow> RuleEngine \<Rightarrow> 'r list \<Rightarrow> ('r \<Rightarrow> bool) \<Rightarrow>
     (MatchContext \<Rightarrow> 'm \<Rightarrow> 'h \<Rightarrow> unit result \<times> 'h) \<Rightarrow> ('r \<Rightarrow> Match option) \<Rightarrow> ('r \<Rightarrow> 'a list) \<Rightarrow>
     ('a \<Rightarrow> 'm \<Rightarrow> unit result \<times> 'm) \<Rightarrow> 'm \<Rightarrow> 'h \<Rightarrow> unit result \<times> 'm \<times> 'h" where
  "ApplyRules q eng [] flt inject get_match get_actions execute_action m h = (Inr (), m, h)"
| "ApplyRules q eng (r # rs) flt inject get_match get_actions execute_action m h =
     (if \<not> flt r then ApplyRules q eng rs flt inject get_match get_actions execute_action m h
      else (case get_match r of
          None \<Rightarrow>
            (case ExecuteActions execute_action (get_actions r) m of
               (Inl e, m1) \<Rightarrow> (Unexpected e, m1, h)
             | (Inr _, m1) \<Rightarrow> ApplyRules q eng rs flt inject get_match get_actions execute_action m1 h)
        | Some mt \<Rightarrow>
            (case CreateMatchContext q eng h of
               (Inl e, h1) \<Rightarrow> (Unexpected e, m, h1)
             | (Inr mc, h1) \<Rightarrow>
                 (case inject mc m h1 of
                    (Inl e, h2) \<Rightarrow> (Unexpected e, m, destroy_MatchContext q mc h2)
                  | (Inr _, h2) \<Rightarrow>
                      (case EvaluateMatch q mc (expr mt) h2 of
                         (Inl e, h3) \<Rightarrow> (Unexpected e, m, destroy_MatchContext q mc h3)
                       | (Inr matched, h3) \<Rightarrow>
                           if \<not> matched then
                             ApplyRules q eng rs flt inject get_match get_actions execute_action m
                               (destroy_MatchContext q mc h3)
                           else (case ExecuteActions execute_action (get_actions r) m of
                               (Inl e, m1) \<Rightarrow> (Unexpected e, m1, destroy_MatchContext q mc h3)
                             | (Inr _, m1) \<Rightarrow>
                                 ApplyRules q eng rs flt inject get_match get_actions execute_action m1
                                   (destroy_MatchContext q mc h3)))))))"

section \<open>ApplyRequest and ApplyResponse\<close>

definition ApplyRequest ::
    "('h, 'v) quickjs \<Rightarrow> fields_api \<Rightarrow> RuleEngine \<Rightarrow> HttpConfig \<Rightarrow> request_header \<Rightarrow> 'h \<Rightarrow>
     unit result \<times> request_header \<times> 'h" where
  "ApplyRequest q api eng cfg req h = (case rules cfg of
     None \<Rightarrow> (Inr (), req, h)
   | Some rs \<Rightarrow>
       if rs = [] then (Inr (), req, h)
       else ApplyRules q eng rs (\<lambda>r. enabled r \<and> phase r = PhaseRequest)
         (\<lambda>mc req h. InjectRequestContext q mc req h) match actions
         (\<lambda>a req. ExecuteRequestAction api a req) req h)"

definition ApplyResponse ::
    "('h, 'v) quickjs \<Rightarrow> fields_api \<Rightarrow> RuleEngine \<Rightarrow> HttpConfig \<Rightarrow> request_header \<Rightarrow> response_header \<Rightarrow>
     'h \<Rightarrow> unit result \<times> response_header \<times> 'h" where
  "ApplyResponse q api eng cfg req res h = (case rules cfg of
     None \<Rightarrow> (Inr (), res, h)
   | Some rs \<Rightarrow>
       ApplyRules q eng rs (\<lambda>r. enabled r \<and> phase r = PhaseResponse)
         (\<lambda>mc res h. InjectResponseContext q mc req res h) match actions
         (\<lambda>a res. ExecuteResponseAction api a res) res h)"

section \<open>The loop and its reference\<close>

text \<open>
  The decision about one rule that passed the filter: without a match expression it
  matches and the engine is not touched.
\<close>

definition decide ::
    "('h, 'v) quickjs \<Rightarrow> RuleEngine \<Rightarrow> (MatchContext \<Rightarrow> 'm \<Rightarrow> 'h \<Rightarrow> unit result \<times> 'h) \<Rightarrow>
     Match option \<Rightarrow> 'm \<Rightarrow> 'h \<Rightarrow> bool result \<times> 'h" where
  "decide q eng inject mt m h = (case mt of
     None \<Rightarrow> (Inr True, h)
   | Some mt \<Rightarrow>
       (case CreateMatchContext q eng h of
          (Inl e, h1) \<Rightarrow> (Inl e, h1)
        | (Inr mc, h1) \<Rightarrow>
            (case inject mc m h1 of
               (Inl e, h2) \<Rightarrow> (Inl e, destroy_MatchContext q mc h2)
             | (Inr _, h2) \<Rightarrow>
                 (case EvaluateMatch q mc (expr mt) h2 of
                    (r, h3) \<Rightarrow> (r, destroy_MatchContext q mc h3)))))"

text \<open>The reference: decide, and if it matches execute, for the rules that pass the filter.\<close>

fun run_rules ::
    "('r \<Rightarrow> 'm \<Rightarrow> 'h \<Rightarrow> bool result \<times> 'h) \<Rightarrow> ('r \<Rightarrow> 'm \<Rightarrow> unit result \<times> 'm) \<Rightarrow> 'r list \<Rightarrow>
     'm \<Rightarrow> 'h \<Rightarrow> unit result \<times> 'm \<times> 'h" where
  "run_rules dec act [] m h = (Inr (), m, h)"
| "run_rules dec act (r # rs) m h = (case dec r m h of
     (Inl e, h1) \<Rightarrow> (Inl e, m, h1)
   | (Inr False, h1) \<Rightarrow> run_rules dec act rs m h1
   | (Inr True, h1) \<Rightarrow> (case act r m of
       (Inl e, m1) \<Rightarrow> (Inl e, m1, h1)
     | (Inr _, m1) \<Rightarrow> run_rules dec act rs m1 h1))"

lemma ApplyRules_run_rules:
  "ApplyRules q eng rs flt inject get_match get_actions exec m h =
     run_rules (\<lambda>r. decide q eng inject (get_match r)) (\<lambda>r. ExecuteActions exec (get_actions r))
       (filter flt rs) m h"
proof (induction rs arbitrary: m h)
  case (Cons r rs)
  then show ?case
    by (auto simp: decide_def split: option.split prod.split sum.split bool.split)
qed simp

text \<open>An invariant of every action is an invariant of the loop.\<close>

lemma ExecuteActions_keeps:
  assumes "\<And>a m. P m \<Longrightarrow> P (snd (exec a m))" and "P m"
  shows "P (snd (ExecuteActions exec acts m))"
  using assms(2)
proof (induction acts arbitrary: m)
  case (Cons a acts)
  then show ?case using assms(1) [of m a] by (auto split: prod.split sum.split)
qed simp

lemma run_rules_keeps:
  assumes "\<And>r m. P m \<Longrightarrow> P (snd (act r m))" and "P m"
  shows "P (fst (snd (run_rules dec act rs m h)))"
  using assms(2)
proof (induction rs arbitrary: m h)
  case (Cons r rs)
  obtain d h1 a m1 where "dec r m h = (d, h1)" "act r m = (a, m1)"
    by (cases "dec r m h"; cases "act r m")
  with Cons assms(1) [of m r] show ?case by (auto split: sum.split bool.split)
qed simp

lemma ApplyRules_keeps:
  assumes "\<And>a m. P m \<Longrightarrow> P (snd (exec a m))" and "P m"
  shows "P (fst (snd (ApplyRules q eng rs flt inject get_match get_actions exec m h)))"
  unfolding ApplyRules_run_rules
  by (rule run_rules_keeps) (use assms ExecuteActions_keeps [of P exec] in blast)+

text \<open>
  Which actions ran: a subsequence, in order, of the actions of the rules that passed the
  filter. A success means all of them succeeded; an error is that of the last action, or
  that of a match.
\<close>

lemma ExecuteActions_append:
  "ExecuteActions exec (xs @ ys) m = (case ExecuteActions exec xs m of
     (Inl e, m1) \<Rightarrow> (Inl e, m1) | (Inr _, m1) \<Rightarrow> ExecuteActions exec ys m1)"
  by (induction xs arbitrary: m) (auto split: prod.split sum.split)

lemma ExecuteActions_unit: "ExecuteActions exec xs m = (Inr u, m1) \<Longrightarrow> u = ()"
  by simp

lemma run_rules_trace:
  assumes "run_rules dec (\<lambda>r. ExecuteActions exec (get_actions r)) rs m h = (res, m', h')"
  shows "\<exists>acts. subseq acts (concat (map get_actions rs)) \<and>
    (ExecuteActions exec acts m = (res, m') \<or>
     (\<exists>e. res = Inl e) \<and> ExecuteActions exec acts m = (Inr (), m'))"
  using assms
proof (induction rs arbitrary: m h)
  case Nil
  then show ?case by (auto intro: exI [of _ "[]"])
next
  case (Cons r rs)
  obtain d h1 where d: "dec r m h = (d, h1)" by (cases "dec r m h")
  obtain a m1 where a: "ExecuteActions exec (get_actions r) m = (a, m1)"
    by (cases "ExecuteActions exec (get_actions r) m")
  consider e where "d = Inl e" | "d = Inr False" | e where "d = Inr True" "a = Inl e"
    | "d = Inr True" "a = Inr ()" by (cases d; cases a) auto
  then show ?case
  proof cases
    case 1
    with Cons.prems d show ?thesis by (intro exI [of _ "[]"]) auto
  next
    case 2
    with Cons.prems d have "run_rules dec (\<lambda>r. ExecuteActions exec (get_actions r)) rs m h1 = (res, m', h')"
      by simp
    from Cons.IH [OF this] show ?thesis by (auto intro: subseq_drop_many)
  next
    case 3
    with Cons.prems d a show ?thesis
      by (intro exI [of _ "get_actions r"]) auto
  next
    case 4
    with Cons.prems d a have "run_rules dec (\<lambda>r. ExecuteActions exec (get_actions r)) rs m1 h1 = (res, m', h')"
      by simp
    from Cons.IH [OF this] obtain acts where acts: "subseq acts (concat (map get_actions rs))"
        "ExecuteActions exec acts m1 = (res, m') \<or> (\<exists>e. res = Inl e) \<and> ExecuteActions exec acts m1 = (Inr (), m')"
      by blast
    from acts(2) a 4 have "ExecuteActions exec (get_actions r @ acts) m = (res, m') \<or>
        (\<exists>e. res = Inl e) \<and> ExecuteActions exec (get_actions r @ acts) m = (Inr (), m')"
      by (auto simp: ExecuteActions_append)
    moreover have "subseq (get_actions r @ acts) (concat (map get_actions (r # rs)))"
      using acts(1) by (simp add: list_emb_append_mono)
    ultimately show ?thesis by blast
  qed
qed

text \<open>Rules without a match expression: their actions, one after the other.\<close>

lemma run_rules_unconditional:
  assumes "\<And>r. r \<in> set rs \<Longrightarrow> dec r = (\<lambda>m h. (Inr True, h))"
  shows "run_rules dec (\<lambda>r. ExecuteActions exec (get_actions r)) rs m h =
    (case ExecuteActions exec (concat (map get_actions rs)) m of (res, m') \<Rightarrow> (res, m', h))"
  using assms
proof (induction rs arbitrary: m)
  case (Cons r rs)
  then show ?case
    by (auto simp: ExecuteActions_append split: prod.split sum.split)
qed simp

section \<open>Nothing leaks\<close>

context quickjs_refs begin

lemma AddGlobalValue_balance: "owned (snd (AddGlobalValue q mc n w h)) = owned h - own_value counted w"
proof -
  obtain g h1 where g: "GlobalObject q (mc_context mc) h = (g, h1)"
    by (cases "GlobalObject q (mc_context mc) h")
  have o1: "owned h1 = owned h + own_result counted g"
    using factories_balance(1) [of "mc_context mc" h] g by simp
  show ?thesis
  proof (cases g)
    case (Inr v)
    obtain r h2 where r: "SetProperty q v n w h1 = (r, h2)" by (cases "SetProperty q v n w h1")
    have "owned h2 = owned h1 - own_value counted w"
      using setters_balance(1) [of v n w h1] r by simp
    with o1 g r Inr show ?thesis by (cases r) (simp_all add: AddGlobalValue_def own_result_def)
  qed (use o1 g in \<open>simp add: AddGlobalValue_def own_result_def\<close>)
qed

lemma AddObject_balance: "owned (snd (AddObject q mc n w h)) = owned h - own_value counted w"
  by (simp add: AddObject_def AddGlobalValue_balance)

lemma set_headers_balance [simp]:
  "owned (snd (set_headers q hs b h)) = owned h"
  "own_builder counted (fst (set_headers q hs b h)) = own_builder counted b"
  by (induction hs arbitrary: b h) (auto simp: case_prod_beta)

lemma finish_build_balance:
  "owned (snd (finish_build q b h)) = owned h - own_builder counted b + own_result counted (fst (finish_build q b h))"
  using Build_balance [of b] by (simp add: finish_build_def case_prod_beta)

lemma BuildHeaderObject_balance:
  "owned (snd (BuildHeaderObject q hs c h)) = owned h + own_result counted (fst (BuildHeaderObject q hs c h))"
  using ObjectBuilder_Create_balance [of c h]
  by (auto simp: BuildHeaderObject_def case_prod_beta finish_build_balance own_builder_result_def
      own_result_def [where r = "Inl _"] split: sum.split)

text \<open>The end of a builder that has taken some objects, with the ones it was not given destroyed.\<close>

lemma BuildRequestObject_balance:
  "owned (snd (BuildRequestObject q req c h)) =
     owned h + own_result counted (fst (BuildRequestObject q req c h))"
proof -
  obtain r h1 where r: "BuildHeaderObject q (RequestGetAllHeaders req) c h = (r, h1)"
    by (cases "BuildHeaderObject q (RequestGetAllHeaders req) c h")
  have o1: "owned h1 = owned h + own_result counted r"
    using BuildHeaderObject_balance [of "RequestGetAllHeaders req" c h] r by simp
  obtain b h2 where b: "ObjectBuilder_Create q c h1 = (b, h2)" by (cases "ObjectBuilder_Create q c h1")
  have "owned h2 = owned h1 + own_builder_result counted b"
    using ObjectBuilder_Create_balance [of c h1] b by simp
  with o1 r b show ?thesis
    by (cases r; cases b) (simp_all add: BuildRequestObject_def case_prod_beta finish_build_balance
        own_builder_result_def own_result_def [where r = "Inl _"] own_result_def [where r = "Inr (_ :: 'b Value)"])
qed

lemma BuildResponseObject_balance:
  "owned (snd (BuildResponseObject q res c h)) =
     owned h + own_result counted (fst (BuildResponseObject q res c h))"
proof -
  obtain r h1 where r: "BuildHeaderObject q (ResponseGetAllHeaders res) c h = (r, h1)"
    by (cases "BuildHeaderObject q (ResponseGetAllHeaders res) c h")
  have o1: "owned h1 = owned h + own_result counted r"
    using BuildHeaderObject_balance [of "ResponseGetAllHeaders res" c h] r by simp
  obtain b h2 where b: "ObjectBuilder_Create q c h1 = (b, h2)" by (cases "ObjectBuilder_Create q c h1")
  have "owned h2 = owned h1 + own_builder_result counted b"
    using ObjectBuilder_Create_balance [of c h1] b by simp
  with o1 r b show ?thesis
    by (cases r; cases b) (simp_all add: BuildResponseObject_def case_prod_beta finish_build_balance
        own_builder_result_def own_result_def [where r = "Inl _"] own_result_def [where r = "Inr (_ :: 'b Value)"])
qed

lemma finish_and_add_balance:
  "owned (snd (case finish_build q b h of
       (Inl e, h5) \<Rightarrow> (Unexpected e, h5)
     | (Inr ctx_obj, h5) \<Rightarrow> AddObject q mc n ctx_obj h5)) = owned h - own_builder counted b"
proof -
  obtain r h1 where r: "finish_build q b h = (r, h1)" by (cases "finish_build q b h")
  with finish_build_balance [of b h] AddObject_balance [of mc n _ h1] show ?thesis
    by (cases r) (simp_all add: own_result_def)
qed

lemma InjectRequestContext_balance: "owned (snd (InjectRequestContext q mc req h)) = owned h"
proof -
  let ?c = "mc_context mc"
  obtain r h1 where r: "BuildRequestObject q req ?c h = (r, h1)" by (cases "BuildRequestObject q req ?c h")
  obtain b h2 where b: "ObjectBuilder_Create q ?c h1 = (b, h2)" by (cases "ObjectBuilder_Create q ?c h1")
  have "owned h1 = owned h + own_result counted r" "owned h2 = owned h1 + own_builder_result counted b"
    using BuildRequestObject_balance [of req ?c h] ObjectBuilder_Create_balance [of ?c h1] r b by simp_all
  with r b show ?thesis
    by (cases r; cases b)
       (simp_all add: InjectRequestContext_def Let_def case_prod_beta own_builder_result_def own_result_def
          finish_and_add_balance [unfolded case_prod_beta])
qed

lemma InjectResponseContext_balance: "owned (snd (InjectResponseContext q mc req res h)) = owned h"
proof -
  let ?c = "mc_context mc"
  obtain r h1 where r: "BuildRequestObject q req ?c h = (r, h1)" by (cases "BuildRequestObject q req ?c h")
  obtain t h2 where t: "BuildResponseObject q res ?c h1 = (t, h2)" by (cases "BuildResponseObject q res ?c h1")
  obtain b h3 where b: "ObjectBuilder_Create q ?c h2 = (b, h3)" by (cases "ObjectBuilder_Create q ?c h2")
  have "owned h1 = owned h + own_result counted r" "owned h2 = owned h1 + own_result counted t"
      "owned h3 = owned h2 + own_builder_result counted b"
    using BuildRequestObject_balance [of req ?c h] BuildResponseObject_balance [of res ?c h1]
      ObjectBuilder_Create_balance [of ?c h2] r t b by simp_all
  with r t b show ?thesis
    by (cases r; cases t; cases b)
       (simp_all add: InjectResponseContext_def Let_def case_prod_beta own_builder_result_def own_result_def
          finish_and_add_balance [unfolded case_prod_beta])
qed

lemma EvaluateMatch_balance: "owned (snd (EvaluateMatch q mc ex h)) = owned h"
proof -
  obtain r h1 where r: "Eval q (mc_context mc) ex kDefaultFileName h = (r, h1)"
    by (cases "Eval q (mc_context mc) ex kDefaultFileName h")
  have o1: "owned h1 = owned h + own_result counted r"
    using Eval_balance [of "mc_context mc" ex kDefaultFileName h] r by simp
  show ?thesis
  proof (cases r)
    case (Inr v)
    obtain t h2 where t: "ToBool q v h1 = (t, h2)" by (cases "ToBool q v h1")
    with conversions_balance(1) [of v h1] o1 r Inr show ?thesis
      by (cases t) (simp_all add: EvaluateMatch_def own_result_def)
  qed (use r o1 in \<open>simp add: EvaluateMatch_def own_result_def\<close>)
qed

lemma decide_balance:
  assumes "\<And>mc m h. owned (snd (inject mc m h)) = owned h"
  shows "owned (snd (decide q eng inject mt m h)) = owned h"
proof (cases mt)
  case (Some x)
  obtain r h1 where r: "CreateMatchContext q eng h = (r, h1)" by (cases "CreateMatchContext q eng h")
  have o1: "owned h1 = owned h + (case r of Inl _ \<Rightarrow> 0 | Inr mc \<Rightarrow> own_context (mc_context mc))"
    using create_balance(1) [of "engine_runtime eng" h] r
    by (auto simp: CreateMatchContext_def MatchContext_Create_def split: prod.splits sum.splits)
  show ?thesis
  proof (cases r)
    case (Inr mc)
    obtain i h2 where i: "inject mc m h1 = (i, h2)" by (cases "inject mc m h1")
    obtain t h3 where t: "EvaluateMatch q mc (expr x) h2 = (t, h3)" by (cases "EvaluateMatch q mc (expr x) h2")
    have "owned h2 = owned h1" "owned h3 = owned h2"
      using assms [of mc m h1] EvaluateMatch_balance [of mc "expr x" h2] i t by simp_all
    with o1 r Inr i t Some show ?thesis
      by (cases i) (simp_all add: decide_def destroy_MatchContext_def)
  qed (use r o1 Some in \<open>simp add: decide_def\<close>)
qed (simp add: decide_def)

lemma run_rules_balance:
  assumes "\<And>r m h. owned (snd (dec r m h)) = owned h"
  shows "owned (snd (snd (run_rules dec act rs m h))) = owned h"
proof (induction rs arbitrary: m h)
  case (Cons r rs)
  obtain d h1 a m1 where "dec r m h = (d, h1)" "act r m = (a, m1)"
    by (cases "dec r m h"; cases "act r m")
  with Cons assms [of r m h] show ?case by (auto split: sum.split bool.split)
qed simp

lemma ApplyRules_balance:
  assumes "\<And>mc m h. owned (snd (inject mc m h)) = owned h"
  shows "owned (snd (snd (ApplyRules q eng rs flt inject get_match get_actions exec m h))) = owned h"
  unfolding ApplyRules_run_rules by (rule run_rules_balance) (rule decide_balance [OF assms])

lemma Apply_balance:
  "owned (snd (snd (ApplyRequest q api eng cfg req h))) = owned h"
  "owned (snd (snd (ApplyResponse q api eng cfg req res h))) = owned h"
  by (auto simp: ApplyRequest_def ApplyResponse_def split: option.split
      intro!: ApplyRules_balance InjectRequestContext_balance InjectResponseContext_balance)

end

section \<open>Headers the rules cannot reach\<close>

text \<open>What a rule action keeps of a request and of a response.\<close>

definition request_kept :: "request_header \<Rightarrow> request_header \<Rightarrow> bool" where
  "request_kept r r' \<longleftrightarrow> rq_method r' = rq_method r \<and> method_string r' = method_string r \<and>
     target r' = target r \<and> version r' = version r \<and>
     (\<forall>k. is_protected k \<longrightarrow> entries k (rq_fields r') = entries k (rq_fields r))"

definition response_kept :: "response_header \<Rightarrow> response_header \<Rightarrow> bool" where
  "response_kept r r' \<longleftrightarrow> result_int r' = result_int r \<and> reason r' = reason r \<and>
     rs_version r' = rs_version r \<and>
     (\<forall>k. is_protected k \<longrightarrow> entries k (rs_fields r') = entries k (rs_fields r))"

lemma request_action_line:
  "rq_method (snd (ExecuteRequestAction api a r)) = rq_method r"
  "method_string (snd (ExecuteRequestAction api a r)) = method_string r"
  "target (snd (ExecuteRequestAction api a r)) = target r"
  "version (snd (ExecuteRequestAction api a r)) = version r"
  by (cases "data a"; simp add: ExecuteRequestAction_def RequestAddHeader_def RequestSetHeader_def
      RequestReplaceHeader_def RequestRemoveHeader_def)+

lemma response_action_line:
  "result_int (snd (ExecuteResponseAction api a r)) = result_int r"
  "reason (snd (ExecuteResponseAction api a r)) = reason r"
  "rs_version (snd (ExecuteResponseAction api a r)) = rs_version r"
  by (cases "data a"; simp add: ExecuteResponseAction_def ResponseAddHeader_def ResponseSetHeader_def
      ResponseReplaceHeader_def ResponseRemoveHeader_def)+

context beast_fields begin

lemma ApplyRequest_kept: "request_kept req (fst (snd (ApplyRequest q api eng cfg req h)))"
proof -
  have "request_kept req (snd (ExecuteRequestAction api a r))" if "request_kept req r" for a r
    using that request_exec_lemmas(4) [of _ a r]
    by (simp add: request_kept_def request_action_line RequestGetAllHeaders_def)
  then have "request_kept req (fst (snd (ApplyRules q eng rs flt inject match actions (ExecuteRequestAction api) req h)))"
    for rs :: "Rule list" and flt inject by (rule ApplyRules_keeps) (simp_all add: request_kept_def)
  then show ?thesis
    by (cases "rules cfg") (auto simp: ApplyRequest_def request_kept_def [of req req])
qed

lemma ApplyResponse_kept: "response_kept res (fst (snd (ApplyResponse q api eng cfg req res h)))"
proof -
  have "response_kept res (snd (ExecuteResponseAction api a r))" if "response_kept res r" for a r
    using that response_exec_lemmas(4) [of _ a r]
    by (simp add: response_kept_def response_action_line ResponseGetAllHeaders_def)
  then have "response_kept res (fst (snd (ApplyRules q eng rs flt inject match actions (ExecuteResponseAction api) res h)))"
    for rs :: "Rule list" and flt inject by (rule ApplyRules_keeps) (simp_all add: response_kept_def)
  then show ?thesis
    by (cases "rules cfg") (simp_all add: ApplyResponse_def response_kept_def [of res res])
qed

end

section \<open>Properties\<close>

text \<open>
  C14. Applying the configured rules never touches what the proxy relies on, whatever the
  rules say, whatever the script engine answers and whether or not an error stops them: the
  request line, the status line and every unsupported header (framing, hop-by-hop, routing,
  authentication, proxy metadata) are the same before and after \<open>ApplyRequest\<close> and
  \<open>ApplyResponse\<close>.
\<close>

theorem rules_keep_protected_headers:
  assumes "beast_fields api" and "to_lower_copy k \<in> set kUnsupportedHeaders"
    and "ApplyRequest q api eng cfg req h = (r, req', h')"
    and "ApplyResponse q api eng cfg req' res h2 = (r', res', h3)"
  shows "entries k (rq_fields req') = entries k (rq_fields req) \<and>
    entries k (rs_fields res') = entries k (rs_fields res) \<and>
    method_string req' = method_string req \<and> target req' = target req \<and> version req' = version req \<and>
    result_int res' = result_int res \<and> reason res' = reason res \<and> rs_version res' = rs_version res"
  using beast_fields.ApplyRequest_kept [OF assms(1), of req q eng cfg h]
    beast_fields.ApplyResponse_kept [OF assms(1), of res q eng cfg req' h2] assms(2-4)
  by (simp add: request_kept_def response_kept_def is_protected_def)

definition example_rule :: "Match option \<Rightarrow> Rule" where
  "example_rule m = \<lparr>name = ''r'', enabled = True, phase = PhaseRequest, match = m, actions =
     [\<lparr>op = OpSet, action_target = TargetHeader,
       data = NameValueData \<lparr>hnv_name = ''X-A'', hnv_value = ''2''\<rparr>\<rparr>,
      \<lparr>op = OpRemove, action_target = TargetHeader, data = NameData \<lparr>hn_name = ''HOST''\<rparr>\<rparr>]\<rparr>"

definition example_request :: request_header where
  "example_request = \<lparr>rq_method = verb_head, method_string = ''HEAD'', target = ''/'', version = 11,
     rq_fields = [(''Host'', ''a''), (''x-a'', ''1'')]\<rparr>"

definition example_response :: response_header where
  "example_response = \<lparr>result_int = 200, reason = ''OK'', rs_version = 11, rs_fields = [(''Via'', ''b'')]\<rparr>"

abbreviation example_js :: "(jsheap, jsval) quickjs" where
  "example_js \<equiv> mini_js (\<lambda>h c e. JBool True)"

abbreviation example_heap :: jsheap where
  "example_heap \<equiv> \<lparr>live = 0, objects = [], pending = JUndefined\<rparr>"

theorem rules_keep_protected_headers_witness:
  "entries ''host'' (rq_fields (fst (snd (ApplyRequest example_js list_fields \<lparr>engine_runtime = \<lparr>rt_handle = Some 0\<rparr>\<rparr>
       \<lparr>rules = Some [example_rule (Some \<lparr>expr = ''true''\<rparr>)]\<rparr> example_request example_heap)))) =
     [(''Host'', ''a'')]"
proof -
  let ?eng = "\<lparr>engine_runtime = \<lparr>rt_handle = Some 0\<rparr>\<rparr>"
  let ?cfg = "\<lparr>rules = Some [example_rule (Some \<lparr>expr = ''true''\<rparr>)]\<rparr>"
  have h: "to_lower_copy ''host'' \<in> set kUnsupportedHeaders" by code_simp
  have e: "entries ''host'' (rq_fields example_request) = [(''Host'', ''a'')]" by code_simp
  obtain r req' h' where a: "ApplyRequest example_js list_fields ?eng ?cfg example_request example_heap = (r, req', h')"
    by (cases "ApplyRequest example_js list_fields ?eng ?cfg example_request example_heap")
  obtain r' res' h'' where b: "ApplyResponse example_js list_fields ?eng ?cfg req' example_response h' = (r', res', h'')"
    by (cases "ApplyResponse example_js list_fields ?eng ?cfg req' example_response h'")
  from rules_keep_protected_headers [OF lf.beast_fields_axioms h a b] e a show ?thesis by simp
qed

text \<open>
  Which actions run, in which order, and what an error leaves behind: \<open>ApplyRules\<close>
  executes a subsequence, in the order of the configuration, of the actions of the rules
  that pass the filter. On success they all succeeded. On an error either the last of them
  failed and its error is the one returned, or they all succeeded and a match expression
  could not be decided; in both cases nothing after it runs and the effects of the actions
  before it stay.
\<close>

theorem ApplyRules_trace:
  assumes "ApplyRules q eng rs flt inject get_match get_actions exec m h = (res, m', h')"
  shows "\<exists>acts. subseq acts (concat (map get_actions (filter flt rs))) \<and>
    (ExecuteActions exec acts m = (res, m') \<or>
     (\<exists>e. res = Inl e) \<and> ExecuteActions exec acts m = (Inr (), m'))"
  using assms unfolding ApplyRules_run_rules by (rule run_rules_trace)

theorem ApplyRules_trace_witness:
  "\<exists>acts. subseq acts (actions (example_rule None)) \<and>
    ExecuteActions (ExecuteRequestAction list_fields) acts example_request =
      ExecuteActions (ExecuteRequestAction list_fields) (actions (example_rule None)) example_request"
proof -
  obtain res m' where e: "ExecuteActions (ExecuteRequestAction list_fields) (actions (example_rule None))
      example_request = (res, m')"
    by (cases "ExecuteActions (ExecuteRequestAction list_fields) (actions (example_rule None)) example_request")
  have "isl (fst (ExecuteActions (ExecuteRequestAction list_fields) (actions (example_rule None)) example_request)) \<and>
      snd (ExecuteRequestAction list_fields (hd (actions (example_rule None))) example_request) \<noteq> example_request"
    by code_simp
  with e obtain err where err: "res = Inl err" by (cases res) auto
  have "ApplyRules example_js \<lparr>engine_runtime = \<lparr>rt_handle = Some 0\<rparr>\<rparr> [example_rule None] (\<lambda>r. True)
      (\<lambda>mc m h. (Inr (), h)) match actions (ExecuteRequestAction list_fields) example_request example_heap =
      (res, m', example_heap)"
    using e err by (simp add: example_rule_def)
  from ApplyRules_trace [OF this] show ?thesis
    by (intro exI [of _ "actions (example_rule None)"]) auto
qed

text \<open>
  Unconditional rules: when no rule that passes the filter has a match expression, the
  rules are one sequence of actions, executed in order up to the first failure, and the
  script engine is not touched at all: no context is created.
\<close>

theorem ApplyRules_unconditional:
  assumes "\<And>r. r \<in> set rs \<Longrightarrow> flt r \<Longrightarrow> get_match r = None"
  shows "ApplyRules q eng rs flt inject get_match get_actions exec m h =
    (case ExecuteActions exec (concat (map get_actions (filter flt rs))) m of (res, m') \<Rightarrow> (res, m', h))"
  unfolding ApplyRules_run_rules
  by (rule run_rules_unconditional) (use assms in \<open>auto simp: decide_def fun_eq_iff\<close>)

theorem ApplyRules_unconditional_witness:
  "snd (snd (ApplyRules example_js \<lparr>engine_runtime = \<lparr>rt_handle = None\<rparr>\<rparr> [example_rule None] (\<lambda>r. enabled r)
      (\<lambda>mc m h. (Inr (), h)) match actions (ExecuteRequestAction list_fields) example_request example_heap)) =
   example_heap"
proof -
  have "match r = None" if "r \<in> set [example_rule None]" "enabled r" for r
    using that by (simp add: example_rule_def)
  then show ?thesis
    by (subst ApplyRules_unconditional) (simp_all only: case_prod_beta snd_conv)
qed

text \<open>
  Only the rules of the phase count: disabled rules and rules of the other phase have no
  influence on a request or a response, not even on errors or on the script engine.
\<close>

theorem only_rules_of_the_phase:
  "ApplyRequest q api eng \<lparr>rules = Some rs\<rparr> req h =
     ApplyRequest q api eng \<lparr>rules = Some (filter (\<lambda>r. enabled r \<and> phase r = PhaseRequest) rs)\<rparr> req h \<and>
   ApplyResponse q api eng \<lparr>rules = Some rs\<rparr> req res h =
     ApplyResponse q api eng \<lparr>rules = Some (filter (\<lambda>r. enabled r \<and> phase r = PhaseResponse) rs)\<rparr> req res h \<and>
   ApplyRequest q api eng \<lparr>rules = None\<rparr> req h = (Inr (), req, h) \<and>
   ApplyResponse q api eng \<lparr>rules = None\<rparr> req res h = (Inr (), res, h)"
proof -
  have "rs \<noteq> [] \<Longrightarrow> filter (\<lambda>r. enabled r \<and> phase r = PhaseRequest) rs = [] \<Longrightarrow>
      ApplyRequest q api eng \<lparr>rules = Some rs\<rparr> req h = (Inr (), req, h)"
    by (simp add: ApplyRequest_def ApplyRules_run_rules)
  then show ?thesis
    by (cases "filter (\<lambda>r. enabled r \<and> phase r = PhaseRequest) rs = []"; cases "rs = []")
       (simp_all add: ApplyRequest_def ApplyResponse_def ApplyRules_run_rules)
qed

text \<open>
  The rule engine gives everything back: on every path through \<open>ApplyRequest\<close> and
  \<open>ApplyResponse\<close> (context creation, injection, evaluation or an action may fail) the
  number of script values, strings and contexts the program owns is the same afterwards.
\<close>

theorem rules_do_not_leak:
  fixes q :: "('h, 'v) quickjs"
  assumes "quickjs_refs q owned counted"
  shows "owned (snd (snd (ApplyRequest q api eng cfg req h))) = owned h \<and>
    owned (snd (snd (ApplyResponse q api eng cfg req res h))) = owned h"
  by (intro conjI quickjs_refs.Apply_balance [OF assms])

theorem rules_do_not_leak_witness:
  "live (snd (snd (ApplyRequest example_js list_fields \<lparr>engine_runtime = \<lparr>rt_handle = Some 0\<rparr>\<rparr>
       \<lparr>rules = Some [example_rule (Some \<lparr>expr = ''true''\<rparr>)]\<rparr> example_request example_heap))) = 0"
  using rules_do_not_leak [OF mini.quickjs_refs_axioms] by simp

end
