(* ===== verification/Rule_Effects.thy ===== *)
theory Rule_Effects
  imports Rule_Engine
begin

text \<open>
  What the rules do to a header, as a specification on abstract header stores. A store gives
  the fields of every name; \<open>field_store\<close> reads it off a field sequence. \<open>action_spec\<close> is the effect
  of one action on a field_store, \<open>actions_spec\<close> that of a sequence up to the first action that is
  rejected, and \<open>ruled\<close> relates a header before and after the rules of a phase. The
  executors, the loop over the rules and \<open>ApplyRequest\<close> and \<open>ApplyResponse\<close> refine these
  specifications, for every container that keeps the promises of Boost.Beast.
\<close>

section \<open>Header stores\<close>

type_synonym header_store = "string \<Rightarrow> fields"

definition field_store :: "fields \<Rightarrow> header_store" where
  "field_store fs = (\<lambda>k. entries k fs)"

definition action_spec :: "Action \<Rightarrow> header_store \<Rightarrow> header_store" where
  "action_spec a st = (\<lambda>k. if \<not> iequals k (action_name a) then st k else
     (case data a of
        NameData d \<Rightarrow> []
      | NameValueData d \<Rightarrow>
          (case op a of
             OpAdd \<Rightarrow> if st k = [] then [(hnv_name d, hnv_value d)] else st k
           | OpSet \<Rightarrow> [(hnv_name d, hnv_value d)]
           | _ \<Rightarrow> if st k = [] then [] else [(hnv_name d, hnv_value d)])))"

definition actions_spec :: "Action list \<Rightarrow> header_store \<Rightarrow> header_store" where
  "actions_spec acts st = fold action_spec (takeWhile action_ok acts) st"

lemma actions_spec_simps [simp]:
  "actions_spec [] st = st"
  "actions_spec (a # acts) st = (if action_ok a then actions_spec acts (action_spec a st) else st)"
  by (simp_all add: actions_spec_def)

lemma actions_spec_append:
  "actions_spec (xs @ ys) st =
     (if list_all action_ok xs then actions_spec ys (actions_spec xs st) else actions_spec xs st)"
  by (induction xs arbitrary: st) auto

text \<open>The rules of a phase, and what they may make of a header.\<close>

definition phase_rules :: "Phase \<Rightarrow> HttpConfig option \<Rightarrow> Rule list" where
  "phase_rules ph cfg = (case cfg of None \<Rightarrow> [] | Some c \<Rightarrow>
     (case rules c of None \<Rightarrow> [] | Some rs \<Rightarrow> filter (\<lambda>r. enabled r \<and> phase r = ph) rs))"

definition unconditional :: "Rule list \<Rightarrow> bool" where
  "unconditional rs \<longleftrightarrow> list_all (\<lambda>r. match r = None) rs"

definition ruled :: "Phase \<Rightarrow> HttpConfig option \<Rightarrow> header_store \<Rightarrow> header_store \<Rightarrow> bool" where
  "ruled ph cfg st st' \<longleftrightarrow> (\<exists>chosen. subseq chosen (phase_rules ph cfg) \<and>
     (unconditional (phase_rules ph cfg) \<longrightarrow> chosen = phase_rules ph cfg) \<and>
     st' = actions_spec (concat (map actions chosen)) st)"

lemma ruled_no_rules: "phase_rules ph cfg = [] \<Longrightarrow> ruled ph cfg st st' \<longleftrightarrow> st' = st"
  by (simp add: ruled_def unconditional_def)

section \<open>The executors\<close>

context header_adapter
begin

lemma store_set: "field_store (get_all (set_h n v m)) k = (if iequals k n then [(n, v)] else field_store (get_all m) k)"
  using entries_cong [of k n] set_same [of n v m] entries_eq_of_others [OF set_rest [of n v m], of k]
  by (simp add: field_store_def)

lemma store_remove: "field_store (get_all (remove_h n m)) k = (if iequals k n then [] else field_store (get_all m) k)"
  using entries_cong [of k n] entries_others [of k n] by (simp add: field_store_def remove_all)

lemma store_effect:
  "field_store (get_all (action_effect set_h add_h replace_h remove_h a m)) = action_spec a (field_store (get_all m))"
proof
  fix k
  have eq: "iequals k n \<Longrightarrow> entries n (get_all m) = field_store (get_all m) k" for n
    by (simp add: field_store_def entries_cong)
  show "field_store (get_all (action_effect set_h add_h replace_h remove_h a m)) k = action_spec a (field_store (get_all m)) k"
    using eq [of "action_name a"]
    by (cases "data a"; cases "op a")
       (auto simp: action_effect_def action_spec_def action_name_def store_set store_remove add_eq replace_eq)
qed

end

context action_contract
begin

lemma exec_store:
  "action_ok a \<Longrightarrow> \<exists>m'. exec a m = (Inr (), m') \<and> field_store (get_all m') = action_spec a (field_store (get_all m))"
  "\<not> action_ok a \<Longrightarrow> \<exists>e. exec a m = (Inl e, m)"
  using exec_ok [of a m] exec_rejected [of a m] store_effect [of a m] by auto

lemma ExecuteActions_store:
  assumes "ExecuteActions exec acts m = (r, m')"
  shows "field_store (get_all m') = actions_spec acts (field_store (get_all m)) \<and> (r = Inr () \<longleftrightarrow> list_all action_ok acts)"
  using assms
proof (induction acts arbitrary: m)
  case (Cons a acts)
  show ?case
  proof (cases "action_ok a")
    case True
    with exec_store(1) [OF True, of m] Cons show ?thesis by auto
  next
    case False
    with exec_store(2) [OF False, of m] Cons.prems show ?thesis by auto
  qed
qed simp

text \<open>The loop: the actions of the rules it chooses, up to the first that is rejected.\<close>

lemma run_rules_store:
  assumes "run_rules dec (\<lambda>r. ExecuteActions exec (acts_of r)) rs m h = (res, m', h')"
  shows "\<exists>chosen. subseq chosen rs \<and> field_store (get_all m') = actions_spec (concat (map acts_of chosen)) (field_store (get_all m))"
  using assms
proof (induction rs arbitrary: m h)
  case (Cons r rs)
  obtain d h1 a m1 where d: "dec r m h = (d, h1)" and a: "ExecuteActions exec (acts_of r) m = (a, m1)"
    by (cases "dec r m h"; cases "ExecuteActions exec (acts_of r) m")
  note st = ExecuteActions_store [OF a]
  consider e where "d = Inl e" | "d = Inr False" | e where "d = Inr True" "a = Inl e" | "d = Inr True" "a = Inr ()"
    by (cases d; cases a) auto
  then show ?case
  proof cases
    case 1
    with Cons.prems d show ?thesis by (intro exI [of _ "[]"]) auto
  next
    case 2
    with Cons.prems d have "run_rules dec (\<lambda>r. ExecuteActions exec (acts_of r)) rs m h1 = (res, m', h')" by simp
    from Cons.IH [OF this] show ?thesis by (auto intro: list_emb_Cons)
  next
    case 3
    with Cons.prems d a st show ?thesis by (intro exI [of _ "[r]"]) auto
  next
    case 4
    with Cons.prems d a have "run_rules dec (\<lambda>r. ExecuteActions exec (acts_of r)) rs m1 h1 = (res, m', h')" by simp
    from Cons.IH [OF this] obtain chosen where "subseq chosen rs"
        "field_store (get_all m') = actions_spec (concat (map acts_of chosen)) (field_store (get_all m1))" by blast
    with st 4 show ?thesis by (intro exI [of _ "r # chosen"]) (simp add: actions_spec_append)
  qed
qed (auto intro: exI [of _ "[]"])

lemma ApplyRules_ruled:
  assumes "ApplyRules q eng rs (\<lambda>r. enabled r \<and> phase r = ph) inject match actions exec m h = (res, m', h')"
    and "cfg = Some \<lparr>rules = Some rs\<rparr>"
  shows "ruled ph cfg (field_store (get_all m)) (field_store (get_all m'))"
proof -
  let ?rs = "filter (\<lambda>r. enabled r \<and> phase r = ph) rs"
  have rs: "phase_rules ph cfg = ?rs" using assms(2) by (simp add: phase_rules_def)
  show ?thesis
  proof (cases "unconditional ?rs")
    case True
    have "ApplyRules q eng rs (\<lambda>r. enabled r \<and> phase r = ph) inject match actions exec m h =
        (case ExecuteActions exec (concat (map actions ?rs)) m of (res, m') \<Rightarrow> (res, m', h))"
      unfolding ApplyRules_run_rules
      by (rule run_rules_unconditional) (use True in \<open>auto simp: unconditional_def list_all_iff decide_def fun_eq_iff\<close>)
    with assms(1) have "ExecuteActions exec (concat (map actions ?rs)) m = (res, m')"
      by (simp split: prod.splits)
    from ExecuteActions_store [OF this] show ?thesis unfolding ruled_def rs by auto
  next
    case False
    with run_rules_store [OF assms(1) [unfolded ApplyRules_run_rules]] show ?thesis
      unfolding ruled_def rs by blast
  qed
qed

end

section \<open>ApplyRequest and ApplyResponse\<close>

lemma store_get_all [simp]:
  "field_store (RequestGetAllHeaders r) = field_store (rq_fields r)" "field_store (ResponseGetAllHeaders s) = field_store (rs_fields s)"
  by (simp_all add: RequestGetAllHeaders_def ResponseGetAllHeaders_def)

lemma HttpConfig_eq: "rules c = Some rs \<Longrightarrow> (c :: HttpConfig) = \<lparr>rules = Some rs\<rparr>"
  by (cases c) simp

context beast_fields
begin

lemma ApplyRequest_ruled:
  assumes "ApplyRequest q api eng cfg req h = (res, req', h')"
  shows "ruled PhaseRequest (Some cfg) (field_store (rq_fields req)) (field_store (rq_fields req'))"
proof (cases "rules cfg")
  case None
  with assms ruled_no_rules [of PhaseRequest "Some cfg"] show ?thesis by (simp add: ApplyRequest_def phase_rules_def)
next
  case (Some rs)
  show ?thesis
  proof (cases "rs = []")
    case True
    with Some assms ruled_no_rules [of PhaseRequest "Some cfg"] show ?thesis by (simp add: ApplyRequest_def phase_rules_def)
  next
    case False
    with Some assms show ?thesis
      using request_exec.ApplyRules_ruled [of q eng rs PhaseRequest _ req h res req' h' "Some cfg"] HttpConfig_eq [OF Some]
      by (simp add: ApplyRequest_def)
  qed
qed

lemma ApplyResponse_ruled:
  assumes "ApplyResponse q api eng cfg req rsp h = (res, rsp', h')"
  shows "ruled PhaseResponse (Some cfg) (field_store (rs_fields rsp)) (field_store (rs_fields rsp'))"
proof (cases "rules cfg")
  case None
  with assms ruled_no_rules [of PhaseResponse "Some cfg"] show ?thesis by (simp add: ApplyResponse_def phase_rules_def)
next
  case (Some rs)
  with assms show ?thesis
    using response_exec.ApplyRules_ruled [of q eng rs PhaseResponse _ rsp h res rsp' h' "Some cfg"] HttpConfig_eq [OF Some]
    by (simp add: ApplyResponse_def)
qed

end

end
