(* ===== verification/Session_Exchange.thy ===== *)
theory Session_Exchange
  imports Session_Connect Session_Chunked Rule_Effects
begin

text \<open>
  The exchanges of a session: body forwarding by framing, \<open>HandleOneExchange\<close>,
  \<open>HandleConnectExchange\<close> and \<open>Run\<close> (\<open>http_proxy_session.cpp\<close>).

  \<^item> The parameters are gathered in \<open>world\<close>: the network, the executor's choices in a tunnel,
    Boost.URL, Boost.Beast and QuickJS. The script engine's state \<open>'h\<close> is passed along with
    the session: it is shared by all sessions and outlives them. \<open>others\<close> is what the other
    sessions have done to it whenever this session comes to use it: they run while this one
    awaits its network, and a session touches the engine only while rules are applied, which
    nothing interrupts.
  \<^item> An exchange returns \<open>Continue\<close> or \<open>Close\<close>, or ends in an exception; \<open>None\<close> is an
    exchange that never returns (a loop that spins).
\<close>

section \<open>Definitions\<close>

record ('h, 'v) world =
  net :: asio
  executor :: "io_log \<Rightarrow> peer"
  urls :: url_api
  beast :: message_api
  js :: "('h, 'v) quickjs"
  others :: "io_log \<Rightarrow> 'h \<Rightarrow> 'h"

datatype ExchangeResult = ExContinue | ExClose

datatype exchange_outcome = Returned ExchangeResult | Threw string

section \<open>Bodies\<close>

definition ForwardRequestBodyByContentLength ::
    "asio \<Rightarrow> size_t \<Rightarrow> session \<Rightarrow> (bool \<times> session) option" where
  "ForwardRequestBodyByContentLength env n s = ForwardExactly env Client Remote n s"

definition ForwardRequestBodyByChunked :: "asio \<Rightarrow> session \<Rightarrow> (bool \<times> session) option" where
  "ForwardRequestBodyByChunked env s = ForwardChunked env Client Remote s"

definition ForwardRequestBody :: "asio \<Rightarrow> request_parser \<Rightarrow> session \<Rightarrow> (bool \<times> session) option" where
  "ForwardRequestBody env p s =
     (let info = DetermineRequestBodyInfo p in
      case framing info of
        ReqContentLength \<Rightarrow> ForwardRequestBodyByContentLength env (content_length info) s
      | ReqChunked \<Rightarrow> ForwardRequestBodyByChunked env s
      | ReqNone \<Rightarrow> Some (True, s))"

definition ForwardResponseBodyByContentLength ::
    "asio \<Rightarrow> size_t \<Rightarrow> session \<Rightarrow> (bool \<times> session) option" where
  "ForwardResponseBodyByContentLength env n s = ForwardExactly env Remote Client n s"

definition ForwardResponseBodyByChunked :: "asio \<Rightarrow> session \<Rightarrow> (bool \<times> session) option" where
  "ForwardResponseBodyByChunked env s = ForwardChunked env Remote Client s"

definition ForwardResponseBodyByCloseDelimited :: "asio \<Rightarrow> session \<Rightarrow> (bool \<times> session) option" where
  "ForwardResponseBodyByCloseDelimited env s = ForwardUntilEof env Remote Client s"

definition ForwardResponseBody ::
    "asio \<Rightarrow> request_parser \<Rightarrow> response_parser \<Rightarrow> session \<Rightarrow> (bool \<times> session) option" where
  "ForwardResponseBody env p r s =
     (let info = DetermineResponseBodyInfo p r in
      case framing info of
        RespContentLength \<Rightarrow> ForwardResponseBodyByContentLength env (content_length info) s
      | RespChunked \<Rightarrow> ForwardResponseBodyByChunked env s
      | RespCloseDelimited \<Rightarrow> ForwardResponseBodyByCloseDelimited env s
      | RespTunnel \<Rightarrow> Some (False, s)
      | RespNone \<Rightarrow> Some (True, s))"

section \<open>Exchanges\<close>

definition HandleConnectExchange ::
    "('h, 'v) world \<Rightarrow> request_header \<Rightarrow> session \<Rightarrow> (ExchangeResult \<times> session) option" where
  "HandleConnectExchange w req s =
     (case ParseRemoteInfo (urls w) req of
        None \<Rightarrow> Some (ExClose, s)
      | Some info \<Rightarrow>
          (case EnsureRemoteConnected (net w) info s of
             (False, s1) \<Rightarrow> Some (ExClose, s1)
           | (True, s1) \<Rightarrow>
               (case WriteConnectEstablishedResponseToClient (net w) (beast w) s1 of
                  (False, s2) \<Rightarrow> Some (ExClose, s2)
                | (True, s2) \<Rightarrow>
                    (case RelayTunnelBidirectional (net w) (executor w) s2 of
                       None \<Rightarrow> None
                     | Some r \<Rightarrow> Some (ExClose, shared r)))))"

text \<open>The two places where the rules are applied; their errors are logged and the exchange goes on.\<close>

definition apply_request_rules ::
    "('h, 'v) world \<Rightarrow> RuleEngine \<Rightarrow> session \<Rightarrow> request_header \<Rightarrow> 'h \<Rightarrow> request_header \<times> 'h" where
  "apply_request_rules w eng s hdr h =
     (let h0 = others w (io_log s) h in
      case rule_http_config s of
        None \<Rightarrow> (hdr, h0)
      | Some cfg \<Rightarrow> (case ApplyRequest (js w) (fields_of (beast w)) eng cfg hdr h0 of
          (_, hdr', h') \<Rightarrow> (hdr', h')))"

definition apply_response_rules ::
    "('h, 'v) world \<Rightarrow> RuleEngine \<Rightarrow> session \<Rightarrow> request_header \<Rightarrow> response_header \<Rightarrow> 'h \<Rightarrow>
     response_header \<times> 'h" where
  "apply_response_rules w eng s req hdr h =
     (let h0 = others w (io_log s) h in
      case rule_http_config s of
        None \<Rightarrow> (hdr, h0)
      | Some cfg \<Rightarrow> (case ApplyResponse (js w) (fields_of (beast w)) eng cfg req hdr h0 of
          (_, hdr', h') \<Rightarrow> (hdr', h')))"

text \<open>The second half of \<open>HandleOneExchange\<close>, from the response header on.\<close>

definition exchange_response ::
    "('h, 'v) world \<Rightarrow> RuleEngine \<Rightarrow> request_parser \<Rightarrow> request_header \<Rightarrow> session \<Rightarrow> 'h \<Rightarrow>
     (exchange_outcome \<times> session \<times> 'h) option" where
  "exchange_response w eng parser remote_req s h =
     (case ReadRemoteResponseHeader (net w) s of
        (None, s1) \<Rightarrow> Some (Returned ExClose, s1, h)
      | (Some (response_parser, res), s1) \<Rightarrow>
          (case apply_response_rules w eng s1 remote_req res h of (res', h1) \<Rightarrow>
             (case WriteRemoteResponseHeaderToClient (net w) (beast w) res' s1 of
                (False, s2) \<Rightarrow> Some (Returned ExClose, s2, h1)
              | (True, s2) \<Rightarrow>
                  (case ForwardResponseBody (net w) parser response_parser s2 of
                     None \<Rightarrow> None
                   | Some (False, s3) \<Rightarrow> Some (Returned ExClose, s3, h1)
                   | Some (True, s3) \<Rightarrow>
                       if ShouldKeepAlive (net w) parser response_parser s3
                       then Some (Returned ExContinue, s3, h1)
                       else Some (Returned ExClose, s3, h1)))))"

text \<open>The exchange with a remote, for a request that is not a CONNECT.\<close>

definition forward_exchange ::
    "('h, 'v) world \<Rightarrow> RuleEngine \<Rightarrow> request_parser \<Rightarrow> request_header \<Rightarrow> session \<Rightarrow> 'h \<Rightarrow>
     (exchange_outcome \<times> session \<times> 'h) option" where
  "forward_exchange w eng parser req s h =
     (case ParseRemoteInfo (urls w) req of
        None \<Rightarrow> Some (Returned ExClose, s, h)
      | Some info \<Rightarrow>
          (case EnsureRemoteConnected (net w) info s of
             (False, s1) \<Rightarrow> Some (Returned ExClose, s1, h)
           | (True, s1) \<Rightarrow>
               (case BuildRemoteRequestHeader (beast w) req info of
                  None \<Rightarrow> Some (Threw ''unknown verb'', s1, h)
                | Some remote_req \<Rightarrow>
                    (case apply_request_rules w eng s1 remote_req h of (remote_req', h1) \<Rightarrow>
                       (case WriteRemoteRequestHeader (net w) (beast w) remote_req' s1 of
                          None \<Rightarrow> Some (Threw ''unknown verb'', s1, h1)
                        | Some (False, s2) \<Rightarrow> Some (Returned ExClose, s2, h1)
                        | Some (True, s2) \<Rightarrow>
                            (case ForwardRequestBody (net w) parser s2 of
                               None \<Rightarrow> None
                             | Some (False, s3) \<Rightarrow> Some (Returned ExClose, s3, h1)
                             | Some (True, s3) \<Rightarrow>
                                 exchange_response w eng parser remote_req' s3 h1))))))"

definition HandleOneExchange ::
    "('h, 'v) world \<Rightarrow> RuleEngine \<Rightarrow> session \<Rightarrow> 'h \<Rightarrow> (exchange_outcome \<times> session \<times> 'h) option" where
  "HandleOneExchange w eng s h =
     (case ReadClientRequestHeader (net w) s of
        (None, s1) \<Rightarrow> Some (Returned ExClose, s1, h)
      | (Some (parser, req), s1) \<Rightarrow>
          if rq_method req = verb_connect then
            (case HandleConnectExchange w req s1 of
               None \<Rightarrow> None
             | Some (result, s2) \<Rightarrow> Some (Returned result, s2, h))
          else forward_exchange w eng parser req s1 h)"

text \<open>
  \<open>Run\<close>: exchanges until one does not ask to continue, then \<open>Close\<close>. An exception leaves
  \<open>Run\<close> without closing. The outcome of an iteration that never returns is \<open>Inr None\<close>.
\<close>

definition Run_body ::
    "('h, 'v) world \<Rightarrow> RuleEngine \<Rightarrow> session \<times> 'h \<Rightarrow>
     (session \<times> 'h) + (string option \<times> session \<times> 'h) option" where
  "Run_body w eng st = (case st of (s, h) \<Rightarrow>
     (case HandleOneExchange w eng s h of
        None \<Rightarrow> Inr None
      | Some (Returned ExContinue, s1, h1) \<Rightarrow> Inl (s1, h1)
      | Some (Returned ExClose, s1, h1) \<Rightarrow> Inr (Some (None, Close (net w) s1, h1))
      | Some (Threw msg, s1, h1) \<Rightarrow> Inr (Some (Some msg, s1, h1))))"

definition Run ::
    "('h, 'v) world \<Rightarrow> RuleEngine \<Rightarrow> session \<Rightarrow> 'h \<Rightarrow> (string option \<times> session \<times> 'h) option" where
  "Run w eng s h = (case loop (Run_body w eng) (s, h) of None \<Rightarrow> None | Some r \<Rightarrow> r)"

section \<open>Body forwarding adds reads and writes only\<close>

fun byte_event :: "io_event \<Rightarrow> bool" where
  "byte_event (EvReadSome p ec bs) = True"
| "byte_event (EvWrite p bs ec n) = True"
| "byte_event e = False"

text \<open>Reads from \<open>f\<close> and writes to \<open>t\<close> only.\<close>

fun forwards :: "peer \<Rightarrow> peer \<Rightarrow> io_event \<Rightarrow> bool" where
  "forwards f t (EvReadSome p ec bs) \<longleftrightarrow> p = f"
| "forwards f t (EvWrite p bs ec n) \<longleftrightarrow> p = t"
| "forwards f t e \<longleftrightarrow> False"

lemma forwards_byte_event: "forwards f t e \<Longrightarrow> byte_event e"
  by (cases e) simp_all

definition moves :: "peer \<Rightarrow> peer \<Rightarrow> session \<Rightarrow> session \<Rightarrow> bool" where
  "moves f t s s' \<longleftrightarrow> (\<exists>evs. io_log s' = io_log s @ evs \<and> (\<forall>e \<in> set evs. forwards f t e)) \<and>
     remote_state s' = remote_state s \<and> closed s' = closed s \<and>
     rule_http_config s' = rule_http_config s \<and> session_id s' = session_id s"

lemma moves_refl: "moves f t s s"
  by (simp add: moves_def)

lemma moves_trans: "moves f t s s' \<Longrightarrow> moves f t s' s'' \<Longrightarrow> moves f t s s''"
  unfolding moves_def by auto

lemma keeps_moves:
  assumes "keeps p s s'" and "io_log s' = io_log s @ [e]" and "forwards f t e"
  shows "moves f t s s'"
  using assms keepsD [OF assms(1)] by (simp add: moves_def)

lemma moves_read: "ReadSomeFromPeer env f s = (r, s') \<Longrightarrow> moves f t s s'"
proof -
  assume r: "ReadSomeFromPeer env f s = (r, s')"
  then obtain ec bs where "io_log s' = io_log s @ [EvReadSome f ec bs]"
    by (auto simp: ReadSomeFromPeer_def Let_def split: prod.splits option.splits if_splits)
  moreover have "keeps f s s'" using transfer_read [OF r, of f] by (simp add: transfer_def)
  ultimately show ?thesis by (simp add: keeps_moves [of f s s' "EvReadSome f ec bs" f t])
qed

lemma moves_write: "WriteToPeer env f t n s = (r, s') \<Longrightarrow> moves f t s s'"
proof -
  assume r: "WriteToPeer env f t n s = (r, s')"
  then obtain bs ec k where "io_log s' = io_log s @ [EvWrite t bs ec k]"
    by (auto simp: WriteToPeer_def Let_def split: prod.splits if_splits)
  moreover have "keeps f s s'"
    using r WriteToPeer_NoneD(1) [of env f t n s s'] WriteToPeer_SomeD(2) [of env f t n s _ s']
    by (cases r) (auto simp: transfer_def)
  ultimately show ?thesis by (simp add: keeps_moves [of f s s' "EvWrite t bs ec k" f t])
qed

lemma ForwardExactly_body_moves:
  assumes "ForwardExactly_body env f t n (k, s) = r"
  shows "moves f t s (case r of Inl (_, s') \<Rightarrow> s' | Inr (_, s') \<Rightarrow> s')"
  using assms moves_refl [of f t s] moves_read [of env f s _ _ t] moves_write [of env f t _ s]
    moves_trans [OF moves_read moves_write]
  by (auto simp: ForwardExactly_body_def Let_def split: prod.splits option.splits if_splits)

lemma ForwardExactly_moves:
  assumes "ForwardExactly env f t n s = Some (ok, s')"
  shows "moves f t s s'"
proof -
  have "moves f t s (snd (ok, s'))"
  proof (rule loop_invariant [OF assms [unfolded ForwardExactly_def], where P = "\<lambda>st. moves f t s (snd st)"])
    fix st st'
    assume "moves f t s (snd st)" "ForwardExactly_body env f t n st = Inl st'"
    then show "moves f t s (snd st')"
      using ForwardExactly_body_moves [of env f t n "fst st" "snd st"] moves_trans
      by (cases st') fastforce
  next
    fix st r
    assume "moves f t s (snd st)" "ForwardExactly_body env f t n st = Inr r"
    then show "moves f t s (snd r)"
      using ForwardExactly_body_moves [of env f t n "fst st" "snd st"] moves_trans
      by (cases r) fastforce
  qed (simp add: moves_refl)
  then show ?thesis by simp
qed

lemma ForwardChunked_body_moves:
  assumes "ForwardChunked_body env f t c = r"
  shows "moves f t (sess c) (case r of Inl c' \<Rightarrow> sess c' | Inr (_, s') \<Rightarrow> s')"
  using assms moves_refl [of f t "sess c"] moves_read [of env f "sess c" _ _ t] moves_write [of env f t _ "sess c"]
  by (auto simp: ForwardChunked_body_def Let_def
      split: ChunkedState.splits prod.splits option.splits if_splits)

lemma ForwardChunked_moves:
  assumes "ForwardChunked env f t s = Some (ok, s')"
  shows "moves f t s s'"
proof -
  have "moves f t s (snd (ok, s'))"
  proof (rule loop_invariant [OF assms [unfolded ForwardChunked_def], where P = "\<lambda>c. moves f t s (sess c)"])
    fix c c'
    assume "moves f t s (sess c)" "ForwardChunked_body env f t c = Inl c'"
    then show "moves f t s (sess c')"
      using ForwardChunked_body_moves [of env f t c] moves_trans by fastforce
  next
    fix c r
    assume "moves f t s (sess c)" "ForwardChunked_body env f t c = Inr r"
    then show "moves f t s (snd r)"
      using ForwardChunked_body_moves [of env f t c] moves_trans by (cases r) fastforce
  qed (simp add: moves_refl chunked_init_def)
  then show ?thesis by simp
qed

lemma ForwardUntilEof_body_moves:
  assumes "ForwardUntilEof_body env f t s = r"
  shows "moves f t s (case r of Inl s' \<Rightarrow> s' | Inr (_, s') \<Rightarrow> s')"
  using assms moves_read [of env f s _ _ t] moves_trans [OF moves_read moves_write]
  by (auto simp: ForwardUntilEof_body_def Let_def split: prod.splits option.splits if_splits)

lemma until_eof_moves:
  assumes "loop (ForwardUntilEof_body env f t) s = Some (ok, s')"
  shows "moves f t s s'"
proof -
  have "moves f t s (snd (ok, s'))"
  proof (rule loop_invariant [OF assms, where P = "moves f t s"])
    fix c c'
    assume "moves f t s c" "ForwardUntilEof_body env f t c = Inl c'"
    then show "moves f t s c'"
      using ForwardUntilEof_body_moves [of env f t c] moves_trans by fastforce
  next
    fix c r
    assume "moves f t s c" "ForwardUntilEof_body env f t c = Inr r"
    then show "moves f t s (snd r)"
      using ForwardUntilEof_body_moves [of env f t c] moves_trans by (cases r) fastforce
  qed (rule moves_refl)
  then show ?thesis by simp
qed

lemma ForwardUntilEof_moves:
  assumes "ForwardUntilEof env f t s = Some (ok, s')"
  shows "moves f t s s'"
  using assms until_eof_moves [of env f t s ok s'] moves_write [of env f t _ s]
    moves_trans [OF moves_write until_eof_moves]
  by (auto simp: ForwardUntilEof_def split: if_splits prod.splits option.splits)

lemma bodies_move:
  "ForwardRequestBody env p s = Some (ok, s') \<Longrightarrow> moves Client Remote s s'"
  "ForwardResponseBody env p r s = Some (ok, s') \<Longrightarrow> moves Remote Client s s'"
  using moves_refl [of _ _ s] ForwardExactly_moves ForwardChunked_moves ForwardUntilEof_moves
  by (auto simp: ForwardRequestBody_def ForwardRequestBodyByContentLength_def ForwardRequestBodyByChunked_def
      ForwardResponseBody_def ForwardResponseBodyByContentLength_def ForwardResponseBodyByChunked_def
      ForwardResponseBodyByCloseDelimited_def Let_def
      split: RequestBodyFraming.splits ResponseBodyFraming.splits)

section \<open>Logs in which every event is justified by what came before\<close>

definition log_inv :: "(io_log \<Rightarrow> io_event \<Rightarrow> bool) \<Rightarrow> io_log \<Rightarrow> bool" where
  "log_inv C log \<longleftrightarrow> (\<forall>pre e post. log = pre @ e # post \<longrightarrow> C pre e)"

lemma log_inv_Nil [simp]: "log_inv C []"
  by (simp add: log_inv_def)

lemma log_inv_snoc [simp]: "log_inv C (log @ [e]) \<longleftrightarrow> log_inv C log \<and> C log e"
proof
  assume l: "log_inv C (log @ [e])"
  have "C pre e'" if "log = pre @ e' # post" for pre e' post
    using l that unfolding log_inv_def by (metis append_Cons append_assoc)
  then show "log_inv C log \<and> C log e"
    using l by (auto simp: log_inv_def)
next
  assume r: "log_inv C log \<and> C log e"
  have "C pre e'" if "log @ [e] = pre @ e' # post" for pre e' post
  proof (cases post rule: rev_cases)
    case Nil
    with that r show ?thesis by simp
  next
    case (snoc post' x)
    with that have "log = pre @ e' # post'" by simp
    with r show ?thesis by (simp add: log_inv_def)
  qed
  then show "log_inv C (log @ [e])" by (simp add: log_inv_def)
qed

text \<open>The request the session last read, and the response it has read since.\<close>

fun request_step :: "io_event \<Rightarrow> request_parser option \<Rightarrow> request_parser option" where
  "request_step (EvReadRequest None p) r = Some p"
| "request_step e r = r"

fun response_step :: "io_event \<Rightarrow> response_parser option \<Rightarrow> response_parser option" where
  "response_step (EvReadRequest ec p) r = None"
| "response_step (EvReadResponse None p) r = Some p"
| "response_step e r = r"

definition last_request :: "io_log \<Rightarrow> request_parser option" where
  "last_request log = fold request_step log None"

definition last_response :: "io_log \<Rightarrow> response_parser option" where
  "last_response log = fold response_step log None"

lemma last_snoc [simp]:
  "last_request (log @ [e]) = request_step e (last_request log)"
  "last_response (log @ [e]) = response_step e (last_response log)"
  by (simp_all add: last_request_def last_response_def)

text \<open>
  What the proxy may send. A request goes to the host its target names, with the method and
  version of the client's, and every protected header as the client sent it, except the
  proxy's own three, which are gone. A response carries the protected headers of the
  remote's, or is the answer to a CONNECT whose connection is up.
\<close>

definition faithful_request :: "request_header \<Rightarrow> RemoteInfo \<Rightarrow> request_header \<Rightarrow> bool" where
  "faithful_request req info hdr \<longleftrightarrow> rq_method hdr = rq_method req \<and> version hdr = version req \<and>
     target hdr = forward_target info \<and>
     (\<forall>k. is_protected k \<longrightarrow>
        entries k (rq_fields hdr) = (if is_erased k then [] else entries k (rq_fields req)))"

definition faithful_response :: "message_api \<Rightarrow> response_header \<Rightarrow> response_header \<Rightarrow> bool" where
  "faithful_response api res hdr \<longleftrightarrow> result_int hdr = int_to_status api (result_int res) \<and>
     reason hdr = reason res \<and> rs_version hdr = rs_version res \<and>
     (\<forall>k. is_protected k \<longrightarrow> entries k (rs_fields hdr) = entries k (rs_fields res))"

text \<open>The headers of a request before the rules see them: the proxy's own three are gone.\<close>

definition forwarded_store :: "request_header \<Rightarrow> header_store" where
  "forwarded_store req = (\<lambda>k. if is_erased k then [] else field_store (rq_fields req) k)"

definition linked :: "('h, 'v) world \<Rightarrow> io_log \<Rightarrow> request_header \<Rightarrow> RemoteInfo \<Rightarrow> bool" where
  "linked w log req info \<longleftrightarrow> ParseRemoteInfo (urls w) req = Some info \<and>
     link log = Some (ri_host info, ri_port info)"

definition event_ok :: "('h, 'v) world \<Rightarrow> HttpConfig option \<Rightarrow> io_log \<Rightarrow> io_event \<Rightarrow> bool" where
  "event_ok w cfg log e = (case e of
     EvWriteRequest hdr ec \<Rightarrow> (\<exists>p info. last_request log = Some p \<and> linked w log (rq_header p) info \<and>
       rq_method (rq_header p) \<noteq> verb_connect \<and> faithful_request (rq_header p) info hdr \<and>
       ruled PhaseRequest cfg (forwarded_store (rq_header p)) (field_store (rq_fields hdr)))
   | EvWriteResponse hdr ec \<Rightarrow> (\<exists>p info. last_request log = Some p \<and> linked w log (rq_header p) info \<and>
       (if rq_method (rq_header p) = verb_connect then result_int hdr = 200
        else (\<exists>r. last_response log = Some r \<and> faithful_response (beast w) (rs_header r) hdr \<and>
          ruled PhaseResponse cfg (field_store (rs_fields (rs_header r))) (field_store (rs_fields hdr)))))
   | _ \<Rightarrow> True)"

definition log_ok :: "('h, 'v) world \<Rightarrow> HttpConfig option \<Rightarrow> io_log \<Rightarrow> bool" where
  "log_ok w cfg log \<longleftrightarrow> log_inv (event_ok w cfg) log"

text \<open>Events that need no justification and read no message.\<close>

definition plain_event :: "io_event \<Rightarrow> bool" where
  "plain_event e \<longleftrightarrow> byte_event e \<or> connect_event e"

lemma plain_events:
  assumes "\<forall>e \<in> set evs. plain_event e"
  shows "log_ok w cfg (log @ evs) = log_ok w cfg log" "last_request (log @ evs) = last_request log"
    "last_response (log @ evs) = last_response log"
proof -
  have "event_ok w cfg l e \<and> request_step e r = r \<and> response_step e r' = r'" if "plain_event e" for l e r r'
    using that by (cases e) (simp_all add: plain_event_def event_ok_def)
  with assms show "log_ok w cfg (log @ evs) = log_ok w cfg log" "last_request (log @ evs) = last_request log"
    "last_response (log @ evs) = last_response log"
    by (induction evs rule: rev_induct) (auto simp: log_ok_def simp flip: append_assoc)
qed

lemma byte_events_neutral: "\<forall>e \<in> set evs. byte_event e \<Longrightarrow> \<forall>e \<in> set evs. link_neutral e"
proof -
  have "byte_event e \<Longrightarrow> link_neutral e" for e by (cases e) simp_all
  then show "\<forall>e \<in> set evs. byte_event e \<Longrightarrow> \<forall>e \<in> set evs. link_neutral e" by blast
qed

text \<open>What byte transfers keep.\<close>

definition same_view :: "('h, 'v) world \<Rightarrow> session \<Rightarrow> session \<Rightarrow> bool" where
  "same_view w s s' \<longleftrightarrow> last_request (io_log s') = last_request (io_log s) \<and>
     last_response (io_log s') = last_response (io_log s) \<and> link (io_log s') = link (io_log s) \<and>
     log_ok w (rule_http_config s) (io_log s') = log_ok w (rule_http_config s) (io_log s) \<and> remote_state s' = remote_state s \<and>
     closed s' = closed s \<and> rule_http_config s' = rule_http_config s"

lemma moves_same_view:
  assumes "moves f t s s'"
  shows "same_view w s s'"
proof -
  from assms obtain evs where evs: "io_log s' = io_log s @ evs" "\<forall>e \<in> set evs. byte_event e"
    by (auto simp: moves_def dest: forwards_byte_event)
  then have "\<forall>e \<in> set evs. plain_event e" by (simp add: plain_event_def)
  from plain_events [OF this] link_append [OF byte_events_neutral [OF evs(2)]] evs(1) assms
  show ?thesis by (simp add: same_view_def moves_def)
qed

definition session_ok :: "('h, 'v) world \<Rightarrow> HttpConfig option \<Rightarrow> session \<Rightarrow> bool" where
  "session_ok w cfg s \<longleftrightarrow> link_ok s \<and> rule_http_config s = cfg \<and> log_ok w cfg (io_log s)"

lemma same_view_ok: "same_view w s s' \<Longrightarrow> session_ok w cfg s \<Longrightarrow> session_ok w cfg s'"
  by (simp add: same_view_def session_ok_def link_ok_def)

lemma session_ok_init: "session_ok w cfg (HttpProxySession sid cfg)"
  by (simp add: session_ok_def link_ok_def log_ok_def HttpProxySession_def)

section \<open>Every step keeps the session justified\<close>

lemma Ensure_ok:
  assumes "EnsureRemoteConnected env info s = (ok, s')" and "session_ok w cfg s"
  shows "session_ok w cfg s'" "last_request (io_log s') = last_request (io_log s)"
    "rule_http_config s' = rule_http_config s"
    "ok \<Longrightarrow> link (io_log s') = Some (ri_host info, ri_port info)"
proof -
  from EnsureRemoteConnected_frame(5) [OF assms(1)] obtain evs where
      evs: "io_log s' = io_log s @ evs" "\<forall>e \<in> set evs. plain_event e" by (auto simp: plain_event_def)
  note pl = plain_events [OF evs(2)]
  show "session_ok w cfg s'"
    using EnsureRemoteConnected_link_ok [OF assms(1)] EnsureRemoteConnected_frame(4) [OF assms(1)] assms(2)
    by (simp add: session_ok_def evs(1) pl(1))
  show "last_request (io_log s') = last_request (io_log s)" using evs(1) pl(2) by simp
  show "rule_http_config s' = rule_http_config s" using EnsureRemoteConnected_frame(4) [OF assms(1)] .
  show "ok \<Longrightarrow> link (io_log s') = Some (ri_host info, ri_port info)"
    using EnsureRemoteConnected_True(1) [of env info s s'] assms by (simp add: session_ok_def)
qed

lemma set_buf_fields [simp]:
  "remote_state (set_buf p b s) = remote_state s" "closed (set_buf p b s) = closed s"
  "rule_http_config (set_buf p b s) = rule_http_config s"
  by (cases p; simp)+

text \<open>One event that is justified and leaves the connection alone.\<close>

lemma event_session_ok:
  assumes "session_ok w cfg s" and "io_log s' = io_log s @ [e]" and "remote_state s' = remote_state s"
    and "rule_http_config s' = rule_http_config s" and "link_neutral e" and "event_ok w cfg (io_log s) e"
  shows "session_ok w cfg s'" "link (io_log s') = link (io_log s)"
  using assms link_append [of "[e]" "io_log s"] by (simp_all add: session_ok_def link_ok_def log_ok_def)

lemma ReadClientRequestHeader_ok:
  assumes "ReadClientRequestHeader env s = (r, s')" and "session_ok w cfg s"
  shows "session_ok w cfg s'" "rule_http_config s' = rule_http_config s"
    "r = Some (p, req) \<Longrightarrow> last_request (io_log s') = Some p \<and> req = rq_header p"
proof -
  obtain ec q rest where rd: "async_read_request_header env (io_log s) (buf Client s) = (ec, q, rest)"
    by (cases "async_read_request_header env (io_log s) (buf Client s)") auto
  with assms(1) have s': "s' = set_buf Client rest (record_event (EvReadRequest ec q) s)"
    and r: "r = (if ec \<noteq> None then None else Some (q, rq_header q))"
    by (auto simp: ReadClientRequestHeader_def Let_def split: if_splits)
  show "session_ok w cfg s'"
    by (rule event_session_ok(1) [OF assms(2), of _ "EvReadRequest ec q"]) (simp_all add: s' event_ok_def)
  show "rule_http_config s' = rule_http_config s" by (simp add: s')
  show "r = Some (p, req) \<Longrightarrow> last_request (io_log s') = Some p \<and> req = rq_header p"
    using r by (auto simp: s' split: if_splits)
qed

lemma ReadRemoteResponseHeader_ok:
  assumes "ReadRemoteResponseHeader env s = (r, s')" and "session_ok w cfg s"
  shows "session_ok w cfg s'" "rule_http_config s' = rule_http_config s" "link (io_log s') = link (io_log s)"
    "last_request (io_log s') = last_request (io_log s)"
    "r = Some (p, res) \<Longrightarrow> last_response (io_log s') = Some p \<and> res = rs_header p"
proof -
  obtain ec q rest where rd: "async_read_response_header env (io_log s) (buf Remote s) = (ec, q, rest)"
    by (cases "async_read_response_header env (io_log s) (buf Remote s)") auto
  with assms(1) have s': "s' = set_buf Remote rest (record_event (EvReadResponse ec q) s)"
    and r: "r = (if ec \<noteq> None then None else Some (q, rs_header q))"
    by (auto simp: ReadRemoteResponseHeader_def Let_def split: if_splits)
  show "session_ok w cfg s'" "link (io_log s') = link (io_log s)"
    by (rule event_session_ok [OF assms(2), of _ "EvReadResponse ec q"]; simp add: s' event_ok_def)+
  show "rule_http_config s' = rule_http_config s" "last_request (io_log s') = last_request (io_log s)"
    by (simp_all add: s')
  show "r = Some (p, res) \<Longrightarrow> last_response (io_log s') = Some p \<and> res = rs_header p"
    using r by (auto simp: s' split: if_splits)
qed

text \<open>The header written to the remote: built, changed by the rules, copied.\<close>

lemma apply_request_rules_spec:
  assumes "beast_fields (fields_of (beast w))" and "apply_request_rules w eng s hdr h = (hdr', h')"
  shows "request_kept hdr hdr'"
    "ruled PhaseRequest (rule_http_config s) (field_store (rq_fields hdr)) (field_store (rq_fields hdr'))"
proof -
  have "request_kept hdr hdr' \<and>
    ruled PhaseRequest (rule_http_config s) (field_store (rq_fields hdr)) (field_store (rq_fields hdr'))"
  proof (cases "rule_http_config s")
    case None
    with assms(2) show ?thesis
      by (simp add: apply_request_rules_def request_kept_def ruled_no_rules phase_rules_def)
  next
    case (Some cfg)
    with assms(2) obtain r where "ApplyRequest (js w) (fields_of (beast w)) eng cfg hdr (others w (io_log s) h) = (r, hdr', h')"
      by (auto simp: apply_request_rules_def Let_def split: prod.splits)
    with Some beast_fields.ApplyRequest_ruled [OF assms(1) this] show ?thesis
      using beast_fields.ApplyRequest_kept [OF assms(1), of hdr "js w" eng cfg "others w (io_log s) h"] by simp
  qed
  then show "request_kept hdr hdr'"
    "ruled PhaseRequest (rule_http_config s) (field_store (rq_fields hdr)) (field_store (rq_fields hdr'))" by simp_all
qed

lemma apply_response_rules_spec:
  assumes "beast_fields (fields_of (beast w))" and "apply_response_rules w eng s req res h = (res', h')"
  shows "response_kept res res'"
    "ruled PhaseResponse (rule_http_config s) (field_store (rs_fields res)) (field_store (rs_fields res'))"
proof -
  have "response_kept res res' \<and>
    ruled PhaseResponse (rule_http_config s) (field_store (rs_fields res)) (field_store (rs_fields res'))"
  proof (cases "rule_http_config s")
    case None
    with assms(2) show ?thesis
      by (simp add: apply_response_rules_def response_kept_def ruled_no_rules phase_rules_def)
  next
    case (Some cfg)
    with assms(2) obtain r where "ApplyResponse (js w) (fields_of (beast w)) eng cfg req res (others w (io_log s) h) = (r, res', h')"
      by (auto simp: apply_response_rules_def Let_def split: prod.splits)
    with Some beast_fields.ApplyResponse_ruled [OF assms(1) this] show ?thesis
      using beast_fields.ApplyResponse_kept [OF assms(1), of res "js w" eng cfg req "others w (io_log s) h"] by simp
  qed
  then show "response_kept res res'"
    "ruled PhaseResponse (rule_http_config s) (field_store (rs_fields res)) (field_store (rs_fields res'))" by simp_all
qed

lemma request_header_faithful:
  assumes "beast_fields (fields_of (beast w))" and "BuildRemoteRequestHeader (beast w) req info = Some hdr"
    and "apply_request_rules w eng s hdr h = (hdr', h')"
  shows "faithful_request req info (request_copy (beast w) hdr')"
    "ruled PhaseRequest (rule_http_config s) (forwarded_store req) (field_store (rq_fields (request_copy (beast w) hdr')))"
proof -
  note b = BuildRemoteRequestHeader_correct [OF assms(1,2)] and c = beast_fields.insert_fields_entries [OF assms(1)]
  note r = apply_request_rules_spec [OF assms(1,3)]
  from r(1) b c show "faithful_request req info (request_copy (beast w) hdr')"
    by (simp add: faithful_request_def request_copy_def request_kept_def)
  have "field_store (rq_fields hdr) = forwarded_store req"
    using b(4) by (simp add: field_store_def forwarded_store_def fun_eq_iff)
  with r(2) c show "ruled PhaseRequest (rule_http_config s) (forwarded_store req)
      (field_store (rq_fields (request_copy (beast w) hdr')))"
    by (simp add: request_copy_def field_store_def)
qed

lemma response_header_faithful:
  assumes "beast_fields (fields_of (beast w))" and "apply_response_rules w eng s req res h = (res', h')"
  shows "faithful_response (beast w) res (response_copy (beast w) res')"
    "ruled PhaseResponse (rule_http_config s) (field_store (rs_fields res)) (field_store (rs_fields (response_copy (beast w) res')))"
  using apply_response_rules_spec [OF assms] beast_fields.insert_fields_entries [OF assms(1)]
  by (simp_all add: faithful_response_def response_copy_def response_kept_def field_store_def)

lemma WriteRemoteRequestHeader_ok:
  assumes "WriteRemoteRequestHeader (net w) (beast w) hdr' s = Some (ok, s')" and "session_ok w cfg s"
    and "beast_fields (fields_of (beast w))" and "BuildRemoteRequestHeader (beast w) (rq_header p) info = Some hdr"
    and "apply_request_rules w eng s hdr h = (hdr', h')"
    and "last_request (io_log s) = Some p" and "rq_method (rq_header p) \<noteq> verb_connect"
    and "linked w (io_log s) (rq_header p) info"
  shows "session_ok w cfg s'" "last_request (io_log s') = Some p" "link (io_log s') = link (io_log s)"
    "rule_http_config s' = rule_http_config s"
proof -
  let ?hd = "request_copy (beast w) hdr'"
  from assms(1) obtain ec where s': "s' = record_event (EvWriteRequest ?hd ec) s"
    by (auto simp: WriteRemoteRequestHeader_def Let_def split: if_splits)
  have "event_ok w cfg (io_log s) (EvWriteRequest ?hd ec)"
    using assms(2,6-8) request_header_faithful [OF assms(3-5)] by (auto simp: event_ok_def session_ok_def)
  then show "session_ok w cfg s'" "link (io_log s') = link (io_log s)"
    using event_session_ok [OF assms(2), of s' "EvWriteRequest ?hd ec"] by (simp_all add: s')
  show "last_request (io_log s') = Some p" "rule_http_config s' = rule_http_config s"
    using assms(6) by (simp_all add: s')
qed

lemma exchange_response_ok:
  assumes "exchange_response w eng p req s h = Some (out, s', h')" and "session_ok w cfg s"
    and "beast_fields (fields_of (beast w))" and "last_request (io_log s) = Some p"
    and "rq_method (rq_header p) \<noteq> verb_connect" and "linked w (io_log s) (rq_header p) info"
  shows "session_ok w cfg s'"
proof -
  obtain r s1 where r: "ReadRemoteResponseHeader (net w) s = (r, s1)"
    by (cases "ReadRemoteResponseHeader (net w) s")
  note rd = ReadRemoteResponseHeader_ok [OF r assms(2)]
  show ?thesis
  proof (cases r)
    case None
    with assms(1) r rd(1) show ?thesis by (auto simp: exchange_response_def)
  next
    case (Some x)
    then obtain q res where q: "r = Some (q, res)" by (cases x) auto
    obtain res' h1 where a: "apply_response_rules w eng s1 req res h = (res', h1)"
      by (cases "apply_response_rules w eng s1 req res h")
    let ?hd = "response_copy (beast w) res'"
    obtain ok s2 where w: "WriteRemoteResponseHeaderToClient (net w) (beast w) res' s1 = (ok, s2)"
      by (cases "WriteRemoteResponseHeaderToClient (net w) (beast w) res' s1")
    then obtain ec where s2: "s2 = record_event (EvWriteResponse ?hd ec) s1"
      by (auto simp: WriteRemoteResponseHeaderToClient_def Let_def)
    have "event_ok w cfg (io_log s1) (EvWriteResponse ?hd ec)"
      using assms(4-6) rd(1,3,4) rd(5) [OF q] response_header_faithful [OF assms(3) a]
      by (auto simp: event_ok_def linked_def session_ok_def)
    then have ok2: "session_ok w cfg s2"
      using event_session_ok(1) [OF rd(1), of s2 "EvWriteResponse ?hd ec"] by (simp add: s2)
    have "session_ok w cfg s3" if "ForwardResponseBody (net w) p q s2 = Some (b, s3)" for b s3
      using same_view_ok [OF moves_same_view [OF bodies_move(2) [OF that]] ok2] .
    with assms(1) r q a w ok2 show ?thesis
      by (auto simp: exchange_response_def split: option.splits bool.splits prod.splits if_splits)
  qed
qed

section \<open>The tunnel keeps the session justified\<close>

lemma Close_ok: "session_ok w cfg s \<Longrightarrow> session_ok w cfg (Close env s)"
proof (cases "closed s")
  case False
  assume ok: "session_ok w cfg s"
  obtain evs where evs: "io_log (Close env s) = io_log s @ evs" "close_events evs" using Close_log by blast
  then have "\<forall>e \<in> set evs. plain_event e" by (auto simp: close_events_def plain_event_def)
  from plain_events(1) [OF this, of w] ok Close_reset [OF False, of env] evs(1) show ?thesis
    by (simp add: session_ok_def link_ok_def)
qed simp

lemma moves_ok: "moves f t s s' \<Longrightarrow> session_ok w cfg s \<Longrightarrow> session_ok w cfg s'"
  using same_view_ok [OF moves_same_view] .

lemma tunnel_resume_ok:
  assumes "tunnel_resume env f t pc s = (pc', s')" and "session_ok w cfg s"
  shows "session_ok w cfg s'"
proof -
  have r: "session_ok w cfg s1 \<and> session_ok w cfg (Close env s1)" if "ReadSomeFromPeer env f s = (q, s1)" for q s1
    using moves_ok [OF moves_read [OF that] assms(2)] Close_ok by blast
  have wr: "session_ok w cfg s1 \<and> session_ok w cfg (Close env s1)" if "WriteToPeer env f t n s = (q, s1)" for q s1 n
    using moves_ok [OF moves_write [OF that] assms(2)] Close_ok by blast
  from assms r wr show ?thesis
    by (auto simp: tunnel_resume_def tunnel_write_def
        split: tunnel_pc.splits if_splits prod.splits option.splits)
qed

lemma relay_run_ok:
  assumes "relay_run env r r'" and "session_ok w cfg (shared r)"
  shows "session_ok w cfg (shared r')"
  using assms
proof (induction rule: relay_run.induct)
  case (run_step r r' r'')
  from run_step.hyps(2) show ?case
    by (rule relay_stepE) (use tunnel_resume_ok run_step.IH run_step.prems in auto)
qed simp

lemma HandleConnectExchange_ok:
  assumes "HandleConnectExchange w (rq_header p) s = Some (out, s')" and "session_ok w cfg s"
    and "last_request (io_log s) = Some p" and "rq_method (rq_header p) = verb_connect"
  shows "session_ok w cfg s'"
proof (cases "ParseRemoteInfo (urls w) (rq_header p)")
  case None
  with assms show ?thesis by (simp add: HandleConnectExchange_def)
next
  case (Some info)
  obtain ok s1 where e: "EnsureRemoteConnected (net w) info s = (ok, s1)"
    by (cases "EnsureRemoteConnected (net w) info s")
  note en = Ensure_ok [OF e assms(2)]
  show ?thesis
  proof (cases ok)
    case False
    with assms(1) Some e en(1) show ?thesis by (auto simp: HandleConnectExchange_def)
  next
    case True
    obtain b s2 where w: "WriteConnectEstablishedResponseToClient (net w) (beast w) s1 = (b, s2)"
      by (cases "WriteConnectEstablishedResponseToClient (net w) (beast w) s1")
    then obtain hd ec where s2: "s2 = record_event (EvWriteResponse hd ec) s1" "result_int hd = 200"
      by (auto simp: WriteConnectEstablishedResponseToClient_def Let_def)
    have "event_ok w cfg (io_log s1) (EvWriteResponse hd ec)"
      using assms(3,4) en(2,4) True Some s2(2) by (simp add: event_ok_def linked_def)
    then have ok2: "session_ok w cfg s2"
      using event_session_ok(1) [OF en(1), of s2 "EvWriteResponse hd ec"] by (simp add: s2)
    have "session_ok w cfg (shared r)" if "RelayTunnelBidirectional (net w) (executor w) s2 = Some r" for r
      using relay_run_ok [of "net w" "relay_start s2" r] RelayTunnelBidirectional_run [OF that] ok2
      by (simp add: relay_start_def)
    with assms(1) Some e True w ok2 show ?thesis
      by (auto simp: HandleConnectExchange_def split: option.splits bool.splits)
  qed
qed

section \<open>A whole exchange, a whole session\<close>

lemma forward_ok:
  assumes "forward_exchange w eng p (rq_header p) s h = Some (out, s', h')" and "session_ok w cfg s"
    and "beast_fields (fields_of (beast w))" and "last_request (io_log s) = Some p"
    and "rq_method (rq_header p) \<noteq> verb_connect"
  shows "session_ok w cfg s'"
proof (cases "ParseRemoteInfo (urls w) (rq_header p)")
  case None
  with assms show ?thesis by (simp add: forward_exchange_def)
next
  case (Some info)
  obtain ok s1 where e: "EnsureRemoteConnected (net w) info s = (ok, s1)"
    by (cases "EnsureRemoteConnected (net w) info s")
  note en = Ensure_ok [OF e assms(2)]
  obtain hdr' h1 where a: "apply_request_rules w eng s1 (the (BuildRemoteRequestHeader (beast w) (rq_header p) info)) h
      = (hdr', h1)"
    by (cases "apply_request_rules w eng s1 (the (BuildRemoteRequestHeader (beast w) (rq_header p) info)) h")
  consider "\<not> ok \<or> BuildRemoteRequestHeader (beast w) (rq_header p) info = None \<or>
      WriteRemoteRequestHeader (net w) (beast w) hdr' s1 = None"
    | hdr b s2 where "ok" "BuildRemoteRequestHeader (beast w) (rq_header p) info = Some hdr"
      "WriteRemoteRequestHeader (net w) (beast w) hdr' s1 = Some (b, s2)"
    by (cases "BuildRemoteRequestHeader (beast w) (rq_header p) info";
        cases "WriteRemoteRequestHeader (net w) (beast w) hdr' s1") auto
  then show ?thesis
  proof cases
    case 1
    with assms(1) Some e a en(1) show ?thesis
      by (auto simp: forward_exchange_def split: bool.splits option.splits)
  next
    case (2 hdr b s2)
    have l: "linked w (io_log s1) (rq_header p) info" "last_request (io_log s1) = Some p"
      using Some en(2,4) 2(1) assms(4) by (simp_all add: linked_def)
    from a 2(2) have a': "apply_request_rules w eng s1 hdr h = (hdr', h1)" by simp
    note wr = WriteRemoteRequestHeader_ok [OF 2(3) en(1) assms(3) 2(2) a' l(2) assms(5) l(1)]
    have body: "session_ok w cfg s3 \<and> (ok3 \<longrightarrow> last_request (io_log s3) = Some p \<and> linked w (io_log s3) (rq_header p) info)"
      if "ForwardRequestBody (net w) p s2 = Some (ok3, s3)" for ok3 s3
      using moves_same_view [OF bodies_move(1) [OF that], of w] same_view_ok [of w s2 s3] wr l(1)
      by (auto simp: same_view_def linked_def)
    with assms(1) Some e 2 a' wr(1) show ?thesis
      using exchange_response_ok [of w eng p hdr' _ h1 out s' h', OF _ _ assms(3) _ assms(5)]
      by (auto simp: forward_exchange_def split: bool.splits option.splits)
  qed
qed

lemma HandleOneExchange_ok:
  assumes "HandleOneExchange w eng s h = Some (out, s', h')" and "session_ok w cfg s"
    and "beast_fields (fields_of (beast w))"
  shows "session_ok w cfg s'"
proof -
  obtain r s1 where r: "ReadClientRequestHeader (net w) s = (r, s1)"
    by (cases "ReadClientRequestHeader (net w) s")
  note rd = ReadClientRequestHeader_ok [OF r assms(2)]
  show ?thesis
  proof (cases r)
    case None
    with assms(1) r rd(1) show ?thesis by (auto simp: HandleOneExchange_def)
  next
    case (Some x)
    obtain p req where x: "x = (p, req)" by (cases x)
    then have p: "r = Some (p, rq_header p)" "last_request (io_log s1) = Some p"
      using rd(3) [of p req] Some by simp_all
    show ?thesis
    proof (cases "rq_method (rq_header p) = verb_connect")
      case True
      with assms(1) r p HandleConnectExchange_ok [OF _ rd(1) p(2) True] show ?thesis
        by (auto simp: HandleOneExchange_def split: option.splits)
    next
      case not_connect: False
      with assms(1) r p forward_ok [OF _ rd(1) assms(3) p(2) not_connect] show ?thesis
        by (simp add: HandleOneExchange_def)
    qed
  qed
qed

lemma Run_SomeD:
  assumes "Run w eng s h = Some (exn, s', h')"
    and "P s" and "\<And>s h out s1 h1. P s \<Longrightarrow> HandleOneExchange w eng s h = Some (out, s1, h1) \<Longrightarrow> P s1"
  shows "\<exists>s1. P s1 \<and> (if exn = None then s' = Close (net w) s1 else s' = s1)"
proof -
  from assms(1) obtain r where r: "loop (Run_body w eng) (s, h) = Some r" "r = Some (exn, s', h')"
    by (auto simp: Run_def split: option.splits)
  let ?Q = "\<lambda>r. \<forall>exn s' h'. r = Some (exn, s', h') \<longrightarrow>
    (\<exists>s1. P s1 \<and> (if exn = None then s' = Close (net w) s1 else s' = s1))"
  have "?Q r"
  proof (rule loop_invariant [OF r(1), where P = "\<lambda>st. P (fst st)"])
    fix st st'
    assume "P (fst st)" "Run_body w eng st = Inl st'"
    then show "P (fst st')"
      using assms(3) [of "fst st" "snd st"]
      by (auto simp: Run_body_def split: prod.splits option.splits exchange_outcome.splits ExchangeResult.splits)
  next
    fix st r
    assume "P (fst st)" "Run_body w eng st = Inr r"
    then show "?Q r"
      using assms(3) [of "fst st" "snd st"]
      by (auto simp: Run_body_def split: prod.splits option.splits exchange_outcome.splits ExchangeResult.splits)
  qed (use assms(2) in simp)
  with r(2) show ?thesis by blast
qed

lemma Run_ok:
  assumes "Run w eng s h = Some (exn, s', h')" and "session_ok w cfg s"
    and "beast_fields (fields_of (beast w))"
  shows "session_ok w cfg s'"
proof -
  from Run_SomeD [where P = "session_ok w cfg", OF assms(1,2)] HandleOneExchange_ok [OF _ _ assms(3)]
  obtain s1 where "session_ok w cfg s1" "if exn = None then s' = Close (net w) s1 else s' = s1" by blast
  with Close_ok show ?thesis by (auto split: if_splits)
qed

lemma Run_event_ok:
  assumes "beast_fields (fields_of (beast w))" and "Run w eng (HttpProxySession sid cfg) h = Some (exn, s', h')"
    and "io_log s' = pre @ e # post"
  shows "event_ok w cfg pre e"
  using Run_ok [OF assms(2) session_ok_init assms(1)] assms(3)
  by (simp add: session_ok_def log_ok_def log_inv_def)

section \<open>Closing\<close>

lemma forward_exchange_closed:
  assumes "forward_exchange w eng p req s h = Some (out, s', h')"
  shows "closed s' = closed s"
proof -
  have rd: "closed s1 = closed s0" if "ReadRemoteResponseHeader (net w) s0 = (r, s1)" for s0 r s1
    using that by (auto simp: ReadRemoteResponseHeader_def Let_def split: prod.splits if_splits)
  have wr: "closed s1 = closed s0"
    if "WriteRemoteRequestHeader (net w) (beast w) hdr s0 = Some (ok, s1)" for hdr s0 ok s1
    using that by (auto simp: WriteRemoteRequestHeader_def Let_def split: if_splits)
  have ws: "closed s1 = closed s0"
    if "WriteRemoteResponseHeaderToClient (net w) (beast w) hdr s0 = (ok, s1)" for hdr s0 ok s1
    using that by (auto simp: WriteRemoteResponseHeaderToClient_def Let_def)
  have en: "closed s1 = closed s" if "EnsureRemoteConnected (net w) info s = (ok, s1)" for info ok s1
    using EnsureRemoteConnected_frame(2) [OF that] .
  have bd: "closed s1 = closed s0" if "moves f t s0 s1" for f t s0 s1
    using that by (simp add: moves_def)
  have ex: "closed s1 = closed s0"
    if "exchange_response w eng p hdr s0 h0 = Some (out, s1, h1)" for hdr s0 h0 s1 h1
    using that bd [OF bodies_move(2)] ws rd
    by (fastforce simp: exchange_response_def split: option.splits bool.splits prod.splits if_splits)
  show ?thesis
    using assms en wr ex bd [OF bodies_move(1)]
    by (fastforce simp: forward_exchange_def split: option.splits bool.splits prod.splits)
qed

lemma HandleConnectExchange_closed:
  assumes "closed_socket_laws (net w)" and "HandleConnectExchange w req s = Some (out, s')" and "\<not> closed s"
  shows "out = ExClose \<and> (closed s' \<longrightarrow> (\<forall>p. \<not> is_open (net w) (io_log s') p))"
proof -
  have en: "\<not> closed s1" if "EnsureRemoteConnected (net w) info s = (ok, s1)" for info ok s1
    using EnsureRemoteConnected_frame(2) [OF that] assms(3) by simp
  have wr: "closed s2 = closed s1"
    if "WriteConnectEstablishedResponseToClient (net w) (beast w) s1 = (ok, s2)" for s1 ok s2
    using that by (auto simp: WriteConnectEstablishedResponseToClient_def Let_def)
  have "closed (shared r) \<longrightarrow> (\<forall>p. \<not> is_open (net w) (io_log (shared r)) p)"
    if "RelayTunnelBidirectional (net w) (executor w) s2 = Some r" "\<not> closed s2" for s2 r
    using closed_socket_laws.relay_run_closed [OF assms(1) _ that(2)] RelayTunnelBidirectional_run [OF that(1)]
    by blast
  with assms(2,3) en wr show ?thesis
    by (fastforce simp: HandleConnectExchange_def split: option.splits bool.splits prod.splits)
qed

lemma HandleOneExchange_closed:
  assumes "closed_socket_laws (net w)" and "HandleOneExchange w eng s h = Some (out, s', h')" and "\<not> closed s"
  shows "closed s' \<longrightarrow> out = Returned ExClose \<and> (\<forall>p. \<not> is_open (net w) (io_log s') p)"
proof -
  have rd: "\<not> closed s1" if "ReadClientRequestHeader (net w) s = (r, s1)" for r s1
    using that assms(3) by (auto simp: ReadClientRequestHeader_def Let_def split: prod.splits if_splits)
  show ?thesis
    using assms(2) rd forward_exchange_closed HandleConnectExchange_closed [OF assms(1)]
    by (fastforce simp: HandleOneExchange_def split: option.splits prod.splits if_splits)
qed

text \<open>\<open>Run\<close> ends with the first exchange that does not ask to continue.\<close>

lemma Run_final:
  assumes "Run w eng s h = Some (exn, s', h')" and "P s"
    and "\<And>s h s1 h1. P s \<Longrightarrow> HandleOneExchange w eng s h = Some (Returned ExContinue, s1, h1) \<Longrightarrow> P s1"
  shows "\<exists>s0 h0 out s1. P s0 \<and> HandleOneExchange w eng s0 h0 = Some (out, s1, h') \<and>
    (case out of Threw m \<Rightarrow> exn = Some m \<and> s' = s1
     | Returned res \<Rightarrow> res = ExClose \<and> exn = None \<and> s' = Close (net w) s1)"
proof -
  from assms(1) have l: "loop (Run_body w eng) (s, h) = Some (Some (exn, s', h'))"
    by (auto simp: Run_def split: option.splits)
  let ?Q = "\<lambda>r. case r of None \<Rightarrow> True | Some (exn, s', h') \<Rightarrow>
    (\<exists>s0 h0 out s1. P s0 \<and> HandleOneExchange w eng s0 h0 = Some (out, s1, h') \<and>
    (case out of Threw m \<Rightarrow> exn = Some m \<and> s' = s1
     | Returned res \<Rightarrow> res = ExClose \<and> exn = None \<and> s' = Close (net w) s1))"
  have "?Q (Some (exn, s', h'))"
  proof (rule loop_invariant [OF l, where P = "\<lambda>st. P (fst st)"])
    fix st st'
    assume "P (fst st)" "Run_body w eng st = Inl st'"
    then show "P (fst st')"
      using assms(3) [of "fst st" "snd st"]
      by (auto simp: Run_body_def split: prod.splits option.splits exchange_outcome.splits ExchangeResult.splits)
  next
    fix st r
    assume "P (fst st)" "Run_body w eng st = Inr r"
    then show "?Q r"
      by (cases st) (fastforce simp: Run_body_def split: option.splits exchange_outcome.splits ExchangeResult.splits)
  qed (use assms(2) in simp)
  then show ?thesis by simp
qed

section \<open>A world for the witnesses\<close>

definition demo_request :: request_parser where
  "demo_request = \<lparr>rq_header = \<lparr>rq_method = verb_known ''GET'', method_string = ''GET'',
       target = ''http://a.example/x'', version = 11,
       rq_fields = [(''Host'', ''a.example''), (''Proxy-Connection'', ''keep-alive'')]\<rparr>,
     rq_chunked = False, rq_content_length = None, rq_keep_alive = True\<rparr>"

definition demo_response :: response_parser where
  "demo_response = \<lparr>rs_header = \<lparr>result_int = 204, reason = ''No Content'', rs_version = 11,
       rs_fields = [(''Via'', ''1.1 b'')]\<rparr>,
     rs_chunked = False, rs_content_length = None, rs_keep_alive = True\<rparr>"

fun is_read_request :: "io_event \<Rightarrow> bool" where
  "is_read_request (EvReadRequest ec p) = True"
| "is_read_request e = False"

text \<open>One client request, then the end of the connection; each response is bodyless.\<close>

definition demo_net :: asio where
  "demo_net = (socket_env (Suc 1) (\<lambda>p. []))\<lparr>
     async_read_request_header := (\<lambda>log b. if list_ex is_read_request log
       then (Some end_of_stream, demo_request, b) else (None, demo_request, b)),
     async_read_response_header := (\<lambda>log b. (None, demo_response, b))\<rparr>"

definition demo_world :: "(jsheap, jsval) world" where
  "demo_world = \<lparr>net = demo_net, executor = (\<lambda>_. Client),
     urls = \<lparr>parse_authority = (\<lambda>t. None),
       parse_absolute_uri = (\<lambda>t. if t = ''http://a.example/x''
         then Some \<lparr>uri_scheme = ''http'', encoded_target = ''/x'', uri_host = ''a.example'', uri_port = [],
           encoded_path = ''/x'', has_query = False, encoded_query = []\<rparr> else None),
       parse_origin_form = (\<lambda>t. None)\<rparr>,
     beast = \<lparr>fields_of = list_fields, method_throws = (\<lambda>v. v = verb_unknown),
       verb_to_string = (\<lambda>v. case v of verb_known n \<Rightarrow> n | _ \<Rightarrow> ''HEAD''),
       int_to_status = (\<lambda>i. if i = 204 then i else 0)\<rparr>,
     js = example_js, others = (\<lambda>_ h. h)\<rparr>"

definition demo_engine :: RuleEngine where
  "demo_engine = \<lparr>engine_runtime = \<lparr>rt_handle = Some 0\<rparr>\<rparr>"

lemmas demo_defs = demo_world_def demo_net_def demo_request_def demo_response_def socket_env_def pipe_env_def

lemma demo_net_laws: "closed_socket_laws demo_net"
proof -
  note l = socket.closed_socket_laws_axioms [of "Suc 1" "\<lambda>p. []"]
  show ?thesis
    using l by (simp add: closed_socket_laws_def socket_laws_def closed_socket_laws_axioms_def demo_net_def)
qed

lemma demo_beast: "beast_fields (fields_of (beast demo_world))"
  using lf.beast_fields_axioms by (simp add: demo_world_def)

lemma demo_rules_method: "rq_method (fst (apply_request_rules demo_world eng s hdr h)) = rq_method hdr"
  using apply_request_rules_spec(1) [OF demo_beast prod.collapse [symmetric]] by (simp add: request_kept_def)

lemma demo_exchange:
  "\<exists>s' h'. HandleOneExchange demo_world demo_engine (HttpProxySession sid cfg) h =
      Some (Returned ExContinue, s', h') \<and> list_ex is_read_request (io_log s') \<and>
    (\<exists>hdr ec. EvWriteRequest hdr ec \<in> set (io_log s')) \<and> (\<exists>hdr ec. EvWriteResponse hdr ec \<in> set (io_log s'))"
  using demo_rules_method unfolding demo_defs
  by (simp add: HandleOneExchange_def ReadClientRequestHeader_def HttpProxySession_def
      forward_exchange_def ParseRemoteInfo_def ParseHttpRemoteInfo_def EnsureRemoteConnected_def
      CloseRemote_def CloseSocket_def ResetRemoteState_def ResolveRemote_def ConnectRemote_def
      BuildRemoteRequestHeader_def WriteRemoteRequestHeader_def case_prod_beta
      ForwardRequestBody_def DetermineRequestBodyInfo_def exchange_response_def ReadRemoteResponseHeader_def
      WriteRemoteResponseHeaderToClient_def ForwardResponseBody_def
      DetermineResponseBodyInfo_def ShouldKeepAlive_def record_event_def opened_def Let_def)

lemma demo_last_exchange:
  assumes "list_ex is_read_request (io_log s)"
  shows "\<exists>s'. HandleOneExchange demo_world demo_engine s h = Some (Returned ExClose, s', h) \<and>
    set (io_log s) \<subseteq> set (io_log s')"
  using assms by (simp add: HandleOneExchange_def ReadClientRequestHeader_def demo_defs subset_insertI)

lemma demo_run:
  "\<exists>s' h'. Run demo_world demo_engine (HttpProxySession sid cfg) h = Some (None, s', h') \<and>
    (\<exists>hdr ec. EvWriteRequest hdr ec \<in> set (io_log s')) \<and> (\<exists>hdr ec. EvWriteResponse hdr ec \<in> set (io_log s'))"
proof -
  let ?body = "Run_body demo_world demo_engine" and ?s = "HttpProxySession sid cfg"
  obtain s1 h1 where s1: "HandleOneExchange demo_world demo_engine ?s h = Some (Returned ExContinue, s1, h1)"
      "list_ex is_read_request (io_log s1)"
      and ev: "\<exists>hdr ec. EvWriteRequest hdr ec \<in> set (io_log s1)" "\<exists>hdr ec. EvWriteResponse hdr ec \<in> set (io_log s1)"
    using demo_exchange by blast
  obtain s2 where s2: "HandleOneExchange demo_world demo_engine s1 h1 = Some (Returned ExClose, s2, h1)"
      "set (io_log s1) \<subseteq> set (io_log s2)"
    using demo_last_exchange [OF s1(2)] by blast
  have "loop ?body (?s, h) = loop ?body (s1, h1)"
    by (rule loop_Inl) (simp add: Run_body_def s1(1))
  also have "\<dots> = Some (Some (None, Close (net demo_world) s2, h1))"
    by (rule loop_Inr) (simp add: Run_body_def s2(1))
  finally have "Run demo_world demo_engine ?s h = Some (None, Close (net demo_world) s2, h1)" by (simp add: Run_def)
  moreover have "set (io_log s2) \<subseteq> set (io_log (Close (net demo_world) s2))"
    using Close_log [of "net demo_world" s2] by auto
  ultimately show ?thesis using ev s2(2) by blast
qed

section \<open>What a finished exchange has done\<close>

lemma ForwardRequestBody_True:
  assumes "ForwardRequestBody env p s = Some (True, s')"
  shows "case framing (DetermineRequestBodyInfo p) of
      ReqContentLength \<Rightarrow> \<exists>out. length out = unat (content_length (DetermineRequestBodyInfo p)) \<and>
        transfer Client Remote s out s'
    | ReqChunked \<Rightarrow> \<exists>out. chunked_message out \<and> transfer Client Remote s out s'
    | ReqNone \<Rightarrow> s' = s"
  using assms ForwardExactly_True [of env Client Remote _ s s'] ForwardChunked_True [of env Client Remote s s']
  by (auto simp: ForwardRequestBody_def ForwardRequestBodyByContentLength_def ForwardRequestBodyByChunked_def
      Let_def split: RequestBodyFraming.splits)

lemma ForwardResponseBody_True:
  assumes "ForwardResponseBody env p r s = Some (True, s')"
  shows "case framing (DetermineResponseBodyInfo p r) of
      RespContentLength \<Rightarrow> \<exists>out. length out = unat (content_length (DetermineResponseBodyInfo p r)) \<and>
        transfer Remote Client s out s'
    | RespChunked \<Rightarrow> \<exists>out. chunked_message out \<and> transfer Remote Client s out s'
    | RespCloseDelimited \<Rightarrow> (\<exists>out. transfer Remote Client s out s') \<and> buf Remote s' = []
    | RespTunnel \<Rightarrow> False
    | RespNone \<Rightarrow> s' = s"
  using assms ForwardExactly_True [of env Remote Client _ s s'] ForwardChunked_True [of env Remote Client s s']
    ForwardUntilEof_True [of env Remote Client s s']
  by (auto simp: ForwardResponseBody_def ForwardResponseBodyByContentLength_def
      ForwardResponseBodyByChunked_def ForwardResponseBodyByCloseDelimited_def Let_def
      split: ResponseBodyFraming.splits)

section \<open>Properties\<close>





text \<open>
  C3. What the rules do to the headers, over a whole session. The fields of every request the
  proxy sends are those of the request last read, without the proxy's own three, changed by
  the actions of some of the enabled rules of the request phase, in the order of the
  configuration and up to the first action that is rejected; the fields of every answer to a
  request that is not a CONNECT are those of the response read since, changed in the same
  way by the rules of the response phase. Without match expressions it is all the rules of
  the phase; with no rules nothing changes. An action changes the fields of its own name
  only: set leaves one field, add gives one where there was none, replace one where there
  was one, remove leaves none.
\<close>

theorem headers_change_by_the_rules_only:
  assumes "beast_fields (fields_of (beast w))"
    and "Run w eng (HttpProxySession sid cfg) h = Some (exn, s', h')"
  shows "(io_log s' = pre @ EvWriteRequest hdr ec # post \<longrightarrow>
      (\<exists>p chosen. last_request pre = Some p \<and> subseq chosen (phase_rules PhaseRequest cfg) \<and>
        (unconditional (phase_rules PhaseRequest cfg) \<longrightarrow> chosen = phase_rules PhaseRequest cfg) \<and>
        field_store (rq_fields hdr) = actions_spec (concat (map actions chosen)) (forwarded_store (rq_header p)))) \<and>
    (io_log s' = pre @ EvWriteResponse res ec # post \<longrightarrow>
      (\<exists>p. last_request pre = Some p \<and> (rq_method (rq_header p) \<noteq> verb_connect \<longrightarrow>
        (\<exists>r chosen. last_response pre = Some r \<and> subseq chosen (phase_rules PhaseResponse cfg) \<and>
          (unconditional (phase_rules PhaseResponse cfg) \<longrightarrow> chosen = phase_rules PhaseResponse cfg) \<and>
          field_store (rs_fields res) = actions_spec (concat (map actions chosen)) (field_store (rs_fields (rs_header r)))))))"
proof -
  have ok: "io_log s' = pre @ e # post \<Longrightarrow> event_ok w cfg pre e" for e
    by (rule Run_event_ok [OF assms])
  show ?thesis
  proof (intro conjI impI)
    assume "io_log s' = pre @ EvWriteRequest hdr ec # post"
    from ok [OF this] show "\<exists>p chosen. last_request pre = Some p \<and> subseq chosen (phase_rules PhaseRequest cfg) \<and>
        (unconditional (phase_rules PhaseRequest cfg) \<longrightarrow> chosen = phase_rules PhaseRequest cfg) \<and>
        field_store (rq_fields hdr) = actions_spec (concat (map actions chosen)) (forwarded_store (rq_header p))"
      by (simp add: event_ok_def ruled_def) blast
  next
    assume "io_log s' = pre @ EvWriteResponse res ec # post"
    from ok [OF this] obtain p where "last_request pre = Some p" "rq_method (rq_header p) \<noteq> verb_connect \<Longrightarrow>
        \<exists>r. last_response pre = Some r \<and> ruled PhaseResponse cfg (field_store (rs_fields (rs_header r))) (field_store (rs_fields res))"
      by (auto simp: event_ok_def split: if_splits)
    then show "\<exists>p. last_request pre = Some p \<and> (rq_method (rq_header p) \<noteq> verb_connect \<longrightarrow>
        (\<exists>r chosen. last_response pre = Some r \<and> subseq chosen (phase_rules PhaseResponse cfg) \<and>
          (unconditional (phase_rules PhaseResponse cfg) \<longrightarrow> chosen = phase_rules PhaseResponse cfg) \<and>
          field_store (rs_fields res) = actions_spec (concat (map actions chosen)) (field_store (rs_fields (rs_header r)))))"
      unfolding ruled_def by blast
  qed
qed

text \<open>A configuration with one rule without a match expression.\<close>

definition demo_config :: HttpConfig where
  "demo_config = \<lparr>rules = Some [\<lparr>name = ''tag'', enabled = True, phase = PhaseRequest, match = None,
     actions = [\<lparr>op = OpSet, action_target = TargetHeader,
       data = NameValueData \<lparr>hnv_name = ''X-A'', hnv_value = ''2''\<rparr>\<rparr>]\<rparr>]\<rparr>"

lemma demo_actions:
  "action_ok \<lparr>op = OpSet, action_target = TargetHeader, data = NameValueData \<lparr>hnv_name = ''X-A'', hnv_value = ''2''\<rparr>\<rparr>"
  by code_simp

theorem headers_change_by_the_rules_only_witness:
  "\<exists>s' h' pre hdr ec post. Run demo_world demo_engine (HttpProxySession 1 (Some demo_config)) example_heap =
      Some (None, s', h') \<and> io_log s' = pre @ EvWriteRequest hdr ec # post \<and>
    entries ''x-a'' (rq_fields hdr) = [(''X-A'', ''2'')]"
proof -
  obtain s' h' hdr ec where s': "Run demo_world demo_engine (HttpProxySession 1 (Some demo_config)) example_heap =
      Some (None, s', h')" "EvWriteRequest hdr ec \<in> set (io_log s')"
    using demo_run by blast
  then obtain pre post where l: "io_log s' = pre @ EvWriteRequest hdr ec # post" using split_list by metis
  have "unconditional (phase_rules PhaseRequest (Some demo_config))" "iequals ''x-a'' ''X-A''"
    by code_simp+
  with mp [OF conjunct1 [OF headers_change_by_the_rules_only [OF demo_beast s'(1)]] l] obtain p :: request_parser where
      "field_store (rq_fields hdr) = actions_spec (concat (map actions (phase_rules PhaseRequest (Some demo_config))))
        (forwarded_store (rq_header p))" by blast
  then have "field_store (rq_fields hdr) ''x-a'' = [(''X-A'', ''2'')]"
    using \<open>iequals ''x-a'' ''X-A''\<close>
    by (simp add: phase_rules_def demo_config_def demo_actions action_spec_def action_name_def)
  with s'(1) l show ?thesis by (auto simp: field_store_def)
qed




text \<open>A session connected to one host that asks for another.\<close>

definition demo_info :: RemoteInfo where
  "demo_info = \<lparr>ri_scheme = ''http'', ri_host = ''b.example'', ri_port = ''80'', forward_target = ''/''\<rparr>"

definition demo_session :: session where
  "demo_session = (HttpProxySession 1 None)\<lparr>remote_read_buffer := ''stale'',
     remote_state := \<lparr>rc_host = ''a.example'', rc_port = ''80'', connected = True\<rparr>,
     io_log := [EvResolve ''a.example'' ''80'' None [''192.0.2.1''], EvConnect [''192.0.2.1''] None]\<rparr>"

lemma demo_session_ok: "link_ok demo_session" "link (io_log demo_session) = Some (''a.example'', ''80'')"
  by (simp_all add: link_ok_def demo_session_def link_def)

lemma demo_reconnect: "\<exists>s'. EnsureRemoteConnected demo_net demo_info demo_session = (True, s')"
  by (simp add: EnsureRemoteConnected_def demo_session_def demo_info_def demo_net_def socket_env_def
      pipe_env_def HttpProxySession_def CloseRemote_def CloseSocket_def ResetRemoteState_def
      ResolveRemote_def ConnectRemote_def record_event_def opened_def Let_def)


text \<open>
  C37. A change of host keeps the old host's bytes: when the session leaves one remote for
  another, the read buffer of the remote connection is not cleared, so bytes that the old
  host sent beyond its last response are what the next response header is parsed from.
\<close>

theorem stale_bytes_survive_reconnect:
  assumes "link_ok s" and "link (io_log s) \<noteq> Some (ri_host info, ri_port info)"
    and "EnsureRemoteConnected env info s = (True, s')"
  shows "buf Remote s' = buf Remote s \<and> link (io_log s') = Some (ri_host info, ri_port info) \<and>
    fst (ReadRemoteResponseHeader env s') =
      (case async_read_response_header env (io_log s') (buf Remote s) of (ec, parser, rest) \<Rightarrow>
         if ec \<noteq> None then None else Some (parser, rs_header parser))"
  using EnsureRemoteConnected_frame(1) [OF assms(3), of Remote] EnsureRemoteConnected_True(1) [OF assms(3,1)]
  by (simp add: ReadRemoteResponseHeader_def case_prod_beta Let_def)

theorem stale_bytes_survive_reconnect_witness:
  "\<exists>s'. EnsureRemoteConnected demo_net demo_info demo_session = (True, s') \<and>
    buf Remote s' = ''stale'' \<and> link (io_log s') = Some (''b.example'', ''80'')"
proof -
  obtain s' where s': "EnsureRemoteConnected demo_net demo_info demo_session = (True, s')"
    using demo_reconnect by blast
  have "link (io_log demo_session) \<noteq> Some (ri_host demo_info, ri_port demo_info)"
    using demo_session_ok(2) by (simp add: demo_info_def)
  from stale_bytes_survive_reconnect [OF demo_session_ok(1) this s'] s' show ?thesis
    by (auto simp: demo_info_def demo_session_def)
qed

text \<open>
  C38. An interim response is taken for the answer: when the remote sends a 1xx response and
  the exchange then asks to continue, the interim header is all the client was sent, no byte
  was relayed, and everything the remote sent behind it, the final response, stays in the
  read buffer, where the header of the answer to the next request is parsed from.
\<close>

theorem interim_response_ends_the_exchange:
  assumes "async_read_response_header (net w) (io_log s) (buf Remote s) = (None, r, rest)"
    and "100 \<le> result_int (rs_header r)" and "result_int (rs_header r) < 200"
    and "exchange_response w eng p req s h = Some (Returned ExContinue, s', h')"
  shows "buf Remote s' = rest \<and>
    (\<exists>hdr. io_log s' = io_log s @ [EvReadResponse None r, EvWriteResponse hdr None])"
proof -
  let ?s1 = "set_buf Remote rest (record_event (EvReadResponse None r) s)"
  have body: "ForwardResponseBody (net w) p r s2 = Some (True, s2)" for s2
    using assms(2,3) by (simp add: ForwardResponseBody_def DetermineResponseBodyInfo_def Let_def)
  obtain res' h1 where rules: "apply_response_rules w eng ?s1 req (rs_header r) h = (res', h1)"
    by (cases "apply_response_rules w eng ?s1 req (rs_header r) h")
  have "s' = record_event (EvWriteResponse (response_copy (beast w) res') None) ?s1"
    using assms(1,4) rules body
    by (auto simp: exchange_response_def ReadRemoteResponseHeader_def WriteRemoteResponseHeaderToClient_def Let_def
        split: bool.splits if_splits)
  then show ?thesis by simp
qed

text \<open>A remote that answers 100 and has sent the final response with it.\<close>

definition interim_world :: "(jsheap, jsval) world" where
  "interim_world = demo_world\<lparr>net := demo_net\<lparr>async_read_response_header := (\<lambda>log b.
     (None, demo_response\<lparr>rs_header := (rs_header demo_response)\<lparr>result_int := 100\<rparr>\<rparr>, ''HTTP/1.1 200 OK''))\<rparr>\<rparr>"

theorem interim_response_ends_the_exchange_witness:
  "\<exists>s'. exchange_response interim_world demo_engine demo_request (rq_header demo_request) demo_session example_heap =
      Some (Returned ExContinue, s', example_heap) \<and> buf Remote s' = ''HTTP/1.1 200 OK''"
proof -
  let ?r = "demo_response\<lparr>rs_header := (rs_header demo_response)\<lparr>result_int := 100\<rparr>\<rparr>"
  obtain s' where s': "exchange_response interim_world demo_engine demo_request (rq_header demo_request) demo_session
      example_heap = Some (Returned ExContinue, s', example_heap)"
    by (simp add: exchange_response_def interim_world_def demo_defs demo_session_def HttpProxySession_def
        ReadRemoteResponseHeader_def apply_response_rules_def WriteRemoteResponseHeaderToClient_def
        ForwardResponseBody_def DetermineResponseBodyInfo_def ShouldKeepAlive_def record_event_def opened_def Let_def)
  have "async_read_response_header (net interim_world) (io_log demo_session) (buf Remote demo_session) =
      (None, ?r, ''HTTP/1.1 200 OK'')" "100 \<le> result_int (rs_header ?r)" "result_int (rs_header ?r) < 200"
    by (simp_all add: interim_world_def)
  from interim_response_ends_the_exchange [OF this s'] s' show ?thesis by blast
qed

text \<open>
  A session that ends without an exception leaves nothing open, whether the last exchange was
  a request, a failure or a tunnel whose coroutines had closed the session already.
\<close>

lemma Run_closes:
  assumes "closed_socket_laws (net w)"
    and "Run w eng (HttpProxySession sid cfg) h = Some (None, s', h')"
  shows "closed s' \<and> (\<forall>p. \<not> is_open (net w) (io_log s') p)"
proof -
  have "\<exists>s0 h0 out s1. \<not> closed s0 \<and> HandleOneExchange w eng s0 h0 = Some (out, s1, h') \<and>
    (case out of Threw m \<Rightarrow> None = Some m \<and> s' = s1
     | Returned res \<Rightarrow> res = ExClose \<and> (None :: string option) = None \<and> s' = Close (net w) s1)"
    by (rule Run_final [OF assms(2)]) (use HandleOneExchange_closed [OF assms(1)] in fastforce)+
  then obtain s0 h0 out s1 where *: "\<not> closed s0" "HandleOneExchange w eng s0 h0 = Some (out, s1, h')"
      "case out of Threw m \<Rightarrow> None = Some m \<and> s' = s1
       | Returned res \<Rightarrow> res = ExClose \<and> (None :: string option) = None \<and> s' = Close (net w) s1" by blast
  then have s1: "\<not> closed s0" "HandleOneExchange w eng s0 h0 = Some (Returned ExClose, s1, h')"
      and s': "s' = Close (net w) s1" by (cases out; simp)+
  have "\<forall>p. \<not> is_open (net w) (io_log s') p"
  proof (cases "closed s1")
    case True
    with HandleOneExchange_closed [OF assms(1) s1(2,1)] s' show ?thesis by (simp add: Close_def)
  next
    case False
    with socket_laws.Close_closes [OF closed_socket_laws.axioms(1) [OF assms(1)]] s' show ?thesis by simp
  qed
  with s' show ?thesis by simp
qed

text \<open>
  C39. A method Beast does not know ends the session with an exception: once the connection
  to the remote is up, the exchange throws before anything is sent, and \<open>Run\<close> returns
  without closing the session and without an answer to the client.
\<close>

theorem unknown_method_throws:
  assumes "\<And>v. method_throws (beast w) v = (v = verb_unknown)"
    and "ReadClientRequestHeader (net w) s = (Some (p, req), s1)" and "rq_method req = verb_unknown"
    and "ParseRemoteInfo (urls w) req = Some info" and "EnsureRemoteConnected (net w) info s1 = (True, s2)"
  shows "HandleOneExchange w eng s h = Some (Threw ''unknown verb'', s2, h) \<and>
    Run w eng s h = Some (Some ''unknown verb'', s2, h)"
proof -
  have e: "HandleOneExchange w eng s h = Some (Threw ''unknown verb'', s2, h)"
    using assms by (simp add: HandleOneExchange_def forward_exchange_def BuildRemoteRequestHeader_def)
  then have "Run_body w eng (s, h) = Inr (Some (Some ''unknown verb'', s2, h))"
    by (simp add: Run_body_def)
  with loop_Inr [of "Run_body w eng" "(s, h)"] e show ?thesis by (simp add: Run_def)
qed

text \<open>A world whose client sends a method Beast does not know.\<close>

definition odd_request :: request_parser where
  "odd_request = demo_request\<lparr>rq_header := (rq_header demo_request)\<lparr>rq_method := verb_unknown,
     method_string := ''BREW''\<rparr>\<rparr>"

definition odd_world :: "(jsheap, jsval) world" where
  "odd_world = demo_world\<lparr>net := demo_net\<lparr>async_read_request_header := (\<lambda>log b. (None, odd_request, b))\<rparr>\<rparr>"

theorem unknown_method_throws_witness:
  "\<exists>s2. Run odd_world demo_engine (HttpProxySession 1 None) example_heap =
      Some (Some ''unknown verb'', s2, example_heap) \<and> \<not> closed s2"
proof -
  let ?s = "HttpProxySession 1 None"
  obtain s1 where s1: "ReadClientRequestHeader (net odd_world) ?s = (Some (odd_request, rq_header odd_request), s1)"
      "s1 = record_event (EvReadRequest None odd_request) ?s"
    by (simp add: ReadClientRequestHeader_def odd_world_def HttpProxySession_def record_event_def)
  obtain info where info: "ParseRemoteInfo (urls odd_world) (rq_header odd_request) = Some info"
    by (simp add: ParseRemoteInfo_def ParseHttpRemoteInfo_def odd_world_def demo_world_def odd_request_def
        demo_request_def Let_def)
  obtain s2 where s2: "EnsureRemoteConnected (net odd_world) info s1 = (True, s2)"
    by (simp add: s1(2) EnsureRemoteConnected_def odd_world_def demo_net_def socket_env_def pipe_env_def
        HttpProxySession_def CloseRemote_def CloseSocket_def ResetRemoteState_def ResolveRemote_def
        ConnectRemote_def record_event_def opened_def Let_def)
  have m: "method_throws (beast odd_world) v = (v = verb_unknown)" for v
    by (simp add: odd_world_def demo_world_def)
  have v: "rq_method (rq_header odd_request) = verb_unknown" by (simp add: odd_request_def)
  have "closed s2 = closed s1" using EnsureRemoteConnected_frame(2) [OF s2] .
  with unknown_method_throws [OF m s1(1) v info s2, of demo_engine example_heap] s1(2) show ?thesis by auto
qed

text \<open>
  The target a plain request names: a remote is found exactly for an absolute-form
  target of scheme http with a host and a non-empty target; the port defaults to 80, the
  path to the root, and the query is carried over. A CONNECT needs a host and a port.
\<close>

theorem ParseRemoteInfo_correct:
  "ParseRemoteInfo ua req = Some info \<longleftrightarrow>
    (if rq_method req = verb_connect then
       (\<exists>a. parse_authority ua (target req) = Some a \<and> auth_host a \<noteq> [] \<and> auth_port a \<noteq> [] \<and>
          info = \<lparr>ri_scheme = ''tunnel'', ri_host = auth_host a, ri_port = auth_port a, forward_target = []\<rparr>)
     else
       (\<exists>u. parse_absolute_uri ua (target req) = Some u \<and> uri_scheme u = ''http'' \<and> encoded_target u \<noteq> [] \<and>
          uri_host u \<noteq> [] \<and> ri_scheme info = ''http'' \<and> ri_host info = uri_host u \<and>
          ri_port info = (if uri_port u = [] then ''80'' else uri_port u) \<and>
          forward_target info = (if encoded_path u = [] then ''/'' else encoded_path u) @
            (if has_query u then ''?'' @ encoded_query u else [])))"
proof (cases "rq_method req = verb_connect")
  case True
  then show ?thesis
    by (cases "parse_authority ua (target req)") (auto simp: ParseRemoteInfo_def ParseConnectRemoteInfo_def)
next
  case False
  show ?thesis
  proof (cases "parse_absolute_uri ua (target req)")
    case None
    with False show ?thesis by (simp add: ParseRemoteInfo_def ParseHttpRemoteInfo_def)
  next
    case (Some u)
    with False show ?thesis
      by (cases info; cases "has_query u") (auto simp: ParseRemoteInfo_def ParseHttpRemoteInfo_def Let_def)
  qed
qed

end
