(* ===== verification/Logging.thy ===== *)
theory Logging
  imports Proxy_Prelude
begin

text \<open>
  The loggers of the program (\<open>log/log.h\<close>, \<open>log/log.cpp\<close>).

  \<^item> spdlog is the parameter \<open>spdlog\<close>: constructing sinks and loggers and the calls on them,
    over a heap of type \<open>'h\<close> with sinks \<open>'s\<close> and loggers \<open>'l\<close> referred to by pointers. The
    locale \<open>spdlog_laws\<close> says what is documented of it, through what a logger and a sink
    look like in a heap.
  \<^item> \<open>log_state\<close> holds the function-local statics: the array of \<open>Loggers()\<close>, which is made on
    the first call that does not throw, and the flag of \<open>Init\<close>, which is set by the first
    call that does not throw. The array holds pointers, so an entry may be null.
  \<^item> magic\_enum reads the enumeration \<open>Module\<close>: its values in order, their positions and names.
\<close>

section \<open>Modules and levels\<close>

datatype Module = Module_app | Module_core | Module_http | Module_rule | Module_qjs

definition enum_values :: "Module list" where
  "enum_values = [Module_app, Module_core, Module_http, Module_rule, Module_qjs]"

primrec enum_index :: "Module \<Rightarrow> nat" where
  "enum_index Module_app = 0"
| "enum_index Module_core = 1"
| "enum_index Module_http = 2"
| "enum_index Module_rule = 3"
| "enum_index Module_qjs = 4"

primrec enum_name :: "Module \<Rightarrow> string" where
  "enum_name Module_app = ''app''"
| "enum_name Module_core = ''core''"
| "enum_name Module_http = ''http''"
| "enum_name Module_rule = ''rule''"
| "enum_name Module_qjs = ''qjs''"

datatype log_level = Trace | Debug | Info | Warn | Err | Critical | Off

section \<open>spdlog\<close>

datatype log_exn = SpdlogError string | NullLogger

record ('h, 's, 'l) spdlog =
  new_console_sink :: "'h \<Rightarrow> (log_exn + 's) \<times> 'h"
  new_rotating_file_sink :: "path \<Rightarrow> nat \<Rightarrow> nat \<Rightarrow> 'h \<Rightarrow> (log_exn + 's) \<times> 'h"
  sink_set_pattern :: "'s \<Rightarrow> string \<Rightarrow> 'h \<Rightarrow> 'h"
  new_logger :: "string \<Rightarrow> 's \<Rightarrow> 'h \<Rightarrow> 'l \<times> 'h"
  logger_set_level :: "'l \<Rightarrow> log_level \<Rightarrow> 'h \<Rightarrow> 'h"
  logger_flush_on :: "'l \<Rightarrow> log_level \<Rightarrow> 'h \<Rightarrow> 'h"
  logger_push_sink :: "'l \<Rightarrow> 's \<Rightarrow> 'h \<Rightarrow> 'h"
  register_logger :: "'l \<Rightarrow> 'h \<Rightarrow> (log_exn + unit) \<times> 'h"
  level_from_str :: "string \<Rightarrow> log_level"

text \<open>Sequencing of calls that may throw, and a range-based \<open>for\<close> over them.\<close>

definition try_then :: "('e + 'a) \<times> 'st \<Rightarrow> ('a \<Rightarrow> 'st \<Rightarrow> ('e + 'b) \<times> 'st) \<Rightarrow> ('e + 'b) \<times> 'st" where
  "try_then r f = (case r of (Inl e, s) \<Rightarrow> (Inl e, s) | (Inr a, s) \<Rightarrow> f a s)"

primrec for_all :: "('a \<Rightarrow> 'b \<Rightarrow> 'st \<Rightarrow> ('e + 'b) \<times> 'st) \<Rightarrow> 'a list \<Rightarrow> 'b \<Rightarrow> 'st \<Rightarrow> ('e + 'b) \<times> 'st" where
  "for_all f [] b s = (Inr b, s)"
| "for_all f (x # xs) b s = try_then (f x b s) (for_all f xs)"

section \<open>The functions of log.cpp\<close>

definition kConsolePattern :: string where
  "kConsolePattern = ''%H:%M:%S.%e %8t %^[%-4n] [%-6l] %v%$''"

definition kFilePattern :: string where
  "kFilePattern = ''[%Y-%m-%d %H:%M:%S.%e] [%8t] [%-4n] [%-6l] %v''"

definition kModuleCount :: nat where
  "kModuleCount = length enum_values"

type_synonym 'l LoggerArray = "'l option list"

record ('h, 'l) log_state =
  logger_array :: "'l LoggerArray option"
  init_flag :: bool
  spd :: 'h

definition MakeConsoleSink :: "('h, 's, 'l) spdlog \<Rightarrow> 'h \<Rightarrow> (log_exn + 's) \<times> 'h" where
  "MakeConsoleSink lib h = try_then (new_console_sink lib h)
     (\<lambda>console_sink h1. (Inr console_sink, sink_set_pattern lib console_sink kConsolePattern h1))"

definition MakeRotateFileSink ::
    "('h, 's, 'l) spdlog \<Rightarrow> path \<Rightarrow> nat \<Rightarrow> nat \<Rightarrow> 'h \<Rightarrow> (log_exn + 's) \<times> 'h" where
  "MakeRotateFileSink lib log_dir max_file_size max_file_count h =
     try_then (new_rotating_file_sink lib (path_append log_dir ''proxypp.log'') max_file_size max_file_count h)
       (\<lambda>file_sink h1. (Inr file_sink, sink_set_pattern lib file_sink kFilePattern h1))"

definition make_logger ::
    "('h, 's, 'l) spdlog \<Rightarrow> 's \<Rightarrow> Module \<Rightarrow> 'l LoggerArray \<Rightarrow> 'h \<Rightarrow> (log_exn + 'l LoggerArray) \<times> 'h" where
  "make_logger lib console_sink mdl result h =
     (case new_logger lib (enum_name mdl) console_sink h of (logger, h1) \<Rightarrow>
        let h2 = logger_set_level lib logger Info h1;
            h3 = logger_flush_on lib logger Warn h2 in
        try_then (register_logger lib logger h3)
          (\<lambda>_ h4. (Inr (result[enum_index mdl := Some logger]), h4)))"

definition MakeLoggers :: "('h, 's, 'l) spdlog \<Rightarrow> 'h \<Rightarrow> (log_exn + 'l LoggerArray) \<times> 'h" where
  "MakeLoggers lib h = try_then (MakeConsoleSink lib h)
     (\<lambda>console_sink. for_all (make_logger lib console_sink) enum_values (replicate kModuleCount None))"

definition Loggers ::
    "('h, 's, 'l) spdlog \<Rightarrow> ('h, 'l) log_state \<Rightarrow> (log_exn + 'l LoggerArray) \<times> ('h, 'l) log_state" where
  "Loggers lib st = (case logger_array st of
     Some loggers \<Rightarrow> (Inr loggers, st)
   | None \<Rightarrow> (case MakeLoggers lib (spd st) of
       (Inl e, h) \<Rightarrow> (Inl e, st\<lparr>spd := h\<rparr>)
     | (Inr loggers, h) \<Rightarrow> (Inr loggers, st\<lparr>logger_array := Some loggers, spd := h\<rparr>)))"

text \<open>A call through an entry of the array.\<close>

definition with_logger :: "'l option \<Rightarrow> ('l \<Rightarrow> 'h \<Rightarrow> 'h) \<Rightarrow> 'h \<Rightarrow> (log_exn + unit) \<times> 'h" where
  "with_logger logger f h = (case logger of None \<Rightarrow> (Inl NullLogger, h) | Some l \<Rightarrow> (Inr (), f l h))"

definition in_heap ::
    "('h \<Rightarrow> (log_exn + 'a) \<times> 'h) \<Rightarrow> ('h, 'l) log_state \<Rightarrow> (log_exn + 'a) \<times> ('h, 'l) log_state" where
  "in_heap f st = (case f (spd st) of (r, h) \<Rightarrow> (r, st\<lparr>spd := h\<rparr>))"

definition kMaxFileSize :: nat where
  "kMaxFileSize = 10 * 1024 * 1024"

definition kMaxFileCount :: nat where
  "kMaxFileCount = 5"

definition add_file_sink ::
    "('h, 's, 'l) spdlog \<Rightarrow> path \<Rightarrow> 'l option \<Rightarrow> unit \<Rightarrow> 'h \<Rightarrow> (log_exn + unit) \<times> 'h" where
  "add_file_sink lib log_dir logger _ h =
     try_then (MakeRotateFileSink lib log_dir kMaxFileSize kMaxFileCount h)
       (\<lambda>file_sink. with_logger logger (\<lambda>l. logger_push_sink lib l file_sink))"

definition Init ::
    "('h, 's, 'l) spdlog \<Rightarrow> path \<Rightarrow> ('h, 'l) log_state \<Rightarrow> (log_exn + unit) \<times> ('h, 'l) log_state" where
  "Init lib log_dir st =
     (if init_flag st then (Inr (), st)
      else try_then
        (try_then (Loggers lib st) (\<lambda>loggers. in_heap (for_all (add_file_sink lib log_dir) loggers ())))
        (\<lambda>_ st1. (Inr (), st1\<lparr>init_flag := True\<rparr>)))"

definition Get ::
    "('h, 's, 'l) spdlog \<Rightarrow> Module \<Rightarrow> ('h, 'l) log_state \<Rightarrow> (log_exn + 'l option) \<times> ('h, 'l) log_state" where
  "Get lib mdl st = try_then (Loggers lib st) (\<lambda>loggers st1. (Inr (loggers ! enum_index mdl), st1))"

definition SetLevel ::
    "('h, 's, 'l) spdlog \<Rightarrow> Module \<Rightarrow> log_level \<Rightarrow> ('h, 'l) log_state \<Rightarrow> (log_exn + unit) \<times> ('h, 'l) log_state" where
  "SetLevel lib mdl level st = try_then (Get lib mdl st)
     (\<lambda>logger. in_heap (with_logger logger (\<lambda>l. logger_set_level lib l level)))"

definition SetAllLevels ::
    "('h, 's, 'l) spdlog \<Rightarrow> log_level \<Rightarrow> ('h, 'l) log_state \<Rightarrow> (log_exn + unit) \<times> ('h, 'l) log_state" where
  "SetAllLevels lib level st = try_then (Loggers lib st)
     (\<lambda>loggers. in_heap (for_all (\<lambda>logger _. with_logger logger (\<lambda>l. logger_set_level lib l level)) loggers ()))"

section \<open>What spdlog promises\<close>

datatype sink_kind = ConsoleSink | RotatingFileSink path nat nat

record sink_look =
  sl_kind :: sink_kind
  sl_pattern :: string

record 's logger_look =
  ll_name :: string
  ll_level :: log_level
  ll_flush :: log_level
  ll_sinks :: "'s list"

text \<open>
  \<open>look h l\<close> is what the logger at \<open>l\<close> looks like in the heap \<open>h\<close>, \<open>None\<close> when there is none
  there; \<open>sink_at h s\<close> likewise for sinks. New objects have new addresses, and every call
  changes only the object it is made on. A registration does not change the logger.
\<close>

locale spdlog_laws =
  fixes lib :: "('h, 's, 'l) spdlog" and look :: "'h \<Rightarrow> 'l \<Rightarrow> 's logger_look option"
    and sink_at :: "'h \<Rightarrow> 's \<Rightarrow> sink_look option"
  assumes console: "new_console_sink lib h = (Inr s, h1) \<Longrightarrow> sink_at h s = None \<and>
      (\<exists>p. sink_at h1 = (sink_at h)(s \<mapsto> \<lparr>sl_kind = ConsoleSink, sl_pattern = p\<rparr>)) \<and> look h1 = look h"
    and rotating: "new_rotating_file_sink lib f sz cnt h = (Inr s, h1) \<Longrightarrow> sink_at h s = None \<and>
      (\<exists>p. sink_at h1 = (sink_at h)(s \<mapsto> \<lparr>sl_kind = RotatingFileSink f sz cnt, sl_pattern = p\<rparr>)) \<and> look h1 = look h"
    and pattern: "sink_at h s = Some w \<Longrightarrow>
      sink_at (sink_set_pattern lib s p h) = (sink_at h)(s \<mapsto> w\<lparr>sl_pattern := p\<rparr>) \<and>
      look (sink_set_pattern lib s p h) = look h"
    and logger: "new_logger lib n s h = (l, h1) \<Longrightarrow> look h l = None \<and>
      (\<exists>v f. look h1 = (look h)(l \<mapsto> \<lparr>ll_name = n, ll_level = v, ll_flush = f, ll_sinks = [s]\<rparr>)) \<and>
      sink_at h1 = sink_at h"
    and set_level: "look h l = Some v \<Longrightarrow>
      look (logger_set_level lib l x h) = (look h)(l \<mapsto> v\<lparr>ll_level := x\<rparr>) \<and>
      sink_at (logger_set_level lib l x h) = sink_at h"
    and flush_on: "look h l = Some v \<Longrightarrow>
      look (logger_flush_on lib l x h) = (look h)(l \<mapsto> v\<lparr>ll_flush := x\<rparr>) \<and>
      sink_at (logger_flush_on lib l x h) = sink_at h"
    and push_sink: "look h l = Some v \<Longrightarrow>
      look (logger_push_sink lib l s h) = (look h)(l \<mapsto> v\<lparr>ll_sinks := ll_sinks v @ [s]\<rparr>) \<and>
      sink_at (logger_push_sink lib l s h) = sink_at h"
    and registration: "register_logger lib l h = (r, h1) \<Longrightarrow> look h1 = look h \<and> sink_at h1 = sink_at h"

section \<open>The loggers of the modules\<close>

text \<open>
  The modules of \<open>M\<close> have a logger in the array: with the name of the module, the level
  \<open>lv m\<close>, flushing on warnings, writing to the console and to the sinks \<open>fs m\<close>.
\<close>

definition loggers_ok ::
    "('h \<Rightarrow> 'l \<Rightarrow> 's logger_look option) \<Rightarrow> 'h \<Rightarrow> 'l LoggerArray \<Rightarrow> Module set \<Rightarrow> (Module \<Rightarrow> log_level) \<Rightarrow>
     's \<Rightarrow> (Module \<Rightarrow> 's list) \<Rightarrow> bool" where
  "loggers_ok look h ls M lv console fs \<longleftrightarrow> length ls = kModuleCount \<and>
     (\<forall>m\<in>M. \<exists>l. ls ! enum_index m = Some l \<and> look h l = Some
        \<lparr>ll_name = enum_name m, ll_level = lv m, ll_flush = Warn, ll_sinks = console # fs m\<rparr>)"

definition file_look :: "path \<Rightarrow> sink_look" where
  "file_look d = \<lparr>sl_kind = RotatingFileSink (path_append d ''proxypp.log'') kMaxFileSize kMaxFileCount,
     sl_pattern = kFilePattern\<rparr>"

lemma loggers_okD:
  assumes "loggers_ok look h ls M lv console fs" and "m \<in> M"
  obtains l where "ls ! enum_index m = Some l" "look h l = Some
    \<lparr>ll_name = enum_name m, ll_level = lv m, ll_flush = Warn, ll_sinks = console # fs m\<rparr>"
  using assms unfolding loggers_ok_def by blast

lemma enum_index_bound [simp]: "enum_index m < kModuleCount"
  by (cases m) (simp_all add: kModuleCount_def enum_values_def)

lemma enum_index_inj [simp]: "enum_index m = enum_index m' \<longleftrightarrow> m = m'"
  by (cases m; cases m') simp_all

lemma enum_name_inj [simp]: "enum_name m = enum_name m' \<longleftrightarrow> m = m'"
  by (cases m; cases m') simp_all

lemma enum_values_all [simp]: "set enum_values = UNIV" "distinct enum_values"
proof -
  have "m \<in> set enum_values" for m
    by (cases m) (simp_all add: enum_values_def)
  then show "set enum_values = UNIV" by blast
qed (simp add: enum_values_def)

lemma array_by_module:
  assumes "length ls = kModuleCount"
  shows "ls = map (\<lambda>m. ls ! enum_index m) enum_values"
  by (rule nth_equalityI)
    (use assms in \<open>auto simp: kModuleCount_def enum_values_def less_Suc_eq eval_nat_numeral nth_Cons'\<close>)

text \<open>All modules have their loggers, and their shared console sink has its pattern.\<close>

definition log_ready ::
    "('h \<Rightarrow> 'l \<Rightarrow> 's logger_look option) \<Rightarrow> ('h \<Rightarrow> 's \<Rightarrow> sink_look option) \<Rightarrow> ('h, 'l) log_state \<Rightarrow>
     (Module \<Rightarrow> log_level) \<Rightarrow> 's \<Rightarrow> (Module \<Rightarrow> 's list) \<Rightarrow> bool" where
  "log_ready look sink_at st lv console fs \<longleftrightarrow>
     (\<exists>ls. logger_array st = Some ls \<and> loggers_ok look (spd st) ls UNIV lv console fs) \<and>
     sink_at (spd st) console = Some \<lparr>sl_kind = ConsoleSink, sl_pattern = kConsolePattern\<rparr>"

text \<open>A change of one logger, and of the heap elsewhere.\<close>

lemma loggers_ok_update:
  assumes "loggers_ok look h ls M lv console fs" and "m \<in> M" and "ls ! enum_index m = Some l"
    and "look h1 = (look h)(l \<mapsto> \<lparr>ll_name = enum_name m, ll_level = v, ll_flush = Warn, ll_sinks = console # ss\<rparr>)"
  shows "loggers_ok look h1 ls M (lv(m := v)) console (fs(m := ss))"
  unfolding loggers_ok_def
proof (intro conjI ballI)
  show "length ls = kModuleCount"
    using assms(1) by (simp add: loggers_ok_def)
  fix m' assume m': "m' \<in> M"
  from loggers_okD [OF assms(1) m'] obtain l' where l': "ls ! enum_index m' = Some l'" "look h l' = Some
      \<lparr>ll_name = enum_name m', ll_level = lv m', ll_flush = Warn, ll_sinks = console # fs m'\<rparr>" .
  from loggers_okD [OF assms(1,2)] obtain l0 where l0: "ls ! enum_index m = Some l0" "look h l0 = Some
      \<lparr>ll_name = enum_name m, ll_level = lv m, ll_flush = Warn, ll_sinks = console # fs m\<rparr>" .
  have "l' = l \<longleftrightarrow> m' = m"
  proof
    assume "l' = l"
    with l' l0 assms(3) show "m' = m" by simp
  qed (use l' assms(3) in simp)
  with l' assms(3,4) show "\<exists>l. ls ! enum_index m' = Some l \<and> look h1 l = Some \<lparr>ll_name = enum_name m',
      ll_level = (lv(m := v)) m', ll_flush = Warn, ll_sinks = console # (fs(m := ss)) m'\<rparr>"
    by (intro exI [of _ l']) simp
qed

lemma try_then_simps [simp]:
  "try_then (Inl e, s) f = (Inl e, s)" "try_then (Inr a, s) f = f a s"
  by (simp_all add: try_then_def)

lemma try_then_Inr:
  assumes "try_then r f = (Inr b, s')"
  obtains a s where "r = (Inr a, s)" "f a s = (Inr b, s')"
  using assms by (cases r; cases "fst r") (auto simp: try_then_def)

context spdlog_laws
begin

lemma MakeConsoleSink_Inr:
  assumes "MakeConsoleSink lib h = (Inr s, h1)"
  shows "sink_at h s = None \<and> look h1 = look h \<and>
    sink_at h1 = (sink_at h)(s \<mapsto> \<lparr>sl_kind = ConsoleSink, sl_pattern = kConsolePattern\<rparr>)"
proof -
  from assms obtain h0 where n: "new_console_sink lib h = (Inr s, h0)"
    and h1: "h1 = sink_set_pattern lib s kConsolePattern h0"
    unfolding MakeConsoleSink_def by (auto elim!: try_then_Inr)
  from console [OF n] obtain p where
    "sink_at h s = None" "sink_at h0 = (sink_at h)(s \<mapsto> \<lparr>sl_kind = ConsoleSink, sl_pattern = p\<rparr>)" "look h0 = look h"
    by blast
  then show ?thesis
    using pattern [of h0 s] h1 by simp
qed

lemma MakeRotateFileSink_Inr:
  assumes "MakeRotateFileSink lib d sz cnt h = (Inr s, h1)"
  shows "sink_at h s = None \<and> look h1 = look h \<and> sink_at h1 = (sink_at h)
    (s \<mapsto> \<lparr>sl_kind = RotatingFileSink (path_append d ''proxypp.log'') sz cnt, sl_pattern = kFilePattern\<rparr>)"
proof -
  from assms obtain h0 where n: "new_rotating_file_sink lib (path_append d ''proxypp.log'') sz cnt h = (Inr s, h0)"
    and h1: "h1 = sink_set_pattern lib s kFilePattern h0"
    unfolding MakeRotateFileSink_def by (auto elim!: try_then_Inr)
  from rotating [OF n] obtain p where "sink_at h s = None" "look h0 = look h" "sink_at h0 = (sink_at h)
      (s \<mapsto> \<lparr>sl_kind = RotatingFileSink (path_append d ''proxypp.log'') sz cnt, sl_pattern = p\<rparr>)"
    by blast
  then show ?thesis
    using pattern [of h0 s] h1 by simp
qed

lemma make_logger_Inr:
  assumes "make_logger lib c m ls h = (Inr ls', h1)"
    and "loggers_ok look h ls M (\<lambda>_. Info) c (\<lambda>_. [])" and "m \<notin> M"
  shows "loggers_ok look h1 ls' (insert m M) (\<lambda>_. Info) c (\<lambda>_. []) \<and> sink_at h1 = sink_at h"
proof -
  obtain l h0 where n: "new_logger lib (enum_name m) c h = (l, h0)" by fastforce
  define h2 where "h2 = logger_flush_on lib l Warn (logger_set_level lib l Info h0)"
  from assms(1) n have r: "register_logger lib l h2 = (Inr (), h1)" and ls': "ls' = ls[enum_index m := Some l]"
    by (auto simp: make_logger_def h2_def Let_def elim!: try_then_Inr)
  from logger [OF n] obtain v f where fresh: "look h l = None" and
    h0: "look h0 = (look h)(l \<mapsto> \<lparr>ll_name = enum_name m, ll_level = v, ll_flush = f, ll_sinks = [c]\<rparr>)"
      "sink_at h0 = sink_at h" by blast
  from h0 have "look h2 = (look h)(l \<mapsto> \<lparr>ll_name = enum_name m, ll_level = Info, ll_flush = Warn, ll_sinks = [c]\<rparr>)"
    "sink_at h2 = sink_at h"
    using set_level [of h0 l _ Info] flush_on [of "logger_set_level lib l Info h0" l _ Warn] by (simp_all add: h2_def)
  then show ?thesis
    using registration [OF r] assms(2,3) fresh ls'
    by (auto simp: loggers_ok_def nth_list_update) (metis option.distinct(1))
qed

lemma make_loggers_Inr:
  assumes "for_all (make_logger lib c) ms ls h = (Inr ls', h1)" and "distinct ms" and "set ms \<inter> M = {}"
    and "loggers_ok look h ls M (\<lambda>_. Info) c (\<lambda>_. [])"
  shows "loggers_ok look h1 ls' (set ms \<union> M) (\<lambda>_. Info) c (\<lambda>_. []) \<and> sink_at h1 = sink_at h"
  using assms
proof (induction ms arbitrary: ls h M)
  case (Cons m ms)
  from Cons.prems(1) obtain ls0 h0 where m: "make_logger lib c m ls h = (Inr ls0, h0)"
    and ms: "for_all (make_logger lib c) ms ls0 h0 = (Inr ls', h1)" by (auto elim: try_then_Inr)
  have "loggers_ok look h0 ls0 (insert m M) (\<lambda>_. Info) c (\<lambda>_. []) \<and> sink_at h0 = sink_at h"
    using make_logger_Inr [OF m Cons.prems(4)] Cons.prems(3) by simp
  with Cons.IH [OF ms, of "insert m M"] Cons.prems(2,3) show ?case by auto
qed simp

lemma MakeLoggers_Inr:
  assumes "MakeLoggers lib h = (Inr ls, h1)"
  shows "\<exists>c. loggers_ok look h1 ls UNIV (\<lambda>_. Info) c (\<lambda>_. []) \<and>
    sink_at h1 c = Some \<lparr>sl_kind = ConsoleSink, sl_pattern = kConsolePattern\<rparr>"
proof -
  from assms obtain c h0 where c: "MakeConsoleSink lib h = (Inr c, h0)"
    and ms: "for_all (make_logger lib c) enum_values (replicate kModuleCount None) h0 = (Inr ls, h1)"
    unfolding MakeLoggers_def by (auto elim: try_then_Inr)
  have "loggers_ok look h0 (replicate kModuleCount None) {} (\<lambda>_. Info) c (\<lambda>_. [])"
    by (simp add: loggers_ok_def)
  with make_loggers_Inr [OF ms, of "{}"] MakeConsoleSink_Inr [OF c] show ?thesis by auto
qed

lemma add_file_sink_Inr:
  assumes "add_file_sink lib d (ls ! enum_index m) u h = (Inr u', h1)"
    and "loggers_ok look h ls UNIV lv c fs"
  shows "\<exists>s. sink_at h s = None \<and> sink_at h1 = (sink_at h)(s \<mapsto> file_look d) \<and>
    loggers_ok look h1 ls UNIV lv c (fs(m := fs m @ [s]))"
proof -
  from loggers_okD [OF assms(2) UNIV_I] obtain l where l: "ls ! enum_index m = Some l" "look h l = Some
      \<lparr>ll_name = enum_name m, ll_level = lv m, ll_flush = Warn, ll_sinks = c # fs m\<rparr>" .
  with assms(1) obtain s h0 where s: "MakeRotateFileSink lib d kMaxFileSize kMaxFileCount h = (Inr s, h0)"
    and h1: "h1 = logger_push_sink lib l s h0"
    by (auto simp: add_file_sink_def with_logger_def elim!: try_then_Inr)
  note made = MakeRotateFileSink_Inr [OF s]
  with l h1 push_sink [of h0 l] have "look h1 = (look h)(l \<mapsto>
      \<lparr>ll_name = enum_name m, ll_level = lv m, ll_flush = Warn, ll_sinks = c # (fs m @ [s])\<rparr>)"
    "sink_at h1 = sink_at h0" by simp_all
  with made loggers_ok_update [OF assms(2) UNIV_I l(1), of h1 "lv m" "fs m @ [s]"] show ?thesis
    by (auto simp: file_look_def)
qed

lemma add_file_sinks_Inr:
  assumes "for_all (add_file_sink lib d) (map (\<lambda>m. ls ! enum_index m) ms) u h = (Inr u', h1)" and "distinct ms"
    and "loggers_ok look h ls UNIV lv c fs"
  shows "\<exists>new. loggers_ok look h1 ls UNIV lv c (\<lambda>m. if m \<in> set ms then fs m @ [new m] else fs m) \<and>
    inj_on new (set ms) \<and> (\<forall>m\<in>set ms. sink_at h (new m) = None \<and> sink_at h1 (new m) = Some (file_look d)) \<and>
    (\<forall>s. sink_at h s \<noteq> None \<longrightarrow> sink_at h1 s = sink_at h s)"
  using assms
proof (induction ms arbitrary: u h fs)
  case (Cons m ms)
  from Cons.prems(1) obtain u0 h0 where m: "add_file_sink lib d (ls ! enum_index m) u h = (Inr u0, h0)"
    and ms: "for_all (add_file_sink lib d) (map (\<lambda>m. ls ! enum_index m) ms) u0 h0 = (Inr u', h1)"
    by (auto elim: try_then_Inr)
  from add_file_sink_Inr [OF m Cons.prems(3)] obtain s where s: "sink_at h s = None"
    "sink_at h0 = (sink_at h)(s \<mapsto> file_look d)" "loggers_ok look h0 ls UNIV lv c (fs(m := fs m @ [s]))" by blast
  from Cons.IH [OF ms _ s(3)] Cons.prems(2) obtain new where new:
    "loggers_ok look h1 ls UNIV lv c (\<lambda>k. if k \<in> set ms then (fs(m := fs m @ [s])) k @ [new k] else (fs(m := fs m @ [s])) k)"
    "inj_on new (set ms)" "\<forall>k\<in>set ms. sink_at h0 (new k) = None \<and> sink_at h1 (new k) = Some (file_look d)"
    "\<forall>s. sink_at h0 s \<noteq> None \<longrightarrow> sink_at h1 s = sink_at h0 s" by auto
  have "(\<lambda>k. if k \<in> set ms then (fs(m := fs m @ [s])) k @ [new k] else (fs(m := fs m @ [s])) k) =
      (\<lambda>k. if k \<in> set (m # ms) then fs k @ [(new(m := s)) k] else fs k)"
    using Cons.prems(2) by auto
  with new(1) have "loggers_ok look h1 ls UNIV lv c (\<lambda>k. if k \<in> set (m # ms) then fs k @ [(new(m := s)) k] else fs k)"
    by simp
  moreover have "s \<noteq> new k" if "k \<in> set ms" for k
    using new(3) s(2) that by auto
  then have "inj_on (new(m := s)) (set (m # ms))"
    using new(2) Cons.prems(2) by (auto simp: inj_on_def)
  moreover have "\<forall>k\<in>set (m # ms). sink_at h ((new(m := s)) k) = None \<and> sink_at h1 ((new(m := s)) k) = Some (file_look d)"
    using new(3,4) s(1,2) Cons.prems(2) by (auto split: if_splits)
  moreover have "\<forall>s'. sink_at h s' \<noteq> None \<longrightarrow> sink_at h1 s' = sink_at h s'"
    using new(4) s(1,2) by (metis fun_upd_other fun_upd_same option.distinct(1))
  ultimately show ?case by blast
qed simp

lemma set_level_Inr:
  assumes "loggers_ok look h ls UNIV lv c fs"
  shows "\<exists>h1. with_logger (ls ! enum_index m) (\<lambda>l. logger_set_level lib l v) h = (Inr (), h1) \<and>
    loggers_ok look h1 ls UNIV (lv(m := v)) c fs \<and> sink_at h1 = sink_at h"
proof -
  from loggers_okD [OF assms UNIV_I] obtain l where l: "ls ! enum_index m = Some l" "look h l = Some
      \<lparr>ll_name = enum_name m, ll_level = lv m, ll_flush = Warn, ll_sinks = c # fs m\<rparr>" .
  with set_level [OF l(2), of v] have "look (logger_set_level lib l v h) = (look h)(l \<mapsto>
      \<lparr>ll_name = enum_name m, ll_level = v, ll_flush = Warn, ll_sinks = c # fs m\<rparr>)" by simp
  from loggers_ok_update [OF assms UNIV_I l(1) this] set_level [OF l(2), of v] l(1) show ?thesis
    by (simp add: with_logger_def)
qed

lemma set_levels_Inr:
  assumes "loggers_ok look h ls UNIV lv c fs"
  shows "\<exists>h1. for_all (\<lambda>x _. with_logger x (\<lambda>l. logger_set_level lib l v)) (map (\<lambda>m. ls ! enum_index m) ms) () h =
      (Inr (), h1) \<and> loggers_ok look h1 ls UNIV (\<lambda>m. if m \<in> set ms then v else lv m) c fs \<and> sink_at h1 = sink_at h"
  using assms
proof (induction ms arbitrary: h lv)
  case (Cons m ms)
  from set_level_Inr [OF Cons.prems] obtain h0 where h0:
    "with_logger (ls ! enum_index m) (\<lambda>l. logger_set_level lib l v) h = (Inr (), h0)"
    "loggers_ok look h0 ls UNIV (lv(m := v)) c fs" "sink_at h0 = sink_at h" by blast
  have "(\<lambda>k. if k \<in> set ms then v else (lv(m := v)) k) = (\<lambda>k. if k \<in> set (m # ms) then v else lv k)"
    by auto
  with h0 Cons.IH [OF h0(2)] show ?case by simp
qed simp

lemma Loggers_ready:
  assumes "Loggers lib st = (Inr ls, st1)"
    and "logger_array st = None \<or> log_ready look sink_at st (\<lambda>_. Info) c0 (\<lambda>_. [])"
  shows "\<exists>c. log_ready look sink_at st1 (\<lambda>_. Info) c (\<lambda>_. []) \<and> logger_array st1 = Some ls \<and> init_flag st1 = init_flag st"
proof (cases "logger_array st")
  case None
  with assms(1) obtain h where "MakeLoggers lib (spd st) = (Inr ls, h)" and "st1 = st\<lparr>logger_array := Some ls, spd := h\<rparr>"
    by (auto simp: Loggers_def split: prod.splits sum.splits)
  with MakeLoggers_Inr show ?thesis
    by (fastforce simp: log_ready_def)
next
  case (Some a)
  with assms show ?thesis
    by (auto simp: Loggers_def)
qed

lemma Loggers_again: "log_ready look sink_at st lv c fs \<Longrightarrow> \<exists>ls. Loggers lib st = (Inr ls, st) \<and> logger_array st = Some ls \<and>
    loggers_ok look (spd st) ls UNIV lv c fs"
  by (auto simp: log_ready_def Loggers_def)

lemma Init_ready:
  assumes "Init lib d st = (Inr u, st1)" and "\<not> init_flag st"
    and "logger_array st = None \<or> log_ready look sink_at st (\<lambda>_. Info) c0 (\<lambda>_. [])"
  shows "\<exists>c new. log_ready look sink_at st1 (\<lambda>_. Info) c (\<lambda>m. [new m]) \<and> init_flag st1 \<and> inj new \<and>
    (logger_array st \<noteq> None \<longrightarrow> logger_array st1 = logger_array st) \<and>
    (\<forall>m. sink_at (spd st1) (new m) = Some (file_look d))"
proof -
  from assms(1,2) obtain ls st0 h1 where ls: "Loggers lib st = (Inr ls, st0)"
    and add: "for_all (add_file_sink lib d) ls () (spd st0) = (Inr (), h1)"
    and st1: "st1 = st0\<lparr>spd := h1, init_flag := True\<rparr>"
    by (auto simp: Init_def in_heap_def elim!: try_then_Inr split: prod.splits)
  from Loggers_ready [OF ls assms(3)] obtain c where
    ready: "log_ready look sink_at st0 (\<lambda>_. Info) c (\<lambda>_. [])" "logger_array st0 = Some ls" by blast
  then have ok: "loggers_ok look (spd st0) ls UNIV (\<lambda>_. Info) c (\<lambda>_. [])"
    by (auto simp: log_ready_def)
  then have "ls = map (\<lambda>m. ls ! enum_index m) enum_values"
    by (intro array_by_module) (simp add: loggers_ok_def)
  with add have "for_all (add_file_sink lib d) (map (\<lambda>m. ls ! enum_index m) enum_values) () (spd st0) = (Inr (), h1)"
    by simp
  from add_file_sinks_Inr [OF this _ ok] obtain new where
    "loggers_ok look h1 ls UNIV (\<lambda>_. Info) c (\<lambda>m. [new m])" "inj new"
    "\<forall>m. sink_at h1 (new m) = Some (file_look d)" "\<forall>s. sink_at (spd st0) s \<noteq> None \<longrightarrow> sink_at h1 s = sink_at (spd st0) s"
    by auto
  moreover have "logger_array st \<noteq> None \<longrightarrow> logger_array st0 = logger_array st"
    using ls by (auto simp: Loggers_def)
  ultimately show ?thesis
    using ready st1 by (intro exI [of _ c] exI [of _ new]) (auto simp: log_ready_def)
qed

lemma SetAllLevels_ready:
  assumes "log_ready look sink_at st lv c fs"
  shows "\<exists>st1. SetAllLevels lib v st = (Inr (), st1) \<and> log_ready look sink_at st1 (\<lambda>_. v) c fs \<and>
    logger_array st1 = logger_array st \<and> init_flag st1 = init_flag st \<and> sink_at (spd st1) = sink_at (spd st)"
proof -
  from Loggers_again [OF assms] obtain ls where ls: "Loggers lib st = (Inr ls, st)" "logger_array st = Some ls"
    and ok: "loggers_ok look (spd st) ls UNIV lv c fs" by blast
  from ok have "ls = map (\<lambda>m. ls ! enum_index m) enum_values"
    by (intro array_by_module) (simp add: loggers_ok_def)
  with set_levels_Inr [OF ok, of v enum_values] obtain h1 where
    "for_all (\<lambda>x _. with_logger x (\<lambda>l. logger_set_level lib l v)) ls () (spd st) = (Inr (), h1)"
    "loggers_ok look h1 ls UNIV (\<lambda>_. v) c fs" "sink_at h1 = sink_at (spd st)" by auto
  with ls assms show ?thesis
    by (auto simp: SetAllLevels_def in_heap_def log_ready_def)
qed

lemma SetLevel_ready:
  assumes "log_ready look sink_at st lv c fs"
  shows "\<exists>st1. SetLevel lib m v st = (Inr (), st1) \<and> log_ready look sink_at st1 (lv(m := v)) c fs \<and>
    logger_array st1 = logger_array st \<and> init_flag st1 = init_flag st"
proof -
  from Loggers_again [OF assms] obtain ls where ls: "Loggers lib st = (Inr ls, st)" "logger_array st = Some ls"
    and ok: "loggers_ok look (spd st) ls UNIV lv c fs" by blast
  from set_level_Inr [OF ok, of m v] ls assms show ?thesis
    by (auto simp: SetLevel_def Get_def in_heap_def log_ready_def)
qed

end

section \<open>An instance\<close>

text \<open>
  A heap of two lists and the registry of names: what \<open>bad\<close> names cannot be opened, a name
  can be registered once.
\<close>

record spd_heap =
  sh_sinks :: "sink_look list"
  sh_loggers :: "nat logger_look list"
  sh_registry :: "string list"

definition mini_spdlog :: "(path \<Rightarrow> bool) \<Rightarrow> (spd_heap, nat, nat) spdlog" where
  "mini_spdlog bad = \<lparr>
     new_console_sink = (\<lambda>h. (Inr (length (sh_sinks h)),
       h\<lparr>sh_sinks := sh_sinks h @ [\<lparr>sl_kind = ConsoleSink, sl_pattern = ''%+''\<rparr>]\<rparr>)),
     new_rotating_file_sink = (\<lambda>f n k h. if bad f then (Inl (SpdlogError f), h) else (Inr (length (sh_sinks h)),
       h\<lparr>sh_sinks := sh_sinks h @ [\<lparr>sl_kind = RotatingFileSink f n k, sl_pattern = ''%+''\<rparr>]\<rparr>)),
     sink_set_pattern = (\<lambda>s p h. h\<lparr>sh_sinks := (sh_sinks h)[s := (sh_sinks h ! s)\<lparr>sl_pattern := p\<rparr>]\<rparr>),
     new_logger = (\<lambda>n s h. (length (sh_loggers h), h\<lparr>sh_loggers := sh_loggers h @
       [\<lparr>ll_name = n, ll_level = Info, ll_flush = Off, ll_sinks = [s]\<rparr>]\<rparr>)),
     logger_set_level = (\<lambda>l v h. h\<lparr>sh_loggers := (sh_loggers h)[l := (sh_loggers h ! l)\<lparr>ll_level := v\<rparr>]\<rparr>),
     logger_flush_on = (\<lambda>l v h. h\<lparr>sh_loggers := (sh_loggers h)[l := (sh_loggers h ! l)\<lparr>ll_flush := v\<rparr>]\<rparr>),
     logger_push_sink = (\<lambda>l s h. h\<lparr>sh_loggers := (sh_loggers h)
       [l := (sh_loggers h ! l)\<lparr>ll_sinks := ll_sinks (sh_loggers h ! l) @ [s]\<rparr>]\<rparr>),
     register_logger = (\<lambda>l h. let n = ll_name (sh_loggers h ! l) in
       if n \<in> set (sh_registry h) then (Inl (SpdlogError n), h) else (Inr (), h\<lparr>sh_registry := n # sh_registry h\<rparr>)),
     level_from_str = (\<lambda>s. case map_of [(''trace'', Trace), (''debug'', Debug), (''info'', Info), (''warning'', Warn),
       (''warn'', Warn), (''error'', Err), (''err'', Err), (''critical'', Critical)] s of
         Some v \<Rightarrow> v | None \<Rightarrow> Off)\<rparr>"

definition mini_look :: "spd_heap \<Rightarrow> nat \<Rightarrow> nat logger_look option" where
  "mini_look h l = (if l < length (sh_loggers h) then Some (sh_loggers h ! l) else None)"

definition mini_sink :: "spd_heap \<Rightarrow> nat \<Rightarrow> sink_look option" where
  "mini_sink h s = (if s < length (sh_sinks h) then Some (sh_sinks h ! s) else None)"

lemma mini_append:
  "mini_sink (h\<lparr>sh_sinks := sh_sinks h @ [x]\<rparr>) = (mini_sink h)(length (sh_sinks h) \<mapsto> x)"
  "mini_look (h\<lparr>sh_loggers := sh_loggers h @ [y]\<rparr>) = (mini_look h)(length (sh_loggers h) \<mapsto> y)"
  by (auto simp: mini_sink_def mini_look_def nth_append fun_eq_iff)

lemma mini_update:
  "mini_sink h s = Some x' \<Longrightarrow> mini_sink (h\<lparr>sh_sinks := (sh_sinks h)[s := x]\<rparr>) = (mini_sink h)(s \<mapsto> x)"
  "mini_look h l = Some y' \<Longrightarrow> mini_look (h\<lparr>sh_loggers := (sh_loggers h)[l := y]\<rparr>) = (mini_look h)(l \<mapsto> y)"
  by (auto simp: mini_sink_def mini_look_def nth_list_update fun_eq_iff split: if_splits)

lemma mini_frame [simp]:
  "mini_sink (h\<lparr>sh_loggers := ls\<rparr>) = mini_sink h" "mini_look (h\<lparr>sh_sinks := ss\<rparr>) = mini_look h"
  "mini_sink (h\<lparr>sh_registry := ns\<rparr>) = mini_sink h" "mini_look (h\<lparr>sh_registry := ns\<rparr>) = mini_look h"
  by (simp_all add: mini_sink_def mini_look_def fun_eq_iff)

lemma mini_Some:
  "mini_sink h s = Some x \<Longrightarrow> sh_sinks h ! s = x" "mini_look h l = Some y \<Longrightarrow> sh_loggers h ! l = y"
  by (auto simp: mini_sink_def mini_look_def split: if_splits)

interpretation mini_log: spdlog_laws "mini_spdlog bad" mini_look mini_sink for bad
  by unfold_locales
    (auto simp: mini_spdlog_def mini_append mini_update Let_def dest: mini_Some split: if_splits,
      auto simp: mini_sink_def mini_look_def)

section \<open>Properties\<close>

text \<open>
  C31. The set-up of the loggers: after the first \<open>Get\<close> (a static initialiser), \<open>Init\<close> and
  \<open>SetAllLevels\<close>, every module has a logger of its own name and level that flushes on
  warnings and writes to the console sink, shared by all, and to a rotating file sink of its
  own on \<open>proxypp.log\<close>; the logger fetched at first still is the one of its module; a second
  \<open>Init\<close> changes nothing; and \<open>SetLevel\<close> changes the level of its module only. The file sinks
  of the modules are different objects on one and the same file.
\<close>

theorem log_setup_correct:
  assumes "spdlog_laws lib look sink_at" and "logger_array st = None" and "\<not> init_flag st"
    and "Get lib m0 st = (Inr g, st0)" and "Init lib d st0 = (Inr (), st1)"
  shows "\<exists>console fsink st2. SetAllLevels lib v st1 = (Inr (), st2) \<and>
    log_ready look sink_at st2 (\<lambda>_. v) console (\<lambda>m. [fsink m]) \<and>
    inj fsink \<and> (\<forall>m. sink_at (spd st2) (fsink m) = Some \<lparr>
      sl_kind = RotatingFileSink (path_append d ''proxypp.log'') (10 * 1024 * 1024) 5, sl_pattern = kFilePattern\<rparr>) \<and>
    Get lib m0 st2 = (Inr g, st2) \<and> (\<forall>d'. Init lib d' st2 = (Inr (), st2)) \<and>
    (\<forall>m w. \<exists>st3. SetLevel lib m w st2 = (Inr (), st3) \<and>
      log_ready look sink_at st3 ((\<lambda>_. v)(m := w)) console (\<lambda>m. [fsink m]) \<and> Get lib m0 st3 = (Inr g, st3))"
proof -
  from assms(4) obtain ls where ls: "Loggers lib st = (Inr ls, st0)" "g = ls ! enum_index m0"
    by (auto simp: Get_def elim!: try_then_Inr)
  from spdlog_laws.Loggers_ready [OF assms(1) ls(1)] assms(2,3) obtain c0 where r0:
      "log_ready look sink_at st0 (\<lambda>_. Info) c0 (\<lambda>_. [])" "logger_array st0 = Some ls" "\<not> init_flag st0" by auto
  from spdlog_laws.Init_ready [OF assms(1,5) r0(3) disjI2, OF r0(1)] r0(2) obtain c fsink where r1:
      "log_ready look sink_at st1 (\<lambda>_. Info) c (\<lambda>m. [fsink m])" "init_flag st1" "inj fsink" "logger_array st1 = Some ls"
      "\<forall>m. sink_at (spd st1) (fsink m) = Some (file_look d)" by auto
  from spdlog_laws.SetAllLevels_ready [OF assms(1) r1(1), of v] r1 obtain st2 where r2:
      "SetAllLevels lib v st1 = (Inr (), st2)" "log_ready look sink_at st2 (\<lambda>_. v) c (\<lambda>m. [fsink m])"
      "init_flag st2" "logger_array st2 = Some ls" "\<forall>m. sink_at (spd st2) (fsink m) = Some (file_look d)" by auto
  have "\<exists>st3. SetLevel lib m w st2 = (Inr (), st3) \<and>
      log_ready look sink_at st3 ((\<lambda>_. v)(m := w)) c (\<lambda>m. [fsink m]) \<and> Get lib m0 st3 = (Inr g, st3)" for m w
    using spdlog_laws.SetLevel_ready [OF assms(1) r2(2), of m w] r2(4) ls(2)
    by (auto simp: Get_def Loggers_def)
  with r1 r2 ls(2) show ?thesis
    by (intro exI [of _ c] exI [of _ fsink] exI [of _ st2])
      (simp add: file_look_def kMaxFileSize_def kMaxFileCount_def Get_def Loggers_def Init_def)
qed

definition fresh_log :: "(spd_heap, nat) log_state" where
  "fresh_log = \<lparr>logger_array = None, init_flag = False, spd = \<lparr>sh_sinks = [], sh_loggers = [], sh_registry = []\<rparr>\<rparr>"

lemmas log_defs = MakeConsoleSink_def MakeRotateFileSink_def make_logger_def MakeLoggers_def Loggers_def
  with_logger_def in_heap_def add_file_sink_def Init_def Get_def SetLevel_def SetAllLevels_def

lemma example_logs:
  "\<exists>st0 st1. Get (mini_spdlog (\<lambda>_. False)) Module_core fresh_log = (Inr (Some 1), st0) \<and>
     Init (mini_spdlog (\<lambda>_. False)) ''./logs'' st0 = (Inr (), st1)"
  by (simp add: log_defs mini_spdlog_def fresh_log_def enum_values_def kModuleCount_def Let_def eval_nat_numeral)

theorem log_setup_correct_witness:
  "\<exists>st0 st1 st2. Get (mini_spdlog (\<lambda>_. False)) Module_core fresh_log = (Inr (Some 1), st0) \<and>
     Init (mini_spdlog (\<lambda>_. False)) ''./logs'' st0 = (Inr (), st1) \<and>
     SetAllLevels (mini_spdlog (\<lambda>_. False)) Debug st1 = (Inr (), st2) \<and>
     Get (mini_spdlog (\<lambda>_. False)) Module_core st2 = (Inr (Some 1), st2)"
proof -
  from example_logs obtain st0 st1 where st:
      "Get (mini_spdlog (\<lambda>_. False)) Module_core fresh_log = (Inr (Some 1), st0)"
      "Init (mini_spdlog (\<lambda>_. False)) ''./logs'' st0 = (Inr (), st1)" by blast
  from log_setup_correct [OF mini_log.spdlog_laws_axioms _ _ st, of Debug] st show ?thesis
    by (auto simp: fresh_log_def)
qed

end
