(* ===== verification/Tcp_Server.thy ===== *)
theory Tcp_Server
  imports Session_Exchange Logging
begin

text \<open>
  The listener \<open>core::TcpServer\<close> (\<open>core/tcp_server.h\<close>, \<open>core/tcp_server.cpp\<close>).

  \<^item> The acceptor of Boost.Asio is the parameter \<open>acceptor\<close>: the outcome of every call
    \<open>Start\<close> makes, and of every \<open>async_accept\<close>, given the outcomes of the earlier ones. The
    calls with an error code report it as an option; \<open>make_address\<close> and \<open>local_endpoint\<close>
    are called without one and throw, which is \<open>Inl\<close>.
  \<^item> \<open>TcpServer\<close> is the object, with the calls made on the acceptor, the accept outcomes so far and the
    sessions spawned. Every spawned session is a fresh \<open>HttpProxySession\<close> that goes on with
    \<open>Run\<close> (\<open>Session_Exchange\<close>).
  \<^item> The handlers called when a coroutine ends give the lines they log.
  \<^item> The accept loop is a \<open>loop\<close>; \<open>accept_run\<close> is the relation of the states it goes
    through, for the statements about a server that never stops.
\<close>

section \<open>Definitions\<close>

record boost_error =
  be_value :: int
  be_category :: string
  be_message :: string

record ListenEndpoint =
  le_address :: string
  le_port :: "16 word"

record TcpServerOptions =
  address :: string
  port :: size_t
  http_rule_config :: "HttpConfig option"
  rule_engine :: RuleEngine

datatype client_socket = ClientSocket nat

type_synonym accept_log = "(io_error + client_socket) list"

datatype acceptor_call = CallOpen | CallReuseAddress | CallBind | CallListen | SpawnAcceptLoop

record acceptor =
  make_address :: "string \<Rightarrow> boost_error + string"
  acceptor_open :: "ListenEndpoint \<Rightarrow> boost_error option"
  acceptor_reuse_address :: "ListenEndpoint \<Rightarrow> boost_error option"
  acceptor_bind :: "ListenEndpoint \<Rightarrow> boost_error option"
  acceptor_listen :: "ListenEndpoint \<Rightarrow> boost_error option"
  local_endpoint :: "ListenEndpoint \<Rightarrow> boost_error + ListenEndpoint"
  async_accept :: "accept_log \<Rightarrow> io_error + client_socket"

record spawned =
  client :: client_socket
  engine :: RuleEngine
  proxy_session :: session

record TcpServer =
  options :: TcpServerOptions
  next_session_id :: uint64
  acceptor_calls :: "acceptor_call list"
  accept_log :: accept_log
  sessions :: "spawned list"

definition new_TcpServer :: "TcpServerOptions \<Rightarrow> TcpServer" where
  "new_TcpServer opts = \<lparr>options = opts, next_session_id = 1, acceptor_calls = [], accept_log = [], sessions = []\<rparr>"

subsection \<open>The accept loop\<close>

definition accept_body :: "acceptor \<Rightarrow> TcpServer \<Rightarrow> TcpServer + TcpServer" where
  "accept_body env srv =
     (let outcome = async_accept env (accept_log srv);
          srv1 = srv\<lparr>accept_log := accept_log srv @ [outcome]\<rparr> in
      case outcome of
        Inl ec \<Rightarrow> if ec = operation_aborted then Inr srv1 else Inl srv1
      | Inr client_sock \<Rightarrow>
          let sid = next_session_id srv1 in
          Inl (srv1\<lparr>next_session_id := sid + 1,
            sessions := sessions srv1 @ [\<lparr>client = client_sock, engine = rule_engine (options srv1),
              proxy_session = HttpProxySession sid (http_rule_config (options srv1))\<rparr>]\<rparr>))"

definition accept_loop :: "acceptor \<Rightarrow> TcpServer \<Rightarrow> TcpServer option" where
  "accept_loop env srv = loop (accept_body env) srv"

text \<open>\<open>StartAccept\<close> hands the loop to the executor; it runs when \<open>main\<close> runs the executor.\<close>

definition StartAccept :: "TcpServer \<Rightarrow> TcpServer" where
  "StartAccept srv = srv\<lparr>acceptor_calls := acceptor_calls srv @ [SpawnAcceptLoop]\<rparr>"

subsection \<open>Start\<close>

definition endpoint_text :: "ListenEndpoint \<Rightarrow> string" where
  "endpoint_text e = le_address e @ '':'' @ decimal (unat (le_port e))"

definition start_failed :: "string \<Rightarrow> boost_error \<Rightarrow> ListenEndpoint result" where
  "start_failed context ec = Unexpected (common_error StartTcpServerFailed
     (context @ '': '' @ be_message ec @ '' (code='' @ decimal_int (be_value ec) @
      '', category='' @ be_category ec @ '')''))"

definition call_acceptor :: "acceptor_call \<Rightarrow> TcpServer \<Rightarrow> TcpServer" where
  "call_acceptor c srv = srv\<lparr>acceptor_calls := acceptor_calls srv @ [c]\<rparr>"

definition Start :: "acceptor \<Rightarrow> TcpServer \<Rightarrow> boost_error + (ListenEndpoint result \<times> TcpServer)" where
  "Start env srv =
     (case make_address env (address (options srv)) of
        Inl ex \<Rightarrow> Inl ex
      | Inr addr \<Rightarrow>
     (let ep = \<lparr>le_address = addr, le_port = ucast (port (options srv))\<rparr>;
          srv1 = call_acceptor CallOpen srv in
      case acceptor_open env ep of
        Some ec \<Rightarrow> Inr (start_failed (''failed to open TCP acceptor for '' @ endpoint_text ep) ec, srv1)
      | None \<Rightarrow>
     (let srv2 = call_acceptor CallReuseAddress srv1 in
      case acceptor_reuse_address env ep of
        Some ec \<Rightarrow> Inr (start_failed
          (''failed to enable SO_REUSEADDR for TCP acceptor on '' @ endpoint_text ep) ec, srv2)
      | None \<Rightarrow>
     (let srv3 = call_acceptor CallBind srv2 in
      case acceptor_bind env ep of
        Some ec \<Rightarrow> Inr (start_failed (''failed to bind TCP acceptor to '' @ endpoint_text ep) ec, srv3)
      | None \<Rightarrow>
     (let srv4 = call_acceptor CallListen srv3 in
      case acceptor_listen env ep of
        Some ec \<Rightarrow> Inr (start_failed (''failed to listen on TCP endpoint '' @ endpoint_text ep) ec, srv4)
      | None \<Rightarrow>
     (let srv5 = StartAccept srv4 in
      case local_endpoint env ep of
        Inl ex \<Rightarrow> Inl ex
      | Inr local \<Rightarrow> Inr (Inr \<lparr>le_address = le_address local, le_port = le_port local\<rparr>, srv5)))))))"

subsection \<open>The completion handlers\<close>

text \<open>
  The handlers that \<open>co_spawn\<close> calls when a coroutine has ended: they rethrow the exception
  the coroutine ended with, if any, and log it by its type.
\<close>

datatype cpp_exception = SystemError int string | StdException string | UnknownException

record log_line =
  line_module :: Module
  line_level :: log_level
  line_text :: string

fun session_completion :: "cpp_exception option \<Rightarrow> log_line list" where
  "session_completion None = []"
| "session_completion (Some (SystemError c m)) = [\<lparr>line_module = Module_http, line_level = Err,
     line_text = ''HTTP proxy session terminated with an unhandled system error: code='' @ decimal_int c @
       '', message='' @ quoted m\<rparr>]"
| "session_completion (Some (StdException m)) = [\<lparr>line_module = Module_http, line_level = Err,
     line_text = ''HTTP proxy session terminated with an unhandled exception: message='' @ quoted m\<rparr>]"
| "session_completion (Some UnknownException) = [\<lparr>line_module = Module_http, line_level = Err,
     line_text = ''HTTP proxy session terminated with an unknown exception''\<rparr>]"

fun accept_completion :: "cpp_exception option \<Rightarrow> log_line list" where
  "accept_completion None = []"
| "accept_completion (Some (SystemError c m)) = [\<lparr>line_module = Module_core, line_level = Critical,
     line_text = ''client accept loop terminated with an unhandled system error: code='' @ decimal_int c @
       '', message='' @ quoted m\<rparr>]"
| "accept_completion (Some (StdException m)) = [\<lparr>line_module = Module_core, line_level = Critical,
     line_text = ''client accept loop terminated with an unhandled exception: message='' @ quoted m\<rparr>]"
| "accept_completion (Some UnknownException) = [\<lparr>line_module = Module_core, line_level = Critical,
     line_text = ''client accept loop terminated with an unknown exception''\<rparr>]"

text \<open>
  A spawned session: \<open>Run\<close>, then its handler. The exceptions \<open>Run\<close> ends with are those of
  Beast's \<open>method\<close>, a \<open>std::exception\<close> with a message.
\<close>

definition run_spawned :: "('h, 'v) world \<Rightarrow> spawned \<Rightarrow> 'h \<Rightarrow> (log_line list \<times> session \<times> 'h) option" where
  "run_spawned w x h = (case Run w (engine x) (proxy_session x) h of
     None \<Rightarrow> None
   | Some (exn, s', h') \<Rightarrow> Some (session_completion (map_option StdException exn), s', h'))"

section \<open>Runs of the accept loop\<close>

inductive accept_run :: "acceptor \<Rightarrow> TcpServer \<Rightarrow> TcpServer \<Rightarrow> bool" for env where
  accept_refl: "accept_run env srv srv"
| accept_step: "accept_run env srv srv' \<Longrightarrow> accept_body env srv' = Inl srv'' \<Longrightarrow> accept_run env srv srv''"

text \<open>The connections of a log, and the sessions a server owes for them.\<close>

definition connections :: "accept_log \<Rightarrow> client_socket list" where
  "connections log = concat (map (\<lambda>x. case x of Inl _ \<Rightarrow> [] | Inr c \<Rightarrow> [c]) log)"

definition owed_sessions :: "TcpServerOptions \<Rightarrow> client_socket list \<Rightarrow> spawned list" where
  "owed_sessions opts cs = map (\<lambda>(i, c). \<lparr>client = c, engine = rule_engine opts,
     proxy_session = HttpProxySession (of_nat (Suc i)) (http_rule_config opts)\<rparr>) (List.enumerate 0 cs)"

definition server_inv :: "TcpServer \<Rightarrow> bool" where
  "server_inv srv \<longleftrightarrow> sessions srv = owed_sessions (options srv) (connections (accept_log srv)) \<and>
     next_session_id srv = of_nat (Suc (length (sessions srv))) \<and> Inl operation_aborted \<notin> set (accept_log srv)"

lemma connections_simps [simp]:
  "connections [] = []" "connections (log @ [Inl e]) = connections log"
  "connections (log @ [Inr c]) = connections log @ [c]"
  by (simp_all add: connections_def)

lemma owed_sessions_snoc: "owed_sessions opts (cs @ [c]) = owed_sessions opts cs @
   [\<lparr>client = c, engine = rule_engine opts,
     proxy_session = HttpProxySession (of_nat (Suc (length cs))) (http_rule_config opts)\<rparr>]"
  by (simp add: owed_sessions_def enumerate_append_eq)

lemma length_owed_sessions [simp]: "length (owed_sessions opts cs) = length cs"
  by (simp add: owed_sessions_def)

lemma server_inv_new: "server_inv (new_TcpServer opts)"
  by (simp add: server_inv_def new_TcpServer_def owed_sessions_def)

lemma server_inv_step:
  assumes "accept_body env srv = Inl srv'" and "server_inv srv"
  shows "server_inv srv' \<and> options srv' = options srv \<and> (\<exists>x. accept_log srv' = accept_log srv @ [x])"
  using assms
  by (auto simp: accept_body_def server_inv_def Let_def owed_sessions_snoc split: sum.splits if_splits)

lemma server_inv_run:
  assumes "accept_run env srv srv'" and "server_inv srv"
  shows "server_inv srv' \<and> options srv' = options srv"
  using assms by (induction rule: accept_run.induct) (auto dest: server_inv_step)

lemma owed_session_ids: "map (session_id \<circ> proxy_session) (owed_sessions opts cs) = map of_nat [1..<Suc (length cs)]"
  by (rule nth_equalityI) (simp_all add: owed_sessions_def nth_enumerate_eq del: upt_Suc)

lemma of_nat_inj_on_small: "inj_on (of_nat :: nat \<Rightarrow> uint64) {..<2 ^ 64}"
  by (rule inj_onI) (metis lessThan_iff unat_of_nat_small)

text \<open>The outcomes of the first accepts, as the acceptor decides them one after the other.\<close>

fun outcomes :: "acceptor \<Rightarrow> nat \<Rightarrow> accept_log" where
  "outcomes env 0 = []"
| "outcomes env (Suc n) = outcomes env n @ [async_accept env (outcomes env n)]"

lemma accept_body_outcomes:
  assumes "accept_log srv = outcomes env n"
  shows "case accept_body env srv of
      Inl srv' \<Rightarrow> accept_log srv' = outcomes env (Suc n) \<and> async_accept env (outcomes env n) \<noteq> Inl operation_aborted
    | Inr srv' \<Rightarrow> async_accept env (outcomes env n) = Inl operation_aborted"
  using assms by (auto simp: accept_body_def Let_def split: sum.splits)

lemma accept_loop_aborted:
  assumes "accept_log srv = outcomes env k" and "k \<le> n"
    and "async_accept env (outcomes env n) = Inl operation_aborted"
  shows "\<exists>srv'. accept_loop env srv = Some srv'"
  unfolding accept_loop_def
proof (rule loop_terminates [where P = "\<lambda>srv. \<exists>k \<le> n. accept_log srv = outcomes env k"
      and m = "\<lambda>srv. Suc n - length (accept_log srv)"])
  show "\<exists>k \<le> n. accept_log srv = outcomes env k"
    using assms by blast
next
  have len: "length (outcomes env k) = k" for k
    by (induction k) simp_all
  fix srv srv'
  assume "\<exists>k \<le> n. accept_log srv = outcomes env k" and b: "accept_body env srv = Inl srv'"
  then obtain k where k: "k \<le> n" "accept_log srv = outcomes env k" by blast
  with accept_body_outcomes [OF k(2)] b have
    *: "accept_log srv' = outcomes env (Suc k)" "async_accept env (outcomes env k) \<noteq> Inl operation_aborted"
    by simp_all
  with k(1) assms(3) have "Suc k \<le> n"
    by (metis Suc_leI le_neq_implies_less)
  with k * show "(\<exists>k \<le> n. accept_log srv' = outcomes env k) \<and>
      Suc n - length (accept_log srv') < Suc n - length (accept_log srv)"
    using len [of k] len [of "Suc k"] by (auto simp del: outcomes.simps)
qed

lemma accept_loop_outcome:
  assumes "accept_loop env srv = Some srv'" and "accept_log srv = outcomes env k"
  shows "\<exists>n. async_accept env (outcomes env n) = Inl operation_aborted"
  by (rule loop_invariant [OF assms(1) [unfolded accept_loop_def],
        where P = "\<lambda>srv. \<exists>n. accept_log srv = outcomes env n"])
    (use assms(2) accept_body_outcomes in \<open>fastforce simp del: outcomes.simps\<close>)+

lemmas start_defs = Start_def call_acceptor_def StartAccept_def new_TcpServer_def start_failed_def Let_def

lemma Start_server:
  assumes "Start env (new_TcpServer opts) = Inr (r, srv)"
  shows "accept_log srv = []" "server_inv srv" "options srv = opts"
  using assms server_inv_new [of opts]
  by (auto simp: start_defs server_inv_def split: sum.splits option.splits)

lemma Start_listening:
  assumes "Start env (new_TcpServer opts) = Inr (Inr bound, srv)"
  shows "\<exists>a. make_address env (address opts) = Inr a \<and>
    local_endpoint env \<lparr>le_address = a, le_port = ucast (port opts)\<rparr> = Inr bound \<and>
    acceptor_calls srv = [CallOpen, CallReuseAddress, CallBind, CallListen, SpawnAcceptLoop]"
  using assms by (auto simp: start_defs split: sum.splits option.splits)

section \<open>An acceptor for the witnesses\<close>

definition example_acceptor :: acceptor where
  "example_acceptor = \<lparr>make_address = (\<lambda>a. if a = ''127.0.0.1'' then Inr a
       else Inl \<lparr>be_value = 22, be_category = ''system'', be_message = ''Invalid argument''\<rparr>),
     acceptor_open = (\<lambda>_. None), acceptor_reuse_address = (\<lambda>_. None), acceptor_bind = (\<lambda>_. None),
     acceptor_listen = (\<lambda>_. None), local_endpoint = Inr,
     async_accept = (\<lambda>log. if log = [] then Inr (ClientSocket 1)
       else if length log = 1 then Inl (other_error 24)
       else if length log = 2 then Inr (ClientSocket 2) else Inl operation_aborted)\<rparr>"

definition example_options :: TcpServerOptions where
  "example_options = \<lparr>address = ''127.0.0.1'', port = 3000, http_rule_config = None, rule_engine = demo_engine\<rparr>"

definition example_server :: TcpServer where
  "example_server = (new_TcpServer example_options)
     \<lparr>acceptor_calls := [CallOpen, CallReuseAddress, CallBind, CallListen, SpawnAcceptLoop]\<rparr>"

lemma example_Start:
  "Start example_acceptor (new_TcpServer example_options) =
     Inr (Inr \<lparr>le_address = ''127.0.0.1'', le_port = 3000\<rparr>, example_server)"
  by (simp add: start_defs example_acceptor_def example_options_def example_server_def)

lemma example_accepts:
  "\<exists>srv. accept_run example_acceptor example_server srv \<and> length (sessions srv) = 2"
proof -
  note defs = example_acceptor_def example_options_def example_server_def new_TcpServer_def accept_body_def Let_def
  obtain s1 where s1: "accept_body example_acceptor example_server = Inl s1"
      "accept_log s1 = [Inr (ClientSocket 1)]" "length (sessions s1) = 1"
    by (simp add: defs)
  obtain s2 where s2: "accept_body example_acceptor s1 = Inl s2"
      "length (accept_log s2) = 2" "length (sessions s2) = 1"
    using s1(2,3) by (simp add: defs)
  have "accept_log s2 \<noteq> []" "length (accept_log s2) \<noteq> 1" using s2(2) by auto
  then obtain s3 where s3: "accept_body example_acceptor s2 = Inl s3" "length (sessions s3) = 2"
    using s2(2,3) by (simp add: defs)
  show ?thesis
    using accept_step [OF accept_step [OF accept_step [OF accept_refl s1(1)] s2(1)] s3(1)] s3(2) by blast
qed

section \<open>Properties\<close>

text \<open>
  C18. One session per accepted connection, for every behaviour of the network: after any
  number of rounds of the accept loop of a started server, the sessions spawned are exactly
  the accepted connections in the order of acceptance, each with the server's rule engine and
  configuration and in its initial state; failed accepts leave no trace. Session numbers
  count from 1 modulo the width of the counter, so they are distinct as long as fewer than
  2^64 connections were accepted.
\<close>

theorem accept_loop_correct:
  assumes "Start env (new_TcpServer opts) = Inr (Inr ep, srv0)" and "accept_run env srv0 srv"
  shows "map client (sessions srv) = connections (accept_log srv) \<and>
    (\<forall>x \<in> set (sessions srv). engine x = rule_engine opts \<and>
       proxy_session x = HttpProxySession (session_id (proxy_session x)) (http_rule_config opts)) \<and>
    map (session_id \<circ> proxy_session) (sessions srv) = map of_nat [1..<Suc (length (sessions srv))] \<and>
    (length (sessions srv) < 2 ^ 64 \<longrightarrow> distinct (map (session_id \<circ> proxy_session) (sessions srv)))"
proof -
  let ?cs = "connections (accept_log srv)"
  have srv: "sessions srv = owed_sessions opts ?cs"
    using server_inv_run [OF assms(2) Start_server(2) [OF assms(1)]] Start_server(3) [OF assms(1)]
    by (simp add: server_inv_def)
  have "map client (owed_sessions opts ?cs) = ?cs"
    by (rule nth_equalityI) (simp_all add: owed_sessions_def nth_enumerate_eq)
  moreover have "distinct (map (of_nat :: nat \<Rightarrow> uint64) [1..<Suc (length ?cs)])" if "length ?cs < 2 ^ 64"
    using that by (subst distinct_map) (auto intro!: inj_on_subset [OF of_nat_inj_on_small])
  ultimately show ?thesis
    unfolding srv owed_session_ids by (auto simp: owed_sessions_def)
qed

theorem accept_loop_correct_witness:
  "\<exists>srv :: TcpServer. length (sessions srv) = 2 \<and> map (session_id \<circ> proxy_session) (sessions srv) = [1, 2] \<and>
    distinct (map (session_id \<circ> proxy_session) (sessions srv))"
proof -
  obtain srv where srv: "accept_run example_acceptor example_server srv" "length (sessions srv) = 2"
    using example_accepts by blast
  from accept_loop_correct [OF example_Start srv(1)] srv(2)
  have "map (session_id \<circ> proxy_session) (sessions srv) = [1, 2] \<and>
      distinct (map (session_id \<circ> proxy_session) (sessions srv))"
    by (simp add: numeral_2_eq_2)
  with srv(2) have "length (sessions srv) = 2 \<and> map (session_id \<circ> proxy_session) (sessions srv) = [1, 2] \<and>
      distinct (map (session_id \<circ> proxy_session) (sessions srv))"
    by (rule conjI)
  then show ?thesis by (rule exI)
qed

text \<open>
  C27. The accept loop ends exactly when the acceptor is aborted: no other error stops it,
  and an abort always does. A server whose acceptor is never aborted serves forever.
\<close>

theorem accept_loop_ends_iff_aborted:
  assumes "Start env (new_TcpServer opts) = Inr (Inr ep, srv0)"
  shows "(\<exists>srv. accept_loop env srv0 = Some srv) \<longleftrightarrow>
    (\<exists>n. async_accept env (outcomes env n) = Inl operation_aborted)"
  using accept_loop_outcome [of env srv0 _ 0] accept_loop_aborted [of srv0 env 0]
    Start_server(1) [OF assms] by auto

theorem accept_loop_ends_iff_aborted_witness:
  "\<exists>srv. accept_loop example_acceptor example_server = Some srv"
proof -
  have "async_accept example_acceptor (outcomes example_acceptor 3) = Inl operation_aborted"
    by (simp add: example_acceptor_def numeral_3_eq_3)
  then show ?thesis
    using accept_loop_ends_iff_aborted [OF example_Start] by blast
qed

text \<open>
  C26. \<open>Start\<close> on every path. The endpoint uses the configured port, exactly if it fits 16
  bits. If the address can be parsed, the acceptor is opened, configured, bound and put in
  listening state in this order up to the first failure, which is reported as
  \<open>StartTcpServerFailed\<close> with the accept loop not started; when all four succeed the accept
  loop is started once and the endpoint really bound is returned. An address that cannot be
  parsed is not reported this way: the exception leaves \<open>Start\<close>.
\<close>

theorem Start_correct:
  "(\<forall>ex. make_address env (address opts) = Inl ex \<longrightarrow> Start env (new_TcpServer opts) = Inl ex) \<and>
   (\<forall>a. make_address env (address opts) = Inr a \<longrightarrow>
     (let ep = \<lparr>le_address = a, le_port = ucast (port opts)\<rparr>;
          failures = [acceptor_open env ep, acceptor_reuse_address env ep, acceptor_bind env ep, acceptor_listen env ep];
          calls = [CallOpen, CallReuseAddress, CallBind, CallListen];
          n = length (takeWhile (\<lambda>f. f = None) failures) in
      (unat (port opts) < 2 ^ 16 \<longrightarrow> unat (le_port ep) = unat (port opts)) \<and>
      (if n < 4 then \<exists>e srv. Start env (new_TcpServer opts) = Inr (Inl e, srv) \<and>
           code e = make_error_code StartTcpServerFailed \<and> acceptor_calls srv = take (Suc n) calls
       else (case local_endpoint env ep of
           Inl ex \<Rightarrow> Start env (new_TcpServer opts) = Inl ex
         | Inr bound \<Rightarrow> \<exists>srv. Start env (new_TcpServer opts) = Inr (Inr bound, srv) \<and>
             acceptor_calls srv = calls @ [SpawnAcceptLoop]))))"
  by (auto simp: start_defs unsigned_ucast_eq take_bit_nat_eq_self split: sum.splits option.splits)

theorem Start_correct_witness:
  "\<exists>srv. Start example_acceptor (new_TcpServer example_options) =
      Inr (Inr \<lparr>le_address = ''127.0.0.1'', le_port = 3000\<rparr>, srv) \<and>
    acceptor_calls srv = [CallOpen, CallReuseAddress, CallBind, CallListen, SpawnAcceptLoop]"
  using Start_correct [of example_acceptor example_options]
  by (simp add: Let_def example_acceptor_def example_options_def)

lemma spawned_fresh:
  assumes "server_inv srv" and "x \<in> set (sessions srv)"
  shows "\<exists>sid. proxy_session x = HttpProxySession sid (http_rule_config (options srv)) \<and> engine x = rule_engine (options srv)"
  using assms by (auto simp: server_inv_def owed_sessions_def)



end
