(* ===== verification/Json_Schema.thy ===== *)
theory Json_Schema
  imports Proxy_Prelude "HOL-Library.Finite_Map"
begin

text \<open>
  JSON documents and the part of JSON Schema (draft 2020-12) that the schema of the rule
  files uses. Both are data the program shares with the library \<open>jsoncons\<close>: the library
  parses a text to a document and decides whether a document satisfies a schema
  (\<open>helper/json_schema_helper.cpp\<close>, \<open>rule/rule_file.cpp\<close>). The order of the members of an
  object is never looked at, so an object is a finite map; a number with an integral value is
  known by that value, any other number by its text. \<open>accepts\<close> is the meaning the
  standard gives to the keywords; it is the specification the library is assumed to implement
  where a property depends on it, never something the program computes.
\<close>

section \<open>Documents\<close>

datatype json = JsonNull | JsonBool bool | JsonInteger int | JsonFraction string | JsonString string | JsonArray "json list"
  | JsonObject "(string, json) fmap"

fun is_object :: "json \<Rightarrow> bool" where
  "is_object (JsonObject m) = True"
| "is_object d = False"

fun json_member :: "json \<Rightarrow> string \<Rightarrow> json option" where
  "json_member (JsonObject m) k = fmlookup m k"
| "json_member d k = None"

abbreviation obj :: "(string \<times> json) list \<Rightarrow> json" where
  "obj ms \<equiv> JsonObject (fmap_of_list ms)"

lemma json_member_SomeD: "json_member d k = Some v \<Longrightarrow> is_object d"
  by (cases d) auto

section \<open>Schemas\<close>

text \<open>
  A schema is the list of its validating keywords; annotations (\<open>title\<close>, \<open>description\<close>,
  \<open>default\<close>) do not take part. \<open>Properties ps only\<close> joins \<open>properties\<close> with
  \<open>additionalProperties: false\<close>, which refers to it. A \<open>$ref\<close> is the schema it points to.
\<close>

datatype json_type = TObject | TString | TInteger | TBoolean | TArray

datatype schema = Schema "keyword list"
and keyword =
    Type json_type
  | Const json
  | Enum "json list"
  | MinLength nat
  | Pattern string
  | Required "string list"
  | Properties "(string \<times> schema) list" bool
  | MinItems nat
  | Items schema
  | AllOf "schema list"
  | IfThen schema schema

fun has_type :: "json_type \<Rightarrow> json \<Rightarrow> bool" where
  "has_type TObject d = (case d of JsonObject _ \<Rightarrow> True | _ \<Rightarrow> False)"
| "has_type TString d = (case d of JsonString _ \<Rightarrow> True | _ \<Rightarrow> False)"
| "has_type TInteger d = (case d of JsonInteger _ \<Rightarrow> True | _ \<Rightarrow> False)"
| "has_type TBoolean d = (case d of JsonBool _ \<Rightarrow> True | _ \<Rightarrow> False)"
| "has_type TArray d = (case d of JsonArray _ \<Rightarrow> True | _ \<Rightarrow> False)"

text \<open>
  A keyword constrains only documents of the kind it speaks about. \<open>rx p s\<close> says that the
  regular expression \<open>p\<close> matches in \<open>s\<close>.
\<close>

fun accepts :: "(string \<Rightarrow> string \<Rightarrow> bool) \<Rightarrow> schema \<Rightarrow> json \<Rightarrow> bool"
  and obeys :: "(string \<Rightarrow> string \<Rightarrow> bool) \<Rightarrow> keyword \<Rightarrow> json \<Rightarrow> bool" where
  "accepts rx (Schema ks) d \<longleftrightarrow> (\<forall>k\<in>set ks. obeys rx k d)"
| "obeys rx (Type t) d \<longleftrightarrow> has_type t d"
| "obeys rx (Const c) d \<longleftrightarrow> d = c"
| "obeys rx (Enum cs) d \<longleftrightarrow> d \<in> set cs"
| "obeys rx (MinLength n) d \<longleftrightarrow> (case d of JsonString s \<Rightarrow> n \<le> length s | _ \<Rightarrow> True)"
| "obeys rx (Pattern p) d \<longleftrightarrow> (case d of JsonString s \<Rightarrow> rx p s | _ \<Rightarrow> True)"
| "obeys rx (Required ns) d \<longleftrightarrow>
     (case d of JsonObject m \<Rightarrow> (\<forall>n\<in>set ns. fmlookup m n \<noteq> None) | _ \<Rightarrow> True)"
| "obeys rx (Properties ps only) d \<longleftrightarrow>
     (case d of
        JsonObject m \<Rightarrow>
          (\<forall>p\<in>set ps. case fmlookup m (fst p) of Some v \<Rightarrow> accepts rx (snd p) v | None \<Rightarrow> True) \<and>
          (only \<longrightarrow> fset (fmdom m) \<subseteq> fst ` set ps)
      | _ \<Rightarrow> True)"
| "obeys rx (MinItems n) d \<longleftrightarrow> (case d of JsonArray xs \<Rightarrow> n \<le> length xs | _ \<Rightarrow> True)"
| "obeys rx (Items s) d \<longleftrightarrow> (case d of JsonArray xs \<Rightarrow> (\<forall>x\<in>set xs. accepts rx s x) | _ \<Rightarrow> True)"
| "obeys rx (AllOf ss) d \<longleftrightarrow> (\<forall>s\<in>set ss. accepts rx s d)"
| "obeys rx (IfThen c t) d \<longleftrightarrow> (accepts rx c d \<longrightarrow> accepts rx t d)"

lemma accepts_type:
  "has_type TObject d \<longleftrightarrow> (\<exists>m. d = JsonObject m)"
  "has_type TString d \<longleftrightarrow> (\<exists>s. d = JsonString s)"
  "has_type TBoolean d \<longleftrightarrow> (\<exists>b. d = JsonBool b)"
  "has_type TArray d \<longleftrightarrow> (\<exists>xs. d = JsonArray xs)"
  "has_type TInteger d \<longleftrightarrow> (\<exists>i. d = JsonInteger i)"
  by (cases d; simp)+

end
