(* ===== verification/Rule_Json.thy ===== *)
theory Rule_Json
  imports Rule_Model Json_Schema
begin

text \<open>
  The conversion of a JSON document to the rule configuration: the traits that \<open>rule/op.h\<close>,
  \<open>rule/match.h\<close>, \<open>rule/config.h\<close> and \<open>rule/http/model.h\<close> declare with the macros of
  jsoncons, the hand-written traits of \<open>Action\<close>, and \<open>helper::json\<close>
  (\<open>helper/json_helper.h\<close>, \<open>helper/json_helper.cpp\<close>). A C++ exception is \<open>Inl\<close> of a
  \<open>json_exn\<close>, which keeps the class the handlers tell apart.

  The record \<open>jsoncons\<close> is the library: the two parsers, the schema compiler and validator,
  the conversions to scalars and to the enumerations, and the texts of its exceptions. The
  macros are read as their documentation says: a structure converts from an object that has
  all the mandatory members, a member converts by the traits of its type, an optional member
  that is absent keeps its default, and a \<open>std::optional\<close> is empty for null.
\<close>

datatype json_exn = SerError string | ConvError string | SchemaError string
  | ValidationError string | StdException string | UnknownException

record jsoncons =
  json_parse :: "string \<Rightarrow> json_exn + json"
  ojson_parse :: "string \<Rightarrow> json_exn + json"
  make_json_schema :: "json \<Rightarrow> json_exn + schema"
  validate :: "schema \<Rightarrow> json \<Rightarrow> json_exn option"
  as_string :: "json \<Rightarrow> json_exn + string"
  as_bool :: "json \<Rightarrow> json_exn + bool"
  as_int :: "json \<Rightarrow> json_exn + int"
  as_Op :: "json \<Rightarrow> json_exn + Op"
  as_Phase :: "json \<Rightarrow> json_exn + Phase"
  as_Target :: "json \<Rightarrow> json_exn + Target"
  key_not_found :: "string \<Rightarrow> string"
  not_an_object :: string
  not_a :: "string \<Rightarrow> string"

section \<open>Exceptions\<close>

definition try_bind :: "'e + 'a \<Rightarrow> ('a \<Rightarrow> 'e + 'b) \<Rightarrow> 'e + 'b" where
  "try_bind r f = (case r of Inl e \<Rightarrow> Inl e | Inr x \<Rightarrow> f x)"

lemma try_bind_simps [simp]: "try_bind (Inl e) f = Inl e" "try_bind (Inr x) f = f x"
  by (simp_all add: try_bind_def)

lemma try_bind_eq_Inr: "try_bind r f = Inr y \<longleftrightarrow> (\<exists>x. r = Inr x \<and> f x = Inr y)"
  by (cases r) auto

fun try_map :: "('a \<Rightarrow> 'e + 'b) \<Rightarrow> 'a list \<Rightarrow> 'e + 'b list" where
  "try_map f [] = Inr []"
| "try_map f (x # xs) = try_bind (f x) (\<lambda>y. try_bind (try_map f xs) (\<lambda>ys. Inr (y # ys)))"

lemma try_map_eq_Inr: "try_map f xs = Inr ys \<longleftrightarrow> list_all2 (\<lambda>x y. f x = Inr y) xs ys"
  by (induction xs arbitrary: ys) (auto simp: try_bind_eq_Inr list_all2_Cons1)

section \<open>The traits of the macros\<close>

definition json_at :: "jsoncons \<Rightarrow> json \<Rightarrow> string \<Rightarrow> json_exn + json" where
  "json_at lib d k =
     (if \<not> is_object d then Inl (StdException (not_an_object lib))
      else case json_member d k of
        Some v \<Rightarrow> Inr v | None \<Rightarrow> Inl (StdException (key_not_found lib k)))"

definition struct_as :: "jsoncons \<Rightarrow> string \<Rightarrow> string list \<Rightarrow> json \<Rightarrow> (json_exn + 'a) \<Rightarrow> json_exn + 'a" where
  "struct_as lib type mandatory d body =
     (if is_object d \<and> list_all (\<lambda>k. json_member d k \<noteq> None) mandatory then body
      else Inl (ConvError (not_a lib type)))"

definition member_as :: "jsoncons \<Rightarrow> json \<Rightarrow> string \<Rightarrow> (json \<Rightarrow> json_exn + 'a) \<Rightarrow> json_exn + 'a" where
  "member_as lib d k conv = try_bind (json_at lib d k) conv"

definition optional_as :: "json \<Rightarrow> string \<Rightarrow> 'a \<Rightarrow> (json \<Rightarrow> json_exn + 'a) \<Rightarrow> json_exn + 'a" where
  "optional_as d k dflt conv = (case json_member d k of None \<Rightarrow> Inr dflt | Some v \<Rightarrow> conv v)"

definition as_optional :: "(json \<Rightarrow> json_exn + 'a) \<Rightarrow> json \<Rightarrow> json_exn + 'a option" where
  "as_optional conv d = (if d = JsonNull then Inr None else try_bind (conv d) (\<lambda>x. Inr (Some x)))"

definition as_vector :: "jsoncons \<Rightarrow> (json \<Rightarrow> json_exn + 'a) \<Rightarrow> json \<Rightarrow> json_exn + 'a list" where
  "as_vector lib conv d =
     (case d of JsonArray xs \<Rightarrow> try_map conv xs | _ \<Rightarrow> Inl (ConvError (not_a lib ''vector'')))"

definition HeaderNameData_as :: "jsoncons \<Rightarrow> json \<Rightarrow> json_exn + HeaderNameData" where
  "HeaderNameData_as lib d = struct_as lib ''HeaderNameData'' [''name''] d
     (try_bind (member_as lib d ''name'' (as_string lib)) (\<lambda>n. Inr \<lparr>hn_name = n\<rparr>))"

definition HeaderNameValueData_as :: "jsoncons \<Rightarrow> json \<Rightarrow> json_exn + HeaderNameValueData" where
  "HeaderNameValueData_as lib d = struct_as lib ''HeaderNameValueData'' [''name'', ''value''] d
     (try_bind (member_as lib d ''name'' (as_string lib)) (\<lambda>n.
      try_bind (member_as lib d ''value'' (as_string lib)) (\<lambda>v. Inr \<lparr>hnv_name = n, hnv_value = v\<rparr>)))"

definition Match_as :: "jsoncons \<Rightarrow> json \<Rightarrow> json_exn + Match" where
  "Match_as lib d = struct_as lib ''Match'' [''expr''] d
     (try_bind (member_as lib d ''expr'' (as_string lib)) (\<lambda>e. Inr \<lparr>expr = e\<rparr>))"

section \<open>The traits of Action\<close>

definition Action_is :: "json \<Rightarrow> bool" where
  "Action_is d \<longleftrightarrow> is_object d \<and> json_member d ''op'' \<noteq> None \<and>
     json_member d ''target'' \<noteq> None \<and> json_member d ''data'' \<noteq> None"

definition Action_as :: "jsoncons \<Rightarrow> json \<Rightarrow> json_exn + Action" where
  "Action_as lib d =
     try_bind (try_bind (json_at lib d ''op'') (as_Op lib)) (\<lambda>o'.
     try_bind (try_bind (json_at lib d ''target'') (as_Target lib)) (\<lambda>t.
     try_bind (json_at lib d ''data'') (\<lambda>data_json.
       if t = TargetHeader then
         if o' = OpAdd \<or> o' = OpSet \<or> o' = OpReplace then
           try_bind (HeaderNameValueData_as lib data_json)
             (\<lambda>x. Inr \<lparr>op = o', action_target = t, data = NameValueData x\<rparr>)
         else if o' = OpRemove then
           try_bind (HeaderNameData_as lib data_json)
             (\<lambda>x. Inr \<lparr>op = o', action_target = t, data = NameData x\<rparr>)
         else Inl (ConvError ''invalid action op'')
       else Inl (ConvError ''unsupported action target''))))"

section \<open>Rules and configurations\<close>

definition Rule_as :: "jsoncons \<Rightarrow> json \<Rightarrow> json_exn + Rule" where
  "Rule_as lib d = struct_as lib ''Rule'' [''name'', ''phase'', ''actions''] d
     (try_bind (member_as lib d ''name'' (as_string lib)) (\<lambda>n.
      try_bind (member_as lib d ''phase'' (as_Phase lib)) (\<lambda>ph.
      try_bind (member_as lib d ''actions'' (as_vector lib (Action_as lib))) (\<lambda>acts.
      try_bind (optional_as d ''enabled'' (enabled default_Rule) (as_bool lib)) (\<lambda>en.
      try_bind (optional_as d ''match'' (match default_Rule) (as_optional (Match_as lib))) (\<lambda>mt.
        Inr \<lparr>name = n, enabled = en, phase = ph, match = mt, actions = acts\<rparr>))))))"

definition HttpConfig_as :: "jsoncons \<Rightarrow> json \<Rightarrow> json_exn + HttpConfig" where
  "HttpConfig_as lib d = struct_as lib ''http::Config'' [] d
     (try_bind (optional_as d ''rules'' None (as_optional (as_vector lib (Rule_as lib))))
        (\<lambda>rs. Inr \<lparr>rules = rs\<rparr>))"

definition Config_as :: "jsoncons \<Rightarrow> json \<Rightarrow> json_exn + Config" where
  "Config_as lib d = struct_as lib ''Config'' [''version''] d
     (try_bind (member_as lib d ''version'' (as_int lib)) (\<lambda>ver.
      try_bind (optional_as d ''$schema'' (schema default_Config) (as_optional (as_string lib))) (\<lambda>sch.
      try_bind (optional_as d ''http'' (http default_Config) (as_optional (HttpConfig_as lib))) (\<lambda>hc.
        Inr \<lparr>schema = sch, cfg_version = ver, http = hc\<rparr>))))"

section \<open>helper::json\<close>

definition ParseJson :: "jsoncons \<Rightarrow> string \<Rightarrow> json result" where
  "ParseJson lib content = (case ojson_parse lib content of
     Inr d \<Rightarrow> Inr d
   | Inl UnknownException \<Rightarrow> Unexpected (common_error JsonParseFailed ''unknown json parse error'')
   | Inl (SerError w) \<Rightarrow> Unexpected (common_error JsonParseFailed w)
   | Inl (ConvError w) \<Rightarrow> Unexpected (common_error JsonParseFailed w)
   | Inl (SchemaError w) \<Rightarrow> Unexpected (common_error JsonParseFailed w)
   | Inl (ValidationError w) \<Rightarrow> Unexpected (common_error JsonParseFailed w)
   | Inl (StdException w) \<Rightarrow> Unexpected (common_error JsonParseFailed w))"

text \<open>\<open>Convert\<close> lets an exception that is no \<open>std::exception\<close> through.\<close>

definition Convert :: "(json \<Rightarrow> json_exn + 'a) \<Rightarrow> json \<Rightarrow> json_exn + 'a result" where
  "Convert as_T jv = (case as_T jv of
     Inr x \<Rightarrow> Inr (Inr x)
   | Inl (ConvError _) \<Rightarrow> Inr (Unexpected (common_error JsonConversionFailed []))
   | Inl UnknownException \<Rightarrow> Inl UnknownException
   | Inl _ \<Rightarrow> Inr (Unexpected (common_error InternalError ''unexpected json conversion error'')))"

end
