(* ===== verification/Rule_File.thy ===== *)
theory Rule_File
  imports Rule_Json "HOL-Library.Char_ord"
begin

text \<open>
  Loading a rule file: \<open>helper::file::ReadTextFile\<close> (\<open>helper/file_helper.cpp\<close>),
  \<open>helper::schema::ValidateJsonBySchema\<close> (\<open>helper/json_schema_helper.cpp\<close>), the schema of
  the rule files and \<open>LoadRulesFromFile\<close> (\<open>rule/rule_file.cpp\<close>). The file system is a
  parameter that gives the bytes of a file that can be opened; the text of the schema is the
  parameter \<open>kRuleSchema\<close>, and the schema it denotes is \<open>rule_schema\<close>, one definition per
  entry of its \<open>$defs\<close>.

  The locale \<open>jsoncons_laws\<close> names what is used of the library. Under it a document is
  accepted exactly when it satisfies the schema, every accepted document converts, and the
  configuration that comes out is well formed (\<open>config_wf\<close>); conversely \<open>config_json\<close>
  writes every well-formed configuration as a document that loads to it.
\<close>

section \<open>Files\<close>


definition ReadTextFile :: "files \<Rightarrow> path \<Rightarrow> string result" where
  "ReadTextFile fs p = (case fs p of
     None \<Rightarrow> Unexpected (common_error InvalidArgument (''failed to open file: '' @ p))
   | Some content \<Rightarrow> Inr content)"

section \<open>Validation against a schema\<close>

definition kJsonSchemaDraft202012 :: string where
  "kJsonSchemaDraft202012 = ''https://json-schema.org/draft/2020-12/schema''"

definition kJsonSchemaDraft202012WithHash :: string where
  "kJsonSchemaDraft202012WithHash = ''https://json-schema.org/draft/2020-12/schema#''"

definition IsSupportedJsonSchemaVersion :: "string \<Rightarrow> bool" where
  "IsSupportedJsonSchemaVersion v \<longleftrightarrow>
     v = kJsonSchemaDraft202012 \<or> v = kJsonSchemaDraft202012WithHash"

definition CheckJsonSchemaVersion :: "json \<Rightarrow> unit result" where
  "CheckJsonSchemaVersion sj =
     (if \<not> is_object sj then
        Unexpected (common_error InvalidJsonSchema ''rule schema must be a JSON object'')
      else case json_member sj ''$schema'' of
        None \<Rightarrow> Unexpected (common_error InvalidJsonSchema
          (''rule schema must declare $schema: '' @ kJsonSchemaDraft202012))
      | Some (JsonString v) \<Rightarrow>
          if \<not> IsSupportedJsonSchemaVersion v then
            Unexpected (common_error InvalidJsonSchema
              (''unsupported rule schema version: '' @ v @ '', expected: '' @ kJsonSchemaDraft202012))
          else Inr ()
      | Some _ \<Rightarrow> Unexpected (common_error InvalidJsonSchema
          (''rule schema '' @ [CHR 0x27] @ ''$schema'' @ [CHR 0x27] @ '' must be a string'')))"

text \<open>The third block of the source: compile the schema, then validate the document.\<close>

definition compile_and_validate :: "jsoncons \<Rightarrow> json \<Rightarrow> json \<Rightarrow> json_exn option" where
  "compile_and_validate lib sj d =
     (case make_json_schema lib sj of Inl e \<Rightarrow> Some e | Inr compiled \<Rightarrow> validate lib compiled d)"

definition ValidateJsonBySchema :: "jsoncons \<Rightarrow> string \<Rightarrow> string \<Rightarrow> json_exn + unit result" where
  "ValidateJsonBySchema lib schema_text document_text =
     (case json_parse lib schema_text of
        Inl (SerError w) \<Rightarrow> Inr (Unexpected (common_error JsonParseFailed (''parse rule schema failed, '' @ w)))
      | Inl e \<Rightarrow> Inl e
      | Inr sj \<Rightarrow>
     (case CheckJsonSchemaVersion sj of
        Inl err \<Rightarrow> Inr (Inl err)
      | Inr _ \<Rightarrow>
     (case json_parse lib document_text of
        Inl (SerError w) \<Rightarrow> Inr (Unexpected (common_error JsonParseFailed (''invalid rule file JSON: '' @ w)))
      | Inl e \<Rightarrow> Inl e
      | Inr d \<Rightarrow>
     (case compile_and_validate lib sj d of
        None \<Rightarrow> Inr (Inr ())
      | Some (SchemaError w) \<Rightarrow> Inr (Unexpected (common_error InvalidJsonSchema (''invalid JSON schema: '' @ w)))
      | Some (ConvError w) \<Rightarrow> Inr (Unexpected (common_error InvalidJsonSchema (''invalid JSON schema: '' @ w)))
      | Some (ValidationError w) \<Rightarrow>
          Inr (Unexpected (common_error JsonSchemaValidationFailed (''schema validation failed: '' @ w)))
      | Some (SerError w) \<Rightarrow> Inr (Unexpected (common_error InternalError (''schema validation failed, '' @ w)))
      | Some (StdException w) \<Rightarrow> Inr (Unexpected (common_error InternalError (''schema validation failed, '' @ w)))
      | Some UnknownException \<Rightarrow> Inl UnknownException))))"

section \<open>The schema of the rule files\<close>

definition header_name_pattern :: string where
  "header_name_pattern =
     ''^[!#$%&'' @ [CHR 0x27] @ ''*+.^_'' @ [CHR 0x60] @ ''|~0-9A-Za-z-]+$''"

definition header_name_schema :: schema where
  "header_name_schema = Schema [Type TString, MinLength 1, Pattern header_name_pattern]"

definition header_value_schema :: schema where
  "header_value_schema = Schema [Type TString]"

definition headerName_schema :: schema where
  "headerName_schema = Schema [Type TObject, Required [''name''],
     Properties [(''name'', header_name_schema)] True]"

definition headerNameValue_schema :: schema where
  "headerNameValue_schema = Schema [Type TObject, Required [''name'', ''value''],
     Properties [(''name'', header_name_schema), (''value'', header_value_schema)] True]"

definition nonempty_schema :: schema where
  "nonempty_schema = Schema [Type TString, MinLength 1]"

definition match_schema :: schema where
  "match_schema = Schema [Type TObject, Required [''expr''],
     Properties [(''expr'', nonempty_schema)] True]"

definition op_schema :: schema where
  "op_schema = Schema [Type TString,
     Enum [JsonString ''set'', JsonString ''add'', JsonString ''replace'', JsonString ''remove'']]"

definition phase_schema :: schema where
  "phase_schema = Schema [Type TString, Enum [JsonString ''request'', JsonString ''response'']]"

definition target_schema :: schema where
  "target_schema = Schema [Type TString, Enum [JsonString ''header'']]"

definition action_schema :: schema where
  "action_schema = Schema [Type TObject, Required [''op'', ''target'', ''data''],
     Properties [(''op'', op_schema), (''target'', target_schema), (''data'', Schema [])] True,
     AllOf
       [Schema [IfThen
          (Schema [Required [''target'', ''op''],
             Properties [(''target'', Schema [Const (JsonString ''header'')]),
               (''op'', Schema [Enum [JsonString ''set'', JsonString ''add'', JsonString ''replace'']])] False])
          (Schema [Properties [(''data'', headerNameValue_schema)] False])],
        Schema [IfThen
          (Schema [Required [''target'', ''op''],
             Properties [(''target'', Schema [Const (JsonString ''header'')]),
               (''op'', Schema [Const (JsonString ''remove'')])] False])
          (Schema [Properties [(''data'', headerName_schema)] False])]]]"

definition enabled_schema :: schema where
  "enabled_schema = Schema [Type TBoolean]"

definition actions_schema :: schema where
  "actions_schema = Schema [Type TArray, MinItems 1, Items action_schema]"

definition rule_item_schema :: schema where
  "rule_item_schema = Schema [Type TObject, Required [''name'', ''phase'', ''actions''],
     Properties [(''name'', nonempty_schema), (''enabled'', enabled_schema),
       (''phase'', phase_schema), (''match'', match_schema),
       (''actions'', actions_schema)] True]"

definition rules_schema :: schema where
  "rules_schema = Schema [Type TArray, Items rule_item_schema]"

definition config_schema :: schema where
  "config_schema = Schema [Type TObject, Required [],
     Properties [(''rules'', rules_schema)] True]"

definition version_schema :: schema where
  "version_schema = Schema [Type TInteger, Const (JsonInteger 1)]"

definition schema_uri_schema :: schema where
  "schema_uri_schema = Schema [Type TString]"

definition rule_schema :: schema where
  "rule_schema = Schema [Type TObject, Required [''version''],
     Properties [(''$schema'', schema_uri_schema),
       (''version'', version_schema), (''http'', config_schema)] True]"

section \<open>LoadRulesFromFile\<close>

definition LoadRulesFromFile :: "jsoncons \<Rightarrow> string \<Rightarrow> files \<Rightarrow> path \<Rightarrow> json_exn + Config result" where
  "LoadRulesFromFile lib kRuleSchema fs file_path =
     (case ReadTextFile fs file_path of
        Inl err \<Rightarrow> Inr (Unexpected err)
      | Inr text \<Rightarrow>
     (case ValidateJsonBySchema lib kRuleSchema text of
        Inl exn \<Rightarrow> Inl exn
      | Inr (Inl err) \<Rightarrow> Inr (Unexpected err)
      | Inr (Inr _) \<Rightarrow>
     (case ParseJson lib text of
        Inl err \<Rightarrow> Inr (Unexpected err)
      | Inr d \<Rightarrow>
     (case Convert (Config_as lib) d of
        Inl exn \<Rightarrow> Inl exn
      | Inr (Inl err) \<Rightarrow> Inr (Unexpected err)
      | Inr (Inr cfg) \<Rightarrow> Inr (Inr cfg)))))"

section \<open>Well-formed configurations\<close>

text \<open>The characters of a token, the syntax of header names.\<close>

definition is_tchar :: "char \<Rightarrow> bool" where
  "is_tchar c \<longleftrightarrow> CHR ''0'' \<le> c \<and> c \<le> CHR ''9'' \<or> CHR ''A'' \<le> c \<and> c \<le> CHR ''Z'' \<or>
     CHR ''a'' \<le> c \<and> c \<le> CHR ''z'' \<or> c \<in> set (''!#$%&*+-.^_|~'' @ [CHR 0x27, CHR 0x60])"

definition is_token :: "string \<Rightarrow> bool" where
  "is_token s \<longleftrightarrow> s \<noteq> [] \<and> list_all is_tchar s"

definition action_wf :: "Action \<Rightarrow> bool" where
  "action_wf a \<longleftrightarrow> action_target a = TargetHeader \<and> is_token (action_name a) \<and>
     (case data a of NameData _ \<Rightarrow> op a = OpRemove | NameValueData _ \<Rightarrow> op a \<in> {OpSet, OpAdd, OpReplace})"

definition rule_wf :: "Rule \<Rightarrow> bool" where
  "rule_wf r \<longleftrightarrow> name r \<noteq> [] \<and> phase r \<noteq> PhaseNotSet \<and> actions r \<noteq> [] \<and> list_all action_wf (actions r) \<and>
     (case match r of None \<Rightarrow> True | Some m \<Rightarrow> expr m \<noteq> [])"

definition http_wf :: "HttpConfig \<Rightarrow> bool" where
  "http_wf hc \<longleftrightarrow> (case rules hc of None \<Rightarrow> True | Some rs \<Rightarrow> list_all rule_wf rs)"

definition config_wf :: "Config \<Rightarrow> bool" where
  "config_wf c \<longleftrightarrow> cfg_version c = kRulesSchemaVersion \<and>
     (case http c of None \<Rightarrow> True | Some hc \<Rightarrow> http_wf hc)"

section \<open>The documents of a configuration\<close>

definition json_name :: "('e \<times> string) list \<Rightarrow> 'e \<Rightarrow> json" where
  "json_name names e = JsonString (case map_of names e of None \<Rightarrow> [] | Some n \<Rightarrow> n)"

definition data_json :: "ActionData \<Rightarrow> json" where
  "data_json x = (case x of
     NameData d \<Rightarrow> obj [(''name'', JsonString (hn_name d))]
   | NameValueData d \<Rightarrow> obj [(''name'', JsonString (hnv_name d)), (''value'', JsonString (hnv_value d))])"

definition action_json :: "Action \<Rightarrow> json" where
  "action_json a = obj [(''op'', json_name op_json_names (op a)),
     (''target'', json_name target_json_names (action_target a)), (''data'', data_json (data a))]"

definition rule_json :: "Rule \<Rightarrow> json" where
  "rule_json r = obj ([(''name'', JsonString (name r)), (''enabled'', JsonBool (enabled r)),
     (''phase'', json_name phase_json_names (phase r)),
     (''actions'', JsonArray (map action_json (actions r)))] @
     (case match r of None \<Rightarrow> [] | Some m \<Rightarrow> [(''match'', obj [(''expr'', JsonString (expr m))])]))"

definition http_json :: "HttpConfig \<Rightarrow> json" where
  "http_json hc =
     obj (case rules hc of None \<Rightarrow> [] | Some rs \<Rightarrow> [(''rules'', JsonArray (map rule_json rs))])"

definition config_json :: "Config \<Rightarrow> json" where
  "config_json c = obj ([(''version'', JsonInteger (cfg_version c))] @
     (case schema c of None \<Rightarrow> [] | Some u \<Rightarrow> [(''$schema'', JsonString u)]) @
     (case http c of None \<Rightarrow> [] | Some hc \<Rightarrow> [(''http'', http_json hc)]))"

section \<open>What is used of the library\<close>

fun exn_text :: "json_exn \<Rightarrow> string" where
  "exn_text (SerError w) = w"
| "exn_text (ConvError w) = w"
| "exn_text (SchemaError w) = w"
| "exn_text (ValidationError w) = w"
| "exn_text (StdException w) = w"
| "exn_text UnknownException = []"

lemmas trait_defs = struct_as_def member_as_def optional_as_def json_at_def as_optional_def as_vector_def

locale jsoncons_laws =
  fixes lib :: jsoncons and rx :: "string \<Rightarrow> string \<Rightarrow> bool" and kRuleSchema :: string and sj :: json
  assumes schema_parses: "json_parse lib kRuleSchema = Inr sj"
    and schema_declares: "json_member sj ''$schema'' = Some (JsonString kJsonSchemaDraft202012)"
    and schema_compiles: "make_json_schema lib sj = Inr rule_schema"
    and parse_throws: "json_parse lib t = Inl e \<Longrightarrow> \<exists>w. e = SerError w"
    and validate_iff: "validate lib S d = None \<longleftrightarrow> accepts rx S d"
    and validate_throws: "validate lib S d = Some e \<Longrightarrow> \<exists>w. e = ValidationError w"
    and rx_token: "rx header_name_pattern s \<longleftrightarrow> is_token s"
    and as_string_law: "as_string lib (JsonString s) = Inr s"
    and as_bool_law: "as_bool lib (JsonBool b) = Inr b"
    and as_int_law: "- (2 ^ 31) \<le> i \<Longrightarrow> i < 2 ^ 31 \<Longrightarrow> as_int lib (JsonInteger i) = Inr i"
    and as_Op_law: "(o', n) \<in> set op_json_names \<Longrightarrow> as_Op lib (JsonString n) = Inr o'"
    and as_Phase_law: "(ph, n) \<in> set phase_json_names \<Longrightarrow> as_Phase lib (JsonString n) = Inr ph"
    and as_Target_law: "(tg, n) \<in> set target_json_names \<Longrightarrow> as_Target lib (JsonString n) = Inr tg"
begin

lemmas scalar_laws [simp] = as_string_law as_bool_law

lemma enum_laws [simp]:
  "as_Op lib (JsonString ''set'') = Inr OpSet" "as_Op lib (JsonString ''add'') = Inr OpAdd"
  "as_Op lib (JsonString ''replace'') = Inr OpReplace" "as_Op lib (JsonString ''remove'') = Inr OpRemove"
  "as_Phase lib (JsonString ''request'') = Inr PhaseRequest"
  "as_Phase lib (JsonString ''response'') = Inr PhaseResponse"
  "as_Target lib (JsonString ''header'') = Inr TargetHeader"
  by (rule as_Op_law as_Phase_law as_Target_law;
      simp add: op_json_names_def phase_json_names_def target_json_names_def)+

lemma accepts_header_name: "accepts rx header_name_schema d \<longleftrightarrow> (\<exists>n. d = JsonString n \<and> is_token n)"
  by (cases d) (auto simp: header_name_schema_def rx_token is_token_def Suc_le_eq)

lemma accepts_header_value: "accepts rx header_value_schema d \<longleftrightarrow> (\<exists>v. d = JsonString v)"
  by (cases d) (auto simp: header_value_schema_def)

lemma accepts_nonempty: "accepts rx nonempty_schema d \<longleftrightarrow> (\<exists>n. d = JsonString n \<and> n \<noteq> [])"
  by (cases d) (auto simp: nonempty_schema_def Suc_le_eq)

lemma accepts_enabled: "accepts rx enabled_schema d \<longleftrightarrow> (\<exists>b. d = JsonBool b)"
  by (cases d) (auto simp: enabled_schema_def)

lemma accepts_phase: "accepts rx phase_schema d \<longleftrightarrow> d = JsonString ''request'' \<or> d = JsonString ''response''"
  by (auto simp: phase_schema_def)

lemma accepts_actions: "accepts rx actions_schema d \<longleftrightarrow>
    (\<exists>xs. d = JsonArray xs \<and> xs \<noteq> [] \<and> (\<forall>x\<in>set xs. accepts rx action_schema x))"
  by (cases d) (auto simp: actions_schema_def Suc_le_eq)

lemma accepts_rules: "accepts rx rules_schema d \<longleftrightarrow>
    (\<exists>xs. d = JsonArray xs \<and> (\<forall>x\<in>set xs. accepts rx rule_item_schema x))"
  by (cases d) (auto simp: rules_schema_def)

lemma accepts_version: "accepts rx version_schema d \<longleftrightarrow> d = JsonInteger 1"
  by (auto simp: version_schema_def)

lemma accepts_schema_uri: "accepts rx schema_uri_schema d \<longleftrightarrow> (\<exists>u. d = JsonString u)"
  by (cases d) (auto simp: schema_uri_schema_def)

lemmas accepts_leaf = accepts_header_name accepts_header_value accepts_nonempty accepts_enabled
  accepts_phase accepts_actions accepts_rules accepts_version accepts_schema_uri

lemma headerNameValue_converts:
  assumes "accepts rx headerNameValue_schema d"
  shows "\<exists>x. HeaderNameValueData_as lib d = Inr x \<and> is_token (hnv_name x)"
proof -
  obtain m where d: "d = JsonObject m"
    using assms by (cases d) (auto simp: headerNameValue_schema_def)
  with assms obtain n v where "fmlookup m ''name'' = Some (JsonString n)" "is_token n"
      and "fmlookup m ''value'' = Some (JsonString v)"
    by (fastforce simp: headerNameValue_schema_def accepts_header_name accepts_header_value
        split: option.splits)
  then show ?thesis
    by (simp add: d HeaderNameValueData_as_def trait_defs)
qed

lemma headerName_converts:
  assumes "accepts rx headerName_schema d"
  shows "\<exists>x. HeaderNameData_as lib d = Inr x \<and> is_token (hn_name x)"
proof -
  obtain m where d: "d = JsonObject m"
    using assms by (cases d) (auto simp: headerName_schema_def)
  with assms obtain n where "fmlookup m ''name'' = Some (JsonString n)" "is_token n"
    by (fastforce simp: headerName_schema_def accepts_header_name split: option.splits)
  then show ?thesis
    by (simp add: d HeaderNameData_as_def trait_defs)
qed

lemma match_converts:
  assumes "accepts rx match_schema d"
  shows "\<exists>x. Match_as lib d = Inr x \<and> expr x \<noteq> []"
proof -
  obtain m where d: "d = JsonObject m"
    using assms by (cases d) (auto simp: match_schema_def)
  with assms obtain e where "fmlookup m ''expr'' = Some (JsonString e)" "e \<noteq> []"
    by (fastforce simp: match_schema_def accepts_leaf split: option.splits)
  then show ?thesis
    by (simp add: d Match_as_def trait_defs)
qed

lemma accepts_action:
  "accepts rx action_schema (JsonObject m) \<longleftrightarrow>
     fmlookup m ''target'' = Some (JsonString ''header'') \<and>
     fset (fmdom m) \<subseteq> {''op'', ''target'', ''data''} \<and>
     (\<exists>d. fmlookup m ''data'' = Some d \<and>
       (fmlookup m ''op'' \<in> {Some (JsonString ''set''), Some (JsonString ''add''), Some (JsonString ''replace'')} \<and>
          accepts rx headerNameValue_schema d \<or>
        fmlookup m ''op'' = Some (JsonString ''remove'') \<and> accepts rx headerName_schema d))"
  by (auto simp: action_schema_def op_schema_def target_schema_def split: option.splits)

lemma action_converts:
  assumes "accepts rx action_schema d"
  shows "\<exists>a. Action_as lib d = Inr a \<and> action_wf a"
proof -
  obtain m where d: "d = JsonObject m"
    using assms by (cases d) (auto simp: action_schema_def)
  with assms have *: "accepts rx action_schema (JsonObject m)" by simp
  show ?thesis
    using * unfolding accepts_action
    by (auto simp: d Action_as_def trait_defs action_wf_def action_name_def
        dest!: headerNameValue_converts headerName_converts)
qed

lemma actions_convert:
  assumes "\<forall>x\<in>set xs. accepts rx action_schema x"
  shows "\<exists>acts. try_map (Action_as lib) xs = Inr acts \<and> length acts = length xs \<and> list_all action_wf acts"
  using assms by (induction xs) (auto dest!: action_converts)

lemma accepts_object:
  "accepts rx (Schema [Type TObject, Required ns, Properties ps True]) d \<longleftrightarrow>
     (\<exists>m. d = JsonObject m \<and> (\<forall>n\<in>set ns. fmlookup m n \<noteq> None) \<and>
       (\<forall>p\<in>set ps. \<forall>v. fmlookup m (fst p) = Some v \<longrightarrow> accepts rx (snd p) v) \<and>
       fset (fmdom m) \<subseteq> fst ` set ps)"
  by (cases d) (auto split: option.splits)

lemma rule_converts:
  assumes "accepts rx rule_item_schema d"
  shows "\<exists>r. Rule_as lib d = Inr r \<and> rule_wf r"
proof -
  from assms obtain m where d: "d = JsonObject m"
      and req: "fmlookup m ''name'' \<noteq> None" "fmlookup m ''phase'' \<noteq> None" "fmlookup m ''actions'' \<noteq> None"
      and sub: "\<And>v. fmlookup m ''name'' = Some v \<Longrightarrow> accepts rx nonempty_schema v"
        "\<And>v. fmlookup m ''enabled'' = Some v \<Longrightarrow> accepts rx enabled_schema v"
        "\<And>v. fmlookup m ''phase'' = Some v \<Longrightarrow> accepts rx phase_schema v"
        "\<And>v. fmlookup m ''match'' = Some v \<Longrightarrow> accepts rx match_schema v"
        "\<And>v. fmlookup m ''actions'' = Some v \<Longrightarrow> accepts rx actions_schema v"
    by (auto simp del: accepts.simps simp: rule_item_schema_def accepts_object)
  obtain n where n: "fmlookup m ''name'' = Some (JsonString n)" "n \<noteq> []"
    using req(1) sub(1) by (auto simp: accepts_leaf)
  obtain ph p where ph: "fmlookup m ''phase'' = Some p" "as_Phase lib p = Inr ph" "ph \<noteq> PhaseNotSet"
    using req(2) sub(3) by (fastforce simp: accepts_leaf)
  obtain xs acts where acts: "fmlookup m ''actions'' = Some (JsonArray xs)"
      "try_map (Action_as lib) xs = Inr acts" "acts \<noteq> []" "list_all action_wf acts"
    using req(3) sub(5) actions_convert by (fastforce simp: accepts_leaf)
  have en: "\<exists>b. optional_as d ''enabled'' dflt (as_bool lib) = Inr b" for dflt
    using sub(2) by (auto simp: d optional_as_def accepts_leaf split: option.splits)
  have mt: "\<exists>mt. optional_as d ''match'' None (as_optional (Match_as lib)) = Inr mt \<and>
      (case mt of None \<Rightarrow> True | Some m \<Rightarrow> expr m \<noteq> [])"
  proof (cases "fmlookup m ''match''")
    case (Some v)
    then obtain x where "Match_as lib v = Inr x" "expr x \<noteq> []"
      using sub(4) match_converts by blast
    then show ?thesis
      by (auto simp: d Some optional_as_def as_optional_def)
  qed (simp add: d optional_as_def)
  obtain b where "optional_as d ''enabled'' (enabled default_Rule) (as_bool lib) = Inr b"
    using en by blast
  then show ?thesis
    using n ph acts mt
    by (auto simp: Rule_as_def d struct_as_def member_as_def json_at_def as_vector_def rule_wf_def
        default_Rule_def)
qed

lemma rules_convert:
  assumes "\<forall>x\<in>set xs. accepts rx rule_item_schema x"
  shows "\<exists>rs. try_map (Rule_as lib) xs = Inr rs \<and> list_all rule_wf rs"
  using assms by (induction xs) (auto dest!: rule_converts)

lemma http_converts:
  assumes "accepts rx config_schema d"
  shows "\<exists>hc. HttpConfig_as lib d = Inr hc \<and> http_wf hc"
proof -
  from assms obtain m where d: "d = JsonObject m"
      and sub: "\<And>v. fmlookup m ''rules'' = Some v \<Longrightarrow> accepts rx rules_schema v"
    by (auto simp del: accepts.simps simp: config_schema_def accepts_object)
  show ?thesis
  proof (cases "fmlookup m ''rules''")
    case (Some v)
    then obtain xs rs where "v = JsonArray xs" "try_map (Rule_as lib) xs = Inr rs" "list_all rule_wf rs"
      using sub rules_convert by (fastforce simp: accepts_leaf)
    then show ?thesis
      by (simp add: HttpConfig_as_def d Some trait_defs http_wf_def)
  qed (simp add: HttpConfig_as_def d trait_defs http_wf_def)
qed

lemma config_converts:
  assumes "accepts rx rule_schema d"
  shows "\<exists>c. Config_as lib d = Inr c \<and> config_wf c"
proof -
  from assms obtain m where d: "d = JsonObject m" and req: "fmlookup m ''version'' \<noteq> None"
      and sub: "\<And>v. fmlookup m ''$schema'' = Some v \<Longrightarrow> accepts rx schema_uri_schema v"
        "\<And>v. fmlookup m ''version'' = Some v \<Longrightarrow> accepts rx version_schema v"
        "\<And>v. fmlookup m ''http'' = Some v \<Longrightarrow> accepts rx config_schema v"
    by (auto simp del: accepts.simps simp: rule_schema_def accepts_object)
  have ver: "fmlookup m ''version'' = Some (JsonInteger 1)" "as_int lib (JsonInteger 1) = Inr 1"
    using req sub(2) by (auto simp: accepts_leaf intro: as_int_law)
  obtain u where u: "optional_as d ''$schema'' None (as_optional (as_string lib)) = Inr u"
    using sub(1) by (fastforce simp: d optional_as_def as_optional_def accepts_leaf split: option.splits)
  have "\<exists>hc. optional_as d ''http'' None (as_optional (HttpConfig_as lib)) = Inr hc \<and>
      (case hc of None \<Rightarrow> True | Some x \<Rightarrow> http_wf x)"
  proof (cases "fmlookup m ''http''")
    case (Some v)
    then obtain x where "HttpConfig_as lib v = Inr x" "http_wf x"
      using sub(3) http_converts by blast
    then show ?thesis
      by (auto simp: d Some optional_as_def as_optional_def)
  qed (simp add: d optional_as_def)
  then show ?thesis
    using ver u
    by (auto simp: Config_as_def d struct_as_def member_as_def json_at_def config_wf_def
        default_Config_def kRulesSchemaVersion_def)
qed

lemma action_json_accepted:
  assumes "action_wf a"
  shows "accepts rx action_schema (action_json a) \<and> Action_as lib (action_json a) = Inr a"
proof (cases "data a")
  case (NameData d)
  with assms have "a = \<lparr>op = OpRemove, action_target = TargetHeader, data = NameData d\<rparr>" "is_token (hn_name d)"
    by (simp_all add: action_wf_def action_name_def)
  then show ?thesis
    unfolding action_json_def
    by (auto simp del: accepts.simps simp: accepts_action headerName_schema_def accepts_object accepts_leaf
        data_json_def json_name_def op_json_names_def target_json_names_def
        Action_as_def HeaderNameData_as_def trait_defs)
next
  case (NameValueData d)
  with assms have a: "a = \<lparr>op = op a, action_target = TargetHeader, data = NameValueData d\<rparr>"
      and ok: "op a \<in> {OpSet, OpAdd, OpReplace}" "is_token (hnv_name d)"
    by (simp_all add: action_wf_def action_name_def)
  show ?thesis
    using ok unfolding action_json_def
    by (subst (1 2 3 4 5 6 7) a) (auto simp del: accepts.simps simp: accepts_action headerNameValue_schema_def accepts_object accepts_leaf
        data_json_def json_name_def op_json_names_def target_json_names_def
        Action_as_def HeaderNameValueData_as_def trait_defs)
qed

lemma rule_json_accepted:
  assumes "rule_wf r"
  shows "accepts rx rule_item_schema (rule_json r) \<and> Rule_as lib (rule_json r) = Inr r"
proof -
  have acts: "try_map (Action_as lib) (map action_json xs) = Inr xs" if "list_all action_wf xs" for xs
    using that by (induction xs) (simp_all add: action_json_accepted)
  have ph: "phase r = PhaseRequest \<or> phase r = PhaseResponse"
    using assms by (cases "phase r") (simp_all add: rule_wf_def)
  show ?thesis
    using assms ph
    by (auto simp del: accepts.simps simp: rule_wf_def rule_item_schema_def accepts_object accepts_leaf
        rule_json_def json_name_def phase_json_names_def match_schema_def list_all_iff
        action_json_accepted acts Rule_as_def Match_as_def trait_defs default_Rule_def
        split: option.splits if_splits intro!: Rule.equality)
qed

lemma http_json_accepted:
  assumes "http_wf hc"
  shows "accepts rx config_schema (http_json hc) \<and> HttpConfig_as lib (http_json hc) = Inr hc"
proof -
  have rs: "try_map (Rule_as lib) (map rule_json xs) = Inr xs" if "list_all rule_wf xs" for xs
    using that by (induction xs) (simp_all add: rule_json_accepted)
  show ?thesis
    using assms
    by (auto simp del: accepts.simps simp: http_wf_def config_schema_def accepts_object accepts_leaf
        http_json_def list_all_iff rule_json_accepted rs HttpConfig_as_def trait_defs
        split: option.splits if_splits intro!: HttpConfig.equality)
qed

lemma config_json_accepted:
  assumes "config_wf c"
  shows "accepts rx rule_schema (config_json c) \<and> Config_as lib (config_json c) = Inr c"
proof -
  have "as_int lib (JsonInteger 1) = Inr 1"
    by (rule as_int_law) simp_all
  moreover have "http_json hc \<noteq> JsonNull" for hc
    by (simp add: http_json_def)
  ultimately show ?thesis
    using assms
    by (auto simp del: accepts.simps simp: config_wf_def kRulesSchemaVersion_def rule_schema_def accepts_object
        accepts_leaf config_json_def http_json_accepted Config_as_def trait_defs default_Config_def
        split: option.splits if_splits intro!: Config.equality)
qed

lemma validation_verdict:
  "ValidateJsonBySchema lib kRuleSchema content =
     (case json_parse lib content of
        Inl e \<Rightarrow> Inr (Inl (common_error JsonParseFailed (''invalid rule file JSON: '' @ exn_text e)))
      | Inr d \<Rightarrow> (case validate lib rule_schema d of
          None \<Rightarrow> Inr (Inr ())
        | Some e \<Rightarrow> Inr (Inl (common_error JsonSchemaValidationFailed (''schema validation failed: '' @ exn_text e)))))"
proof -
  have "CheckJsonSchemaVersion sj = Inr ()"
    using schema_declares
    by (cases sj) (simp_all add: CheckJsonSchemaVersion_def IsSupportedJsonSchemaVersion_def)
  then show ?thesis
    using parse_throws [of content] validate_throws [of rule_schema]
    by (fastforce simp: ValidateJsonBySchema_def schema_parses compile_and_validate_def schema_compiles
        split: sum.splits option.splits)
qed

lemma load_verdict:
  assumes "fs p = Some content" and "ojson_parse lib content = json_parse lib content"
  shows "LoadRulesFromFile lib kRuleSchema fs p =
     (case json_parse lib content of
        Inl e \<Rightarrow> Inr (Inl (common_error JsonParseFailed (''invalid rule file JSON: '' @ exn_text e)))
      | Inr d \<Rightarrow>
          if accepts rx rule_schema d then map_sum id Inr (Config_as lib d)
          else Inr (Inl (common_error JsonSchemaValidationFailed
            (''schema validation failed: '' @ exn_text (the (validate lib rule_schema d))))))"
proof (cases "json_parse lib content")
  case (Inr d)
  then show ?thesis
    using assms config_converts [of d]
    by (auto simp: LoadRulesFromFile_def ReadTextFile_def validation_verdict validate_iff [symmetric]
        ParseJson_def Convert_def split: option.splits)
qed (simp add: LoadRulesFromFile_def ReadTextFile_def validation_verdict assms)

end

section \<open>A library that obeys the laws\<close>

text \<open>
  The parser knows the schema's text and the documents it is given; the rest does what the
  standard says.
\<close>

definition example_rx :: "string \<Rightarrow> string \<Rightarrow> bool" where
  "example_rx p s \<longleftrightarrow> (if p = header_name_pattern then is_token s else True)"

definition schema_document :: json where
  "schema_document = obj [(''$schema'', JsonString kJsonSchemaDraft202012)]"

definition enum_as :: "('e \<times> string) list \<Rightarrow> json \<Rightarrow> json_exn + 'e" where
  "enum_as names d = (case d of
     JsonString n \<Rightarrow> (case map_of (map prod.swap names) n of
       Some e \<Rightarrow> Inr e | None \<Rightarrow> Inl (ConvError ''not an enumerator''))
   | _ \<Rightarrow> Inl (ConvError ''not a string''))"

definition example_lib :: "(string \<Rightarrow> json option) \<Rightarrow> jsoncons" where
  "example_lib docs =
     (let parse = (\<lambda>t. if t = ''schema'' then Inr schema_document
        else case docs t of None \<Rightarrow> Inl (SerError ''syntax error'') | Some d \<Rightarrow> Inr d) in
      \<lparr>json_parse = parse, ojson_parse = parse,
       make_json_schema = (\<lambda>d. if d = schema_document then Inr rule_schema else Inl (SchemaError ''unknown'')),
       validate = (\<lambda>S d. if accepts example_rx S d then None else Some (ValidationError ''mismatch'')),
       as_string = (\<lambda>d. case d of JsonString s \<Rightarrow> Inr s | _ \<Rightarrow> Inl (ConvError ''not a string'')),
       as_bool = (\<lambda>d. case d of JsonBool b \<Rightarrow> Inr b | _ \<Rightarrow> Inl (ConvError ''not a bool'')),
       as_int = (\<lambda>d. case d of JsonInteger i \<Rightarrow> Inr i | _ \<Rightarrow> Inl (ConvError ''not an integer'')),
       as_Op = enum_as op_json_names, as_Phase = enum_as phase_json_names,
       as_Target = enum_as target_json_names,
       key_not_found = (\<lambda>k. ''Key not found: '' @ k), not_an_object = ''Not an object'',
       not_a = (\<lambda>t. ''Not a '' @ t)\<rparr>)"

interpretation example: jsoncons_laws "example_lib docs" example_rx "''schema''" schema_document for docs
  by unfold_locales
    (auto simp: example_lib_def Let_def schema_document_def example_rx_def enum_as_def op_json_names_def
      phase_json_names_def target_json_names_def split: option.splits if_splits)

lemma example_parse [simp]:
  "ojson_parse (example_lib docs) t = json_parse (example_lib docs) t"
  "docs t = Some d \<Longrightarrow> t \<noteq> ''schema'' \<Longrightarrow> json_parse (example_lib docs) t = Inr d"
  by (simp_all add: example_lib_def Let_def)

definition example_action :: Action where
  "example_action = \<lparr>op = OpSet, action_target = TargetHeader,
     data = NameValueData \<lparr>hnv_name = ''X-Via'', hnv_value = ''proxy''\<rparr>\<rparr>"

definition example_config :: Config where
  "example_config = \<lparr>schema = None, cfg_version = 1, http = Some \<lparr>rules = Some
     [\<lparr>name = ''r'', enabled = True, phase = PhaseRequest, match = Some \<lparr>expr = ''true''\<rparr>,
       actions = [example_action]\<rparr>]\<rparr>\<rparr>"

lemma example_config_wf: "config_wf example_config"
  by (simp add: example_config_def example_action_def config_wf_def kRulesSchemaVersion_def http_wf_def
      rule_wf_def action_wf_def action_name_def is_token_def is_tchar_def less_eq_char_def)

abbreviation example_docs :: "string \<Rightarrow> json option" where
  "example_docs \<equiv> [''rules'' \<mapsto> config_json example_config]"

abbreviation example_files :: files where
  "example_files \<equiv> [''rules.json'' \<mapsto> ''rules'']"

lemma example_rules_parse: "json_parse (example_lib example_docs) ''rules'' = Inr (config_json example_config)"
  by (rule example_parse) simp_all

section \<open>Properties\<close>

text \<open>
  C15. Loading is sound and complete for the schema: a rule file whose text both parsers read
  alike is loaded exactly when its document satisfies the schema, so the conversion never
  fails after the validation, and what comes out is well formed: the version is the supported
  one, every rule has a name, a phase and at least one action, a match expression is not
  empty, and every action targets a header whose name is a token, with the data its operation
  needs.
\<close>

theorem LoadRulesFromFile_correct:
  assumes "jsoncons_laws lib rx kRuleSchema sj"
    and "fs p = Some content" and "ojson_parse lib content = json_parse lib content"
  shows "((\<exists>cfg. LoadRulesFromFile lib kRuleSchema fs p = Inr (Inr cfg)) \<longleftrightarrow>
      (\<exists>d. json_parse lib content = Inr d \<and> accepts rx rule_schema d)) \<and>
    (\<forall>cfg. LoadRulesFromFile lib kRuleSchema fs p = Inr (Inr cfg) \<longrightarrow> config_wf cfg)"
proof -
  note load = jsoncons_laws.load_verdict [where fs = fs and p = p, OF assms]
  show ?thesis
    using jsoncons_laws.config_converts [OF assms(1)]
    by (fastforce simp: load split: sum.splits if_splits)
qed

theorem LoadRulesFromFile_correct_witness:
  "\<exists>cfg. LoadRulesFromFile (example_lib example_docs) ''schema'' example_files ''rules.json'' = Inr (Inr cfg) \<and>
    config_wf cfg"
proof -
  have "accepts example_rx rule_schema (config_json example_config)"
    using example.config_json_accepted [OF example_config_wf] by blast
  then show ?thesis
    using example_rules_parse LoadRulesFromFile_correct [OF example.jsoncons_laws_axioms, of example_files "''rules.json''" "''rules''" example_docs]
    by auto
qed

text \<open>
  C25. The failures of loading are values, one error code per stage, whatever is in the file:
  a file that cannot be opened gives \<open>InvalidArgument\<close>, a text that is not JSON
  \<open>JsonParseFailed\<close>, a document that breaks the schema \<open>JsonSchemaValidationFailed\<close>, and no
  exception leaves \<open>LoadRulesFromFile\<close>.
\<close>

theorem LoadRulesFromFile_errors:
  assumes "jsoncons_laws lib rx kRuleSchema sj"
    and "\<And>t. ojson_parse lib t = json_parse lib t"
  shows "\<exists>r. LoadRulesFromFile lib kRuleSchema fs p = Inr r \<and>
    (\<forall>e. r = Inl e \<longrightarrow> code e = make_error_code (case fs p of
        None \<Rightarrow> InvalidArgument
      | Some content \<Rightarrow> (case json_parse lib content of
          Inl _ \<Rightarrow> JsonParseFailed | Inr _ \<Rightarrow> JsonSchemaValidationFailed)))"
proof (cases "fs p")
  case None
  then show ?thesis
    by (simp add: LoadRulesFromFile_def ReadTextFile_def)
next
  case (Some content)
  show ?thesis
    using jsoncons_laws.config_converts [OF assms(1)]
    by (fastforce simp: Some jsoncons_laws.load_verdict [where fs = fs and p = p, OF assms(1) Some assms(2)]
        split: sum.splits)
qed

theorem LoadRulesFromFile_errors_witness:
  "\<exists>e. LoadRulesFromFile (example_lib example_docs) ''schema'' example_files ''missing.json'' = Inr (Inl e) \<and>
     code e = make_error_code InvalidArgument"
  using LoadRulesFromFile_errors [OF example.jsoncons_laws_axioms, of example_docs example_files "''missing.json''"]
  by (auto simp: LoadRulesFromFile_def ReadTextFile_def)

text \<open>
  C22. Every well-formed configuration can be written down and is read back: a file with the
  document \<open>config_json c\<close> satisfies the schema and loads to exactly \<open>c\<close>.
\<close>

theorem config_roundtrip:
  assumes "jsoncons_laws lib rx kRuleSchema sj" and "config_wf c"
    and "fs p = Some content" and "json_parse lib content = Inr (config_json c)"
    and "ojson_parse lib content = json_parse lib content"
  shows "LoadRulesFromFile lib kRuleSchema fs p = Inr (Inr c)"
  using jsoncons_laws.config_json_accepted [OF assms(1,2)]
    jsoncons_laws.load_verdict [where fs = fs and p = p, OF assms(1,3,5)] assms(4)
  by simp

theorem config_roundtrip_witness:
  "LoadRulesFromFile (example_lib example_docs) ''schema'' example_files ''rules.json'' = Inr (Inr example_config)"
  using example_rules_parse
  by (intro config_roundtrip [OF example.jsoncons_laws_axioms example_config_wf, of _ _ "''rules''"]) simp_all

end
