(* ===== verification/Cli.thy ===== *)
theory Cli
  imports Proxy_Prelude
begin

text \<open>
  The command line (\<open>app/main.cpp\<close>): the option structures with their member initialisers
  and \<open>ConfigureCli\<close>.

  \<^item> \<open>cli_app\<close> is what \<open>ConfigureCli\<close> tells CLI11: the options with the variables they are
    bound to, their defaults and checks, and the subcommand.
  \<^item> CLI11 is the parameter \<open>cli11\<close>: whether parsing succeeds, and the words it takes for every
    option. \<open>store\<close> writes them into the variables. The locale \<open>cli11_laws\<close> says what is
    documented: after a successful parse every word given for an option passed its check, an
    option bound to a scalar has at most one, and \<open>require_subcommand\<close> is met.
  \<^item> \<open>kName\<close>, \<open>kVersion\<close> and \<open>kGitCommit\<close> come from a header the build generates and are the
    parameter \<open>version_info\<close>.
\<close>

section \<open>Options\<close>

record GlobalOpts =
  log_level_name :: string

record HttpOpts =
  bind_address :: string
  bind_port :: size_t
  ready_file :: path
  rule_file :: path

record SocksOpts =
  socks_bind :: string
  socks_port :: size_t

record AppOpts =
  global_opts :: GlobalOpts
  http_opts :: HttpOpts
  socks_opts :: SocksOpts

definition initial_opts :: AppOpts where
  "initial_opts = \<lparr>global_opts = \<lparr>log_level_name = ''info''\<rparr>,
     http_opts = \<lparr>bind_address = ''127.0.0.1'', bind_port = 3000, ready_file = [], rule_file = []\<rparr>,
     socks_opts = \<lparr>socks_bind = ''127.0.0.1'', socks_port = 3000\<rparr>\<rparr>"

section \<open>What CLI11 is told\<close>

text \<open>The variables options are bound to, and the checks.\<close>

datatype cli_target = Opt_log_level | Opt_bind | Opt_port | Opt_ready_file | Opt_rule_file

datatype cli_check = IsMember "string list" | Range int int | NonexistentPath | ExistingFile

record cli_option =
  co_names :: string
  co_target :: cli_target
  co_help :: string
  co_default :: "string option"
  co_check :: "cli_check option"

record cli_subcommand =
  sc_name :: string
  sc_help :: string
  sc_fallthrough :: bool
  sc_options :: "cli_option list"

record cli_app =
  ca_name :: string
  ca_options :: "cli_option list"
  ca_version_flag :: "string \<times> string"
  ca_subcommands :: "cli_subcommand list"
  ca_require_subcommand :: nat

record CliHandles =
  ch_http :: string
  ch_rule_file_opt :: cli_target

record version_info =
  kName :: string
  kVersion :: string
  kGitCommit :: string

definition add_option :: "string \<Rightarrow> cli_target \<Rightarrow> string \<Rightarrow> cli_option" where
  "add_option names tgt help = \<lparr>co_names = names, co_target = tgt, co_help = help, co_default = None, co_check = None\<rparr>"

definition ConfigureCli :: "version_info \<Rightarrow> AppOpts \<Rightarrow> cli_app \<times> CliHandles" where
  "ConfigureCli ver opts =
     (let log_level_opt = (add_option ''--log-level'' Opt_log_level ''Set log level'')
            \<lparr>co_default := Some (log_level_name (global_opts opts)),
             co_check := Some (IsMember [''trace'', ''debug'', ''info'', ''error'', ''critical'', ''off''])\<rparr>;
          bind_opt = add_option ''-b,--bind'' Opt_bind ''bind address'';
          port_opt = (add_option ''-p,--port'' Opt_port ''bind port'')\<lparr>co_check := Some (Range 0 65535)\<rparr>;
          ready_file_opt = (add_option ''--ready-file'' Opt_ready_file
            ''Path to a file created after proxy++ starts listening'')\<lparr>co_check := Some NonexistentPath\<rparr>;
          rule_file_opt = (add_option ''-r,--rule-file'' Opt_rule_file ''rule file path'')
            \<lparr>co_check := Some ExistingFile\<rparr>;
          http_command = \<lparr>sc_name = ''http'', sc_help = ''start http proxy'', sc_fallthrough = True,
            sc_options = [bind_opt, port_opt, ready_file_opt, rule_file_opt]\<rparr>
      in (\<lparr>ca_name = kName ver, ca_options = [log_level_opt],
           ca_version_flag = (''-V,--version'',
             kName ver @ '' '' @ kVersion ver @ '' ('' @ take 7 (kGitCommit ver) @ '')''),
           ca_subcommands = [http_command], ca_require_subcommand = 1\<rparr>,
         \<lparr>ch_http = sc_name http_command, ch_rule_file_opt = co_target rule_file_opt\<rparr>))"

section \<open>Parsing\<close>

record cli_parsed =
  got_subcommands :: "string list"
  results :: "cli_target \<Rightarrow> string list"

record cli11 =
  cli_parse :: "cli_app \<Rightarrow> string list \<Rightarrow> files \<Rightarrow> int + cli_parsed"
  lexical_cast :: "string \<Rightarrow> int option"
  is_directory :: "path \<Rightarrow> bool"

definition option_count :: "cli_parsed \<Rightarrow> cli_target \<Rightarrow> nat" where
  "option_count parsed t = length (results parsed t)"

definition got_subcommand :: "cli_parsed \<Rightarrow> string \<Rightarrow> bool" where
  "got_subcommand parsed n \<longleftrightarrow> n \<in> set (got_subcommands parsed)"

fun check_ok :: "cli11 \<Rightarrow> files \<Rightarrow> cli_check \<Rightarrow> string \<Rightarrow> bool" where
  "check_ok cli fs (IsMember xs) s \<longleftrightarrow> s \<in> set xs"
| "check_ok cli fs (Range lo hi) s \<longleftrightarrow> (case lexical_cast cli s of None \<Rightarrow> False | Some n \<Rightarrow> lo \<le> n \<and> n \<le> hi)"
| "check_ok cli fs NonexistentPath s \<longleftrightarrow> fs s = None \<and> \<not> is_directory cli s"
| "check_ok cli fs ExistingFile s \<longleftrightarrow> fs s \<noteq> None"

text \<open>The word an option was given, or what stands in its variable.\<close>

definition given :: "cli_parsed \<Rightarrow> cli_target \<Rightarrow> string \<Rightarrow> string" where
  "given parsed t old = (case results parsed t of [] \<Rightarrow> old | s # _ \<Rightarrow> s)"

definition given_size :: "cli11 \<Rightarrow> cli_parsed \<Rightarrow> cli_target \<Rightarrow> size_t \<Rightarrow> size_t" where
  "given_size cli parsed t old = (case results parsed t of [] \<Rightarrow> old | s # _ \<Rightarrow>
     (case lexical_cast cli s of None \<Rightarrow> old | Some n \<Rightarrow> word_of_int n))"

definition store :: "cli11 \<Rightarrow> cli_parsed \<Rightarrow> AppOpts \<Rightarrow> AppOpts" where
  "store cli parsed opts = opts
     \<lparr>global_opts := \<lparr>log_level_name = given parsed Opt_log_level (log_level_name (global_opts opts))\<rparr>,
      http_opts := \<lparr>
        bind_address = given parsed Opt_bind (bind_address (http_opts opts)),
        bind_port = given_size cli parsed Opt_port (bind_port (http_opts opts)),
        ready_file = given parsed Opt_ready_file (ready_file (http_opts opts)),
        rule_file = given parsed Opt_rule_file (rule_file (http_opts opts))\<rparr>\<rparr>"

text \<open>All options of an application, those of its subcommands included.\<close>

definition all_options :: "cli_app \<Rightarrow> cli_option list" where
  "all_options cfg = ca_options cfg @ concat (map sc_options (ca_subcommands cfg))"

locale cli11_laws =
  fixes cli :: cli11
  assumes checked: "cli_parse cli cfg argv fs = Inr parsed \<Longrightarrow> opt \<in> set (all_options cfg) \<Longrightarrow>
      co_check opt = Some chk \<Longrightarrow> s \<in> set (results parsed (co_target opt)) \<Longrightarrow> check_ok cli fs chk s"
    and scalar: "cli_parse cli cfg argv fs = Inr parsed \<Longrightarrow> opt \<in> set (all_options cfg) \<Longrightarrow>
      length (results parsed (co_target opt)) \<le> 1"
    and required: "cli_parse cli cfg argv fs = Inr parsed \<Longrightarrow> 0 < ca_require_subcommand cfg \<Longrightarrow>
      length (got_subcommands parsed) = ca_require_subcommand cfg"
    and declared: "cli_parse cli cfg argv fs = Inr parsed \<Longrightarrow>
      set (got_subcommands parsed) \<subseteq> sc_name ` set (ca_subcommands cfg)"

section \<open>What a parsed command line guarantees\<close>

definition cli_checks :: "(cli_target \<times> cli_check) list" where
  "cli_checks = [(Opt_log_level, IsMember [''trace'', ''debug'', ''info'', ''error'', ''critical'', ''off'']),
     (Opt_port, Range 0 65535), (Opt_ready_file, NonexistentPath), (Opt_rule_file, ExistingFile)]"

lemma ConfigureCli_checks:
  assumes "(t, chk) \<in> set cli_checks"
  shows "\<exists>opt \<in> set (all_options (fst (ConfigureCli ver opts))). co_target opt = t \<and> co_check opt = Some chk"
  using assms by (auto simp: cli_checks_def ConfigureCli_def all_options_def add_option_def Let_def)

lemma ConfigureCli_commands:
  "map sc_name (ca_subcommands (fst (ConfigureCli ver opts))) = [''http'']"
  "ca_require_subcommand (fst (ConfigureCli ver opts)) = 1"
  "snd (ConfigureCli ver opts) = \<lparr>ch_http = ''http'', ch_rule_file_opt = Opt_rule_file\<rparr>"
  by (simp_all add: ConfigureCli_def Let_def add_option_def)

text \<open>The options as the rest of the program may rely on them.\<close>

definition opts_ok :: "cli11 \<Rightarrow> files \<Rightarrow> cli_parsed \<Rightarrow> AppOpts \<Rightarrow> bool" where
  "opts_ok cli fs parsed opts \<longleftrightarrow>
     log_level_name (global_opts opts) \<in> {''trace'', ''debug'', ''info'', ''error'', ''critical'', ''off''} \<and>
     unat (bind_port (http_opts opts)) \<le> 65535 \<and>
     (results parsed Opt_port \<noteq> [] \<longrightarrow>
        lexical_cast cli (last (results parsed Opt_port)) = Some (int (unat (bind_port (http_opts opts))))) \<and>
     (ready_file (http_opts opts) \<noteq> [] \<longrightarrow> fs (ready_file (http_opts opts)) = None) \<and>
     (option_count parsed Opt_rule_file > 0 \<longrightarrow> fs (rule_file (http_opts opts)) \<noteq> None) \<and>
     got_subcommand parsed ''http''"

lemma uint_port: "0 \<le> n \<Longrightarrow> n \<le> 65535 \<Longrightarrow> uint (word_of_int n :: size_t) = n"
  by (simp add: uint_word_of_int)

lemma unat_port: "0 \<le> n \<Longrightarrow> n \<le> 65535 \<Longrightarrow> unat (word_of_int n :: size_t) = nat n"
  by (simp add: unat_eq_nat_uint uint_port)

lemma ucast_port: "unat p \<le> 65535 \<Longrightarrow> unat (ucast (p :: size_t) :: 16 word) = unat p"
  by (simp add: unsigned_ucast_eq take_bit_nat_eq_self)

context cli11_laws
begin

lemma parsed_result:
  assumes "cli_parse cli (fst (ConfigureCli ver opts)) argv fs = Inr parsed"
    and "(t, chk) \<in> set cli_checks" and "results parsed t = s # ss"
  shows "ss = []" "check_ok cli fs chk s"
proof -
  from ConfigureCli_checks [OF assms(2)] obtain opt where
    "opt \<in> set (all_options (fst (ConfigureCli ver opts)))" "co_target opt = t" "co_check opt = Some chk" by blast
  then show "ss = []" "check_ok cli fs chk s"
    using checked [OF assms(1), of opt chk s] scalar [OF assms(1), of opt] assms(3) by simp_all
qed

lemma parsed_http:
  assumes "cli_parse cli (fst (ConfigureCli ver opts)) argv fs = Inr parsed"
  shows "got_subcommands parsed = [''http'']"
proof -
  have "sc_name ` set (ca_subcommands (fst (ConfigureCli ver opts))) = {''http''}"
    using ConfigureCli_commands(1) [of ver opts] by (metis list.set(1,2) list.set_map)
  then have "set (got_subcommands parsed) \<subseteq> {''http''}" "length (got_subcommands parsed) = 1"
    using declared [OF assms] required [OF assms] by (simp_all add: ConfigureCli_commands)
  then show ?thesis
    by (cases "got_subcommands parsed") simp_all
qed

lemma parsed_opts_ok:
  assumes "cli_parse cli (fst (ConfigureCli ver initial_opts)) argv fs = Inr parsed"
  shows "opts_ok cli fs parsed (store cli parsed initial_opts)"
proof -
  note result = parsed_result [OF assms]
  have "log_level_name (global_opts (store cli parsed initial_opts)) \<in>
      {''trace'', ''debug'', ''info'', ''error'', ''critical'', ''off''}"
    using result(2) [of Opt_log_level "IsMember [''trace'', ''debug'', ''info'', ''error'', ''critical'', ''off'']"]
    by (cases "results parsed Opt_log_level") (simp_all add: cli_checks_def store_def given_def initial_opts_def)
  moreover have "unat (bind_port (http_opts (store cli parsed initial_opts))) \<le> 65535 \<and>
      (results parsed Opt_port \<noteq> [] \<longrightarrow> lexical_cast cli (last (results parsed Opt_port)) =
        Some (int (unat (bind_port (http_opts (store cli parsed initial_opts))))))"
    using result [of Opt_port "Range 0 65535"]
    by (cases "results parsed Opt_port") (auto simp: cli_checks_def store_def given_size_def initial_opts_def
        unat_port uint_port split: option.splits)
  moreover have "ready_file (http_opts (store cli parsed initial_opts)) \<noteq> [] \<longrightarrow>
      fs (ready_file (http_opts (store cli parsed initial_opts))) = None"
    using result(2) [of Opt_ready_file NonexistentPath]
    by (cases "results parsed Opt_ready_file") (simp_all add: cli_checks_def store_def given_def initial_opts_def)
  moreover have "option_count parsed Opt_rule_file > 0 \<longrightarrow>
      fs (rule_file (http_opts (store cli parsed initial_opts))) \<noteq> None"
    using result(2) [of Opt_rule_file ExistingFile]
    by (cases "results parsed Opt_rule_file") (auto simp: cli_checks_def store_def given_def option_count_def)
  ultimately show ?thesis
    using parsed_http [OF assms] by (simp add: opts_ok_def got_subcommand_def)
qed

lemma parsed_port:
  assumes "cli_parse cli (fst (ConfigureCli ver initial_opts)) argv fs = Inr parsed"
  shows "int (unat (ucast (bind_port (http_opts (store cli parsed initial_opts))) :: 16 word)) =
    (case results parsed Opt_port of [] \<Rightarrow> 3000 | s # _ \<Rightarrow> the (lexical_cast cli s))"
proof (cases "results parsed Opt_port")
  case Nil
  then show ?thesis
    by (simp add: store_def given_size_def initial_opts_def)
next
  case (Cons s ss)
  with parsed_result(1) [OF assms, of Opt_port "Range 0 65535"] have "ss = []"
    by (simp add: cli_checks_def)
  with Cons parsed_opts_ok [OF assms] have "unat (bind_port (http_opts (store cli parsed initial_opts))) \<le> 65535"
    "lexical_cast cli s = Some (int (unat (bind_port (http_opts (store cli parsed initial_opts)))))"
    unfolding opts_ok_def by simp_all
  then show ?thesis
    using Cons ucast_port by simp
qed

end

section \<open>An instance\<close>

text \<open>A parser of words: an option takes the next word, and the requirements are checked at the end.\<close>

definition mini_base :: cli11 where
  "mini_base = \<lparr>cli_parse = (\<lambda>_ _ _. Inl 0),
     lexical_cast = (\<lambda>s. if s \<noteq> [] \<and> list_all (\<lambda>c. c \<in> set ''0123456789'') s then Some (int (read_decimal 0 s)) else None),
     is_directory = (\<lambda>_. False)\<rparr>"

fun split_names :: "string \<Rightarrow> string \<Rightarrow> string list" where
  "split_names acc [] = [acc]"
| "split_names acc (c # cs) = (if c = CHR '','' then acc # split_names [] cs else split_names (acc @ [c]) cs)"

fun scan :: "cli_app \<Rightarrow> string list \<Rightarrow> cli_parsed \<Rightarrow> cli_parsed option" where
  "scan cfg [] p = Some p"
| "scan cfg (w # ws) p =
     (case find (\<lambda>opt. w \<in> set (split_names [] (co_names opt))) (all_options cfg) of
        Some opt \<Rightarrow> (case ws of [] \<Rightarrow> None | v # vs \<Rightarrow>
          scan cfg vs (p\<lparr>results := (results p)(co_target opt := results p (co_target opt) @ [v])\<rparr>))
      | None \<Rightarrow> if w \<in> sc_name ` set (ca_subcommands cfg)
          then scan cfg ws (p\<lparr>got_subcommands := got_subcommands p @ [w]\<rparr>) else None)"

definition acceptable :: "cli_app \<Rightarrow> files \<Rightarrow> cli_parsed \<Rightarrow> bool" where
  "acceptable cfg fs p \<longleftrightarrow> list_all (\<lambda>opt. length (results p (co_target opt)) \<le> 1 \<and>
       (case co_check opt of None \<Rightarrow> True | Some chk \<Rightarrow>
          list_all (check_ok mini_base fs chk) (results p (co_target opt)))) (all_options cfg) \<and>
     (0 < ca_require_subcommand cfg \<longrightarrow> length (got_subcommands p) = ca_require_subcommand cfg) \<and>
     set (got_subcommands p) \<subseteq> sc_name ` set (ca_subcommands cfg)"

definition mini_cli :: cli11 where
  "mini_cli = mini_base\<lparr>cli_parse := (\<lambda>cfg argv fs. case scan cfg argv \<lparr>got_subcommands = [], results = (\<lambda>_. [])\<rparr> of
     Some p \<Rightarrow> if acceptable cfg fs p then Inr p else Inl 105 | None \<Rightarrow> Inl 109)\<rparr>"

lemma mini_check: "check_ok mini_cli fs chk s = check_ok mini_base fs chk s"
  by (cases chk) (simp_all add: mini_cli_def)

interpretation mini_cli: cli11_laws mini_cli
proof unfold_locales
  fix cfg argv fs parsed
  assume "cli_parse mini_cli cfg argv fs = Inr parsed"
  then have ok: "acceptable cfg fs parsed"
    by (auto simp: mini_cli_def split: option.splits if_splits)
  then show "set (got_subcommands parsed) \<subseteq> sc_name ` set (ca_subcommands cfg)"
    by (simp add: acceptable_def)
  show "length (got_subcommands parsed) = ca_require_subcommand cfg" if "0 < ca_require_subcommand cfg"
    using ok that by (simp add: acceptable_def)
  fix opt
  assume opt: "opt \<in> set (all_options cfg)"
  show "length (results parsed (co_target opt)) \<le> 1"
    using ok opt by (auto simp: acceptable_def list_all_iff)
  show "check_ok mini_cli fs chk s" if "co_check opt = Some chk" "s \<in> set (results parsed (co_target opt))" for chk s
    using ok opt that by (fastforce simp: acceptable_def list_all_iff mini_check)
qed

definition example_version :: version_info where
  "example_version = \<lparr>kName = ''proxy++'', kVersion = ''0.1.0'', kGitCommit = ''0123456789abcdef''\<rparr>"

definition example_argv :: "string list" where
  "example_argv = [''http'', ''-p'', ''8080'', ''--ready-file'', ''ready'', ''--log-level'', ''debug'']"

lemma example_cli_parse:
  assumes "fs ''ready'' = None"
  shows "\<exists>p. cli_parse mini_cli (fst (ConfigureCli example_version initial_opts)) example_argv fs = Inr p \<and>
    got_subcommands p = [''http''] \<and> results p = ((\<lambda>_. [])(Opt_port := [''8080''], Opt_ready_file := [''ready''],
      Opt_log_level := [''debug'']))"
  using assms by (simp add: example_argv_def mini_cli_def mini_base_def acceptable_def ConfigureCli_def add_option_def
      all_options_def Let_def)

end
