(* ===== verification/App_Main.thy ===== *)
theory App_Main
  imports Tcp_Server Rule_File Cli Logging
begin

text \<open>
  The program: \<open>helper::cli::ResolveRuleFilePath\<close> (\<open>helper/cli_helper.cpp\<close>) and
  \<open>app/main.cpp\<close>. \<open>program_main\<close> parses the command line (\<open>Cli\<close>), sets up the loggers
  (\<open>Logging\<close>) and goes on with \<open>app_main\<close>: rule file, rule engine, server, ready file. It
  runs up to \<open>io.run()\<close>, from where the accept loop and the sessions go on; a C++ exception
  that nothing catches ends the program. The file system is a map from paths to contents, with
  the outcomes of opening, writing and renaming as the parameter \<open>disk\<close>.
\<close>

section \<open>The rule file\<close>

definition ResolveRuleFilePath :: "(path \<Rightarrow> path) \<Rightarrow> path \<Rightarrow> nat \<Rightarrow> path \<Rightarrow> path" where
  "ResolveRuleFilePath absolute program_dir count parsed_rule_file =
     (if count > 0 then absolute parsed_rule_file
      else path_append program_dir ''rules.json'')"

section \<open>The ready file\<close>

record disk =
  can_open :: "path \<Rightarrow> bool"
  stream_write :: "path \<Rightarrow> string \<Rightarrow> bool \<times> string"
  rename_error :: "path \<Rightarrow> path \<Rightarrow> string option"

definition quote :: string where
  "quote = [CHR 0x22]"

definition ready_text :: "string \<Rightarrow> 16 word \<Rightarrow> string" where
  "ready_text host p = ''{'' @ [LF] @
     ''  '' @ quote @ ''host'' @ quote @ '': '' @ quote @ host @ quote @ '','' @ [LF] @
     ''  '' @ quote @ ''port'' @ quote @ '': '' @ decimal (unat p) @ [LF] @
     ''}'' @ [LF]"

definition WriteReadyFile :: "disk \<Rightarrow> path \<Rightarrow> string \<Rightarrow> 16 word \<Rightarrow> files \<Rightarrow> unit result \<times> files" where
  "WriteReadyFile dsk ready host p fs =
     (let temporary_file = ready @ ''.tmp'' in
      if \<not> can_open dsk temporary_file then
        (Unexpected (common_error InternalError temporary_file), fs)
      else
        (case stream_write dsk temporary_file (ready_text host p) of (good, written) \<Rightarrow>
           let fs1 = fs(temporary_file \<mapsto> written) in
           if \<not> good then
             (Unexpected (common_error FileOperationFailed
                (''write file '' @ temporary_file @ '' failed'')), fs1)
           else (case rename_error dsk temporary_file ready of
               None \<Rightarrow> (Inr (), fs1(temporary_file := None, ready \<mapsto> written))
             | Some w \<Rightarrow> (Unexpected (common_error InternalError (''rename file failed, '' @ w)), fs1))))"

section \<open>main\<close>

definition LoadRuleConfig :: "jsoncons \<Rightarrow> string \<Rightarrow> files \<Rightarrow> path \<Rightarrow> json_exn + Config result" where
  "LoadRuleConfig lib kRuleSchema fs p = (case LoadRulesFromFile lib kRuleSchema fs p of
     Inl exn \<Rightarrow> Inl exn
   | Inr (Inl err) \<Rightarrow> Inr (Unexpected err)
   | Inr (Inr cfg) \<Rightarrow> Inr (Inr cfg))"

definition InitRuleEngine :: "('h, 'v) quickjs \<Rightarrow> 'h \<Rightarrow> RuleEngine result \<times> 'h" where
  "InitRuleEngine q h = (case RuleEngine_Create q h of
     (Inl err, h1) \<Rightarrow> (Unexpected err, h1)
   | (Inr eng, h1) \<Rightarrow> (Inr eng, h1))"

record ('h, 'v) system =
  json_lib :: jsoncons
  schema_text :: string
  engine_lib :: "('h, 'v) quickjs"
  listener :: acceptor
  storage :: disk
  absolute_path :: "path \<Rightarrow> path"
  exec_dir :: path

datatype app_outcome = ExitFailure | Terminated | Serving "TcpServer option"

text \<open>The branch of the \<open>http\<close> command.\<close>

definition start_http ::
    "('h, 'v) system \<Rightarrow> HttpOpts \<Rightarrow> HttpConfig option \<Rightarrow> RuleEngine \<Rightarrow> files \<Rightarrow> app_outcome \<times> files" where
  "start_http sys ho cfg eng fs =
     (case Start (listener sys) (new_TcpServer
         \<lparr>address = bind_address ho, port = bind_port ho, http_rule_config = cfg, rule_engine = eng\<rparr>) of
        Inl ex \<Rightarrow> (Terminated, fs)
      | Inr (Inl err, srv) \<Rightarrow> (ExitFailure, fs)
      | Inr (Inr ep, srv) \<Rightarrow>
          if ready_file ho \<noteq> [] then
            (case WriteReadyFile (storage sys) (ready_file ho) (le_address ep) (le_port ep) fs of
               (Inl err, fs1) \<Rightarrow> (ExitFailure, fs1)
             | (Inr _, fs1) \<Rightarrow> (Serving (Some srv), fs1))
          else (Serving (Some srv), fs))"

text \<open>\<open>main\<close> from the point where the command line is parsed and the loggers are set up.\<close>

definition app_main ::
    "('h, 'v) system \<Rightarrow> CliHandles \<Rightarrow> cli_parsed \<Rightarrow> AppOpts \<Rightarrow> files \<Rightarrow> 'h \<Rightarrow> app_outcome \<times> files \<times> 'h" where
  "app_main sys cli_handlers parsed opts fs h =
     (let rule_file_path = ResolveRuleFilePath (absolute_path sys) (exec_dir sys)
            (option_count parsed (ch_rule_file_opt cli_handlers)) (rule_file (http_opts opts)) in
      case LoadRuleConfig (json_lib sys) (schema_text sys) fs rule_file_path of
        Inl exn \<Rightarrow> (Terminated, fs, h)
      | Inr (Inl err) \<Rightarrow> (ExitFailure, fs, h)
      | Inr (Inr rule_config) \<Rightarrow>
     (case InitRuleEngine (engine_lib sys) h of
        (Inl err, h1) \<Rightarrow> (ExitFailure, fs, h1)
      | (Inr eng, h1) \<Rightarrow>
          if got_subcommand parsed (ch_http cli_handlers) then
            (case start_http sys (http_opts opts) (http rule_config) eng fs of (out, fs1) \<Rightarrow> (out, fs1, h1))
          else (Serving None, fs, h1)))"

text \<open>
  The whole of \<open>main\<close>: a command line that does not parse ends it with the exit code of
  CLI11, an exception of the log set-up is not caught.
\<close>

datatype program_outcome = ExitWith int | Ran app_outcome

definition log_setup ::
    "('lh, 'ls, 'l) spdlog \<Rightarrow> AppOpts \<Rightarrow> ('lh, 'l) log_state \<Rightarrow> (log_exn + 'l option) \<times> ('lh, 'l) log_state" where
  "log_setup log opts st =
     try_then (Init log ''./logs'' st) (\<lambda>_ st1.
     try_then (SetAllLevels log (level_from_str log (log_level_name (global_opts opts))) st1) (\<lambda>_.
       Get log Module_app))"

definition program_main ::
    "('h, 'v) system \<Rightarrow> cli11 \<Rightarrow> version_info \<Rightarrow> ('lh, 'ls, 'l) spdlog \<Rightarrow> string list \<Rightarrow> files \<Rightarrow> 'h \<Rightarrow> ('lh, 'l) log_state \<Rightarrow>
     program_outcome \<times> files \<times> 'h \<times> ('lh, 'l) log_state" where
  "program_main sys cli ver log argv fs h st =
     (let (cfg, cli_handlers) = ConfigureCli ver initial_opts in
      case cli_parse cli cfg argv fs of
        Inl exit_code \<Rightarrow> (ExitWith exit_code, fs, h, st)
      | Inr parsed \<Rightarrow>
     (let opts = store cli parsed initial_opts in
      case log_setup log opts st of
        (Inl exn, st1) \<Rightarrow> (Ran Terminated, fs, h, st1)
      | (Inr app_logger, st1) \<Rightarrow>
          (case app_main sys cli_handlers parsed opts fs h of (out, fs1, h1) \<Rightarrow> (Ran out, fs1, h1, st1))))"

section \<open>Properties\<close>

text \<open>
  What is documented of streams: a stream still good after its flush wrote everything.
\<close>

definition faithful_disk :: "disk \<Rightarrow> bool" where
  "faithful_disk dsk \<longleftrightarrow> (\<forall>p c w. stream_write dsk p c = (True, w) \<longrightarrow> w = c)"

definition good_disk :: disk where
  "good_disk = \<lparr>can_open = (\<lambda>_. True), stream_write = (\<lambda>_ c. (True, c)), rename_error = (\<lambda>_ _. None)\<rparr>"

lemma WriteReadyFile_written:
  assumes "faithful_disk dsk" and "WriteReadyFile dsk ready host p fs = (Inr (), fs')"
  shows "fs' ready = Some (ready_text host p) \<and> fs' (ready @ ''.tmp'') = None"
  using assms by (auto simp: WriteReadyFile_def Let_def faithful_disk_def split: prod.splits if_splits option.splits)

lemma loaded_config_wf:
  assumes "jsoncons_laws lib rx schm sj" and "\<And>t. ojson_parse lib t = json_parse lib t"
    and "LoadRulesFromFile lib schm fs p = Inr (Inr cfg)"
  shows "config_wf cfg"
proof -
  from assms(3) obtain content where c: "fs p = Some content"
    by (cases "fs p") (auto simp: LoadRulesFromFile_def ReadTextFile_def)
  from jsoncons_laws.load_verdict [where fs = fs and p = p, OF assms(1) c assms(2)] assms(3)
    jsoncons_laws.config_converts [OF assms(1)]
  show ?thesis by (fastforce split: sum.splits if_splits)
qed



definition example_system :: "(jsheap, jsval) system" where
  "example_system = \<lparr>json_lib = example_lib example_docs, schema_text = ''schema'', engine_lib = example_js,
     listener = example_acceptor, storage = good_disk, absolute_path = (\<lambda>p. path_append ''/home'' p),
     exec_dir = ''/opt''\<rparr>"

definition example_opts :: AppOpts where
  "example_opts = initial_opts\<lparr>http_opts := (http_opts initial_opts)\<lparr>ready_file := ''ready''\<rparr>\<rparr>"

definition example_handles :: CliHandles where
  "example_handles = \<lparr>ch_http = ''http'', ch_rule_file_opt = Opt_rule_file\<rparr>"

definition example_parsed :: cli_parsed where
  "example_parsed = \<lparr>got_subcommands = [''http''], results = (\<lambda>_. [])(Opt_ready_file := [''ready''])\<rparr>"

definition example_disk :: files where
  "example_disk = [''/opt/rules.json'' \<mapsto> ''rules'']"

lemma example_load:
  "LoadRuleConfig (example_lib example_docs) ''schema'' example_disk ''/opt/rules.json'' = Inr (Inr example_config)"
proof -
  have "example_disk ''/opt/rules.json'' = Some ''rules''"
    by (simp add: example_disk_def)
  then show ?thesis
    using example.load_verdict [of example_disk "''/opt/rules.json''" "''rules''" example_docs]
      example.config_json_accepted [OF example_config_wf] example_rules_parse
    by (simp add: LoadRuleConfig_def)
qed

lemma example_app:
  "\<exists>srv fs' h'. app_main example_system example_handles example_parsed example_opts example_disk example_heap = (Serving (Some srv), fs', h') \<and>
    http_rule_config (options srv) = http example_config \<and> accept_log srv = [] \<and> sessions srv = []"
proof -
  have "ResolveRuleFilePath (absolute_path example_system) (exec_dir example_system)
      (option_count example_parsed (ch_rule_file_opt example_handles)) (rule_file (http_opts example_opts)) = ''/opt/rules.json''"
    by (simp add: ResolveRuleFilePath_def path_append_def example_system_def option_count_def
        example_parsed_def example_handles_def)
  moreover obtain eng h1 where "InitRuleEngine example_js example_heap = (Inr eng, h1)"
    by (simp add: InitRuleEngine_def RuleEngine_Create_def Runtime_Create_def mini_js_def split: prod.splits)
  ultimately show ?thesis
    by (simp add: app_main_def Let_def example_load start_http_def start_defs WriteReadyFile_def good_disk_def
        example_system_def example_opts_def example_acceptor_def initial_opts_def got_subcommand_def
        example_parsed_def example_handles_def)
qed

lemma app_main_Serving:
  assumes "app_main sys hs parsed opts fs h = (Serving (Some srv), fs', h')"
  shows "\<exists>cfg eng ep. LoadRulesFromFile (json_lib sys) (schema_text sys) fs
      (ResolveRuleFilePath (absolute_path sys) (exec_dir sys)
        (option_count parsed (ch_rule_file_opt hs)) (rule_file (http_opts opts))) = Inr (Inr cfg) \<and>
    Start (listener sys) (new_TcpServer \<lparr>address = bind_address (http_opts opts), port = bind_port (http_opts opts),
      http_rule_config = http cfg, rule_engine = eng\<rparr>) = Inr (Inr ep, srv) \<and>
    (ready_file (http_opts opts) \<noteq> [] \<longrightarrow>
       WriteReadyFile (storage sys) (ready_file (http_opts opts)) (le_address ep) (le_port ep) fs = (Inr (), fs'))"
  using assms
  by (fastforce simp: app_main_def LoadRuleConfig_def InitRuleEngine_def start_http_def Let_def
      split: sum.splits prod.splits if_splits)

text \<open>
  C28. A program that is serving has done everything its start promises: the rule file, the one
  named on the command line or else the one beside the executable, was read, valid and converted to a well-formed configuration, the server is listening with
  exactly those rules, and a requested ready file names the address and port the server is
  really bound to.
\<close>

theorem app_main_serving:
  assumes "jsoncons_laws (json_lib sys) rx (schema_text sys) sj"
    and "\<And>t. ojson_parse (json_lib sys) t = json_parse (json_lib sys) t" and "faithful_disk (storage sys)"
    and "app_main sys hs parsed opts fs h = (Serving (Some srv), fs', h')"
  shows "\<exists>cfg a bound.
    LoadRulesFromFile (json_lib sys) (schema_text sys) fs
      (if option_count parsed (ch_rule_file_opt hs) > 0 then absolute_path sys (rule_file (http_opts opts))
       else path_append (exec_dir sys) ''rules.json'') = Inr (Inr cfg) \<and> config_wf cfg \<and>
    http_rule_config (options srv) = http cfg \<and>
    acceptor_calls srv = [CallOpen, CallReuseAddress, CallBind, CallListen, SpawnAcceptLoop] \<and>
    make_address (listener sys) (bind_address (http_opts opts)) = Inr a \<and>
    local_endpoint (listener sys) \<lparr>le_address = a, le_port = ucast (bind_port (http_opts opts))\<rparr> = Inr bound \<and>
    (ready_file (http_opts opts) \<noteq> [] \<longrightarrow>
       fs' (ready_file (http_opts opts)) = Some (ready_text (le_address bound) (le_port bound)))"
proof -
  from app_main_Serving [OF assms(4)] obtain cfg eng bound where
      load: "LoadRulesFromFile (json_lib sys) (schema_text sys) fs
        (ResolveRuleFilePath (absolute_path sys) (exec_dir sys)
        (option_count parsed (ch_rule_file_opt hs)) (rule_file (http_opts opts))) = Inr (Inr cfg)"
      and start: "Start (listener sys) (new_TcpServer \<lparr>address = bind_address (http_opts opts),
        port = bind_port (http_opts opts), http_rule_config = http cfg, rule_engine = eng\<rparr>) = Inr (Inr bound, srv)"
      and ready: "ready_file (http_opts opts) \<noteq> [] \<Longrightarrow>
        WriteReadyFile (storage sys) (ready_file (http_opts opts)) (le_address bound) (le_port bound) fs = (Inr (), fs')"
    by blast
  have "config_wf cfg"
    using loaded_config_wf [OF assms(1,2) load] .
  then show ?thesis
    using load start Start_listening [OF start] Start_server(3) [OF start]
      WriteReadyFile_written [OF assms(3) ready] by (auto simp: ResolveRuleFilePath_def)
qed

theorem app_main_serving_witness:
  "\<exists>srv fs' h'. app_main example_system example_handles example_parsed example_opts example_disk example_heap = (Serving (Some srv), fs', h') \<and>
    fs' ''ready'' = Some (ready_text ''127.0.0.1'' 3000)"
proof -
  obtain srv fs' h' where r:
      "app_main example_system example_handles example_parsed example_opts example_disk example_heap = (Serving (Some srv), fs', h')"
    using example_app by blast
  have laws: "jsoncons_laws (json_lib example_system) example_rx (schema_text example_system) schema_document"
    "faithful_disk (storage example_system)"
    using example.jsoncons_laws_axioms [of example_docs]
    by (simp_all add: example_system_def faithful_disk_def good_disk_def)
  have "ojson_parse (json_lib example_system) t = json_parse (json_lib example_system) t" for t
    by (simp add: example_system_def)
  from app_main_serving [OF laws(1) this laws(2) r] r show ?thesis
    by (auto simp: example_system_def example_opts_def initial_opts_def example_acceptor_def)
qed

text \<open>
  A program that fails to start announces nothing: when it exits or is terminated, the
  ready file is as it was before, and no other file but its temporary has changed.
\<close>

theorem app_main_failure:
  assumes "app_main sys hs parsed opts fs h = (out, fs', h')" and "\<And>srv. out \<noteq> Serving srv"
    and "q \<noteq> ready_file (http_opts opts) @ ''.tmp''"
  shows "fs' q = fs q"
  using assms
  by (auto simp: app_main_def start_http_def Let_def WriteReadyFile_def
      split: sum.splits prod.splits if_splits option.splits)

theorem app_main_failure_witness:
  "\<exists>fs' h'. app_main example_system example_handles example_parsed example_opts (\<lambda>_. None) example_heap = (ExitFailure, fs', h') \<and>
    fs' ''ready'' = None"
proof -
  obtain fs' h' where r: "app_main example_system example_handles example_parsed example_opts (\<lambda>_. None) example_heap = (ExitFailure, fs', h')"
    by (simp add: app_main_def Let_def LoadRuleConfig_def LoadRulesFromFile_def ReadTextFile_def)
  have "fs' ''ready'' = None"
    using app_main_failure [OF r, of "''ready''"] by (simp add: example_opts_def)
  with r show ?thesis by blast
qed

section \<open>The command line\<close>

lemma program_main_Serving:
  assumes "program_main sys cli ver log argv fs h st = (Ran (Serving srvo), fs', h', st')"
  obtains parsed lg where "cli_parse cli (fst (ConfigureCli ver initial_opts)) argv fs = Inr parsed"
    "log_setup log (store cli parsed initial_opts) st = (Inr lg, st')"
    "app_main sys \<lparr>ch_http = ''http'', ch_rule_file_opt = Opt_rule_file\<rparr> parsed (store cli parsed initial_opts) fs h =
      (Serving srvo, fs', h')"
  using assms ConfigureCli_commands(3) [of ver initial_opts]
  by (auto simp: program_main_def Let_def split: prod.splits sum.splits)

lemma app_main_http:
  assumes "app_main sys hs parsed opts fs h = (Serving srvo, fs', h')" and "got_subcommand parsed (ch_http hs)"
  shows "\<exists>srv. srvo = Some srv"
  using assms by (auto simp: app_main_def start_http_def Let_def split: sum.splits prod.splits if_splits)

lemma log_setup_ready:
  assumes "spdlog_laws log look sink_at" and "log_ready look sink_at st (\<lambda>_. Info) c (\<lambda>_. [])" and "\<not> init_flag st"
    and "log_setup log opts st = (Inr lg, st')"
  shows "\<exists>console fsink. log_ready look sink_at st'
    (\<lambda>_. level_from_str log (log_level_name (global_opts opts))) console (\<lambda>m. [fsink m])"
proof -
  from assms(4) obtain st1 st2 where i: "Init log ''./logs'' st = (Inr (), st1)"
    and s: "SetAllLevels log (level_from_str log (log_level_name (global_opts opts))) st1 = (Inr (), st2)"
    and g: "Get log Module_app st2 = (Inr lg, st')"
    unfolding log_setup_def by (auto elim!: try_then_Inr)
  from spdlog_laws.Init_ready [OF assms(1) i assms(3) disjI2, OF assms(2)] obtain console fsink where
    "log_ready look sink_at st1 (\<lambda>_. Info) console (\<lambda>m. [fsink m])" by blast
  from spdlog_laws.SetAllLevels_ready [OF assms(1) this] s have
    r: "log_ready look sink_at st2 (\<lambda>_. level_from_str log (log_level_name (global_opts opts))) console (\<lambda>m. [fsink m])"
    by (metis Pair_inject)
  with spdlog_laws.Loggers_again [OF assms(1) r] g have "st' = st2"
    by (auto simp: Get_def)
  with r show ?thesis by blast
qed

lemma WriteReadyFile_exists: "WriteReadyFile dsk ready host p fs = (Inr u, fs') \<Longrightarrow> fs' ready \<noteq> None"
  by (auto simp: WriteReadyFile_def Let_def split: prod.splits if_splits option.splits)

lemma app_main_options:
  assumes "app_main sys hs parsed opts fs h = (Serving (Some srv), fs', h')"
  shows "address (options srv) = bind_address (http_opts opts)" "port (options srv) = bind_port (http_opts opts)"
    "ready_file (http_opts opts) \<noteq> [] \<Longrightarrow> fs' (ready_file (http_opts opts)) \<noteq> None"
proof -
  from app_main_Serving [OF assms] obtain cfg :: Config and eng ep where
      start: "Start (listener sys) (new_TcpServer \<lparr>address = bind_address (http_opts opts), port = bind_port (http_opts opts),
        http_rule_config = http cfg, rule_engine = eng\<rparr>) = Inr (Inr ep, srv)"
      and ready: "ready_file (http_opts opts) \<noteq> [] \<longrightarrow>
        WriteReadyFile (storage sys) (ready_file (http_opts opts)) (le_address ep) (le_port ep) fs = (Inr (), fs')"
    by (elim exE conjE) (rule that)
  from Start_server(3) [OF start] show "address (options srv) = bind_address (http_opts opts)"
    "port (options srv) = bind_port (http_opts opts)" by simp_all
  show "ready_file (http_opts opts) \<noteq> [] \<Longrightarrow> fs' (ready_file (http_opts opts)) \<noteq> None"
    using WriteReadyFile_exists ready by blast
qed

text \<open>
  C29. The program does what its command line says: a program that serves runs the HTTP
  proxy, bound to the address given (or the default) and to exactly the port given, which
  survives the conversions to \<open>std::size_t\<close> and to the 16 bits of a port (or to 3000); a
  ready file that was asked for did not exist before and does now; and every logger has the
  level that was asked for.
\<close>

theorem command_line_is_obeyed:
  assumes "cli11_laws cli" and "spdlog_laws log look sink_at"
    and "log_ready look sink_at st (\<lambda>_. Info) c (\<lambda>_. [])" and "\<not> init_flag st"
    and "program_main sys cli ver log argv fs h st = (Ran (Serving srvo), fs', h', st')"
  shows "\<exists>parsed srv console fsink. cli_parse cli (fst (ConfigureCli ver initial_opts)) argv fs = Inr parsed \<and>
    srvo = Some srv \<and> address (options srv) = given parsed Opt_bind ''127.0.0.1'' \<and>
    int (unat (ucast (port (options srv)) :: 16 word)) =
      (case results parsed Opt_port of [] \<Rightarrow> 3000 | s # _ \<Rightarrow> the (lexical_cast cli s)) \<and>
    (given parsed Opt_ready_file [] \<noteq> [] \<longrightarrow>
       fs (given parsed Opt_ready_file []) = None \<and> fs' (given parsed Opt_ready_file []) \<noteq> None) \<and>
    log_ready look sink_at st' (\<lambda>_. level_from_str log (given parsed Opt_log_level ''info'')) console (\<lambda>m. [fsink m])"
proof -
  from program_main_Serving [OF assms(5)] obtain parsed lg where
      p: "cli_parse cli (fst (ConfigureCli ver initial_opts)) argv fs = Inr parsed"
      and l: "log_setup log (store cli parsed initial_opts) st = (Inr lg, st')"
      and a: "app_main sys \<lparr>ch_http = ''http'', ch_rule_file_opt = Opt_rule_file\<rparr> parsed (store cli parsed initial_opts) fs h =
        (Serving srvo, fs', h')" .
  define opts where "opts = store cli parsed initial_opts"
  note ok = cli11_laws.parsed_opts_ok [OF assms(1) p]
  from app_main_http [OF a] ok obtain srv where srv: "srvo = Some srv"
    by (auto simp: opts_ok_def)
  note o = app_main_options [OF a [unfolded srv], folded opts_def]
  from log_setup_ready [OF assms(2-4) l] obtain console fsink where
    "log_ready look sink_at st' (\<lambda>_. level_from_str log (given parsed Opt_log_level ''info'')) console (\<lambda>m. [fsink m])"
    by (auto simp: store_def initial_opts_def)
  moreover have "int (unat (ucast (port (options srv)) :: 16 word)) =
      (case results parsed Opt_port of [] \<Rightarrow> 3000 | s # _ \<Rightarrow> the (lexical_cast cli s))"
    using cli11_laws.parsed_port [OF assms(1) p] o(2) by (simp add: opts_def)
  moreover have "address (options srv) = given parsed Opt_bind ''127.0.0.1''"
    using o(1) by (simp add: opts_def store_def initial_opts_def)
  moreover have "given parsed Opt_ready_file [] \<noteq> [] \<longrightarrow>
      fs (given parsed Opt_ready_file []) = None \<and> fs' (given parsed Opt_ready_file []) \<noteq> None"
    using ok o(3) by (simp add: opts_def opts_ok_def store_def initial_opts_def)
  ultimately show ?thesis
    using p srv by blast
qed

lemma example_log_setup:
  "\<exists>st0 lg st1. Get (mini_spdlog (\<lambda>_. False)) Module_core fresh_log = (Inr (Some 1), st0) \<and>
     log_setup (mini_spdlog (\<lambda>_. False)) opts st0 = (Inr lg, st1)"
  by (simp add: log_setup_def log_defs mini_spdlog_def fresh_log_def enum_values_def kModuleCount_def Let_def
      eval_nat_numeral)

lemma example_program:
  assumes "log_setup log (store mini_cli p initial_opts) st0 = (Inr lg, st1)"
    and "cli_parse mini_cli (fst (ConfigureCli example_version initial_opts)) example_argv example_disk = Inr p"
    and "got_subcommands p = [''http'']" and "results p = (\<lambda>_. [])(Opt_port := [''8080''],
      Opt_ready_file := [''ready''], Opt_log_level := [''debug''])"
  shows "\<exists>srv fs' h'. program_main example_system mini_cli example_version log example_argv example_disk example_heap st0 =
    (Ran (Serving (Some srv)), fs', h', st1)"
proof -
  let ?h = "\<lparr>ch_http = ''http'', ch_rule_file_opt = Opt_rule_file\<rparr>"
  have "ResolveRuleFilePath (absolute_path example_system) (exec_dir example_system)
      (option_count p Opt_rule_file) (rule_file (http_opts (store mini_cli p initial_opts))) = ''/opt/rules.json''"
    by (simp add: ResolveRuleFilePath_def path_append_def example_system_def option_count_def assms(4))
  moreover have "bind_address (http_opts (store mini_cli p initial_opts)) = ''127.0.0.1''"
    by (simp add: store_def given_def initial_opts_def assms(4))
  moreover obtain eng h1 where "InitRuleEngine example_js example_heap = (Inr eng, h1)"
    by (simp add: InitRuleEngine_def RuleEngine_Create_def Runtime_Create_def mini_js_def split: prod.splits)
  ultimately have "\<exists>srv fs' h'. app_main example_system ?h p (store mini_cli p initial_opts) example_disk example_heap =
      (Serving (Some srv), fs', h')"
    by (simp add: app_main_def Let_def example_load start_http_def start_defs WriteReadyFile_def good_disk_def
        example_system_def example_acceptor_def got_subcommand_def assms(3))
  with assms(1,2) show ?thesis
    using ConfigureCli_commands(3) [of example_version initial_opts]
    by (auto simp: program_main_def Let_def split: prod.splits)
qed

theorem command_line_is_obeyed_witness:
  "\<exists>st0 srv fs' h' st'. Get (mini_spdlog (\<lambda>_. False)) Module_core fresh_log = (Inr (Some 1), st0) \<and>
    program_main example_system mini_cli example_version (mini_spdlog (\<lambda>_. False)) example_argv example_disk example_heap
      st0 = (Ran (Serving (Some srv)), fs', h', st') \<and>
    int (unat (ucast (port (options srv)) :: 16 word)) = 8080"
proof -
  have "example_disk ''ready'' = None"
    by (simp add: example_disk_def)
  from example_cli_parse [of example_disk, OF this] obtain p where p:
      "cli_parse mini_cli (fst (ConfigureCli example_version initial_opts)) example_argv example_disk = Inr p"
      "got_subcommands p = [''http'']" "results p = (\<lambda>_. [])(Opt_port := [''8080''],
        Opt_ready_file := [''ready''], Opt_log_level := [''debug''])" by auto
  from example_log_setup obtain st0 lg st1 where st0:
      "Get (mini_spdlog (\<lambda>_. False)) Module_core fresh_log = (Inr (Some 1), st0)"
      "log_setup (mini_spdlog (\<lambda>_. False)) (store mini_cli p initial_opts) st0 = (Inr lg, st1)" by blast
  from st0(1) obtain ls where "Loggers (mini_spdlog (\<lambda>_. False)) fresh_log = (Inr ls, st0)"
    by (auto simp: Get_def elim!: try_then_Inr)
  from mini_log.Loggers_ready [OF this] obtain c where c:
      "log_ready mini_look mini_sink st0 (\<lambda>_. Info) c (\<lambda>_. [])" "\<not> init_flag st0"
    by (auto simp: fresh_log_def)
  from example_program [OF st0(2) p] obtain srv fs' h' where main:
      "program_main example_system mini_cli example_version (mini_spdlog (\<lambda>_. False)) example_argv example_disk example_heap
        st0 = (Ran (Serving (Some srv)), fs', h', st1)" by blast
  from command_line_is_obeyed [OF mini_cli.cli11_laws_axioms mini_log.spdlog_laws_axioms c main] p
  have "int (unat (ucast (port (options srv)) :: 16 word)) = 8080"
    by (auto simp: mini_cli_def mini_base_def)
  with st0(1) main show ?thesis by blast
qed

end
