(* ===== verification/Rule_View.thy ===== *)
theory Rule_View
  imports Rule_Engine
begin

text \<open>
  What a match expression can see: the objects that \<open>rule/http/context_injector.cpp\<close> builds,
  read through the properties QuickJS stores, up to the global \<open>ctx\<close>. The locale
  \<open>quickjs_objects\<close> states what is documented of ordinary objects: \<open>own_prop h o k\<close> is the own
  property \<open>k\<close> of \<open>o\<close>, \<open>str_prop h o k\<close> its text when it is a string, \<open>allocated\<close> the objects
  that are in use, \<open>global_of c\<close> the global object of a context, which the context itself keeps
  alive. Assigning a string to \<open>__proto__\<close> does nothing.
\<close>

section \<open>Objects\<close>

locale quickjs_objects =
  fixes q :: "('h, 'v) quickjs" and own_prop :: "'h \<Rightarrow> 'v \<Rightarrow> string \<Rightarrow> 'v option"
    and str_prop :: "'h \<Rightarrow> 'v \<Rightarrow> string \<Rightarrow> string option"
    and text_of :: "'h \<Rightarrow> 'v \<Rightarrow> string option" and allocated :: "'h \<Rightarrow> 'v \<Rightarrow> bool"
    and global_of :: "addr \<Rightarrow> 'v"
  assumes new_string: "JS_NewStringLen q c s h = (v, h1) \<Longrightarrow> \<not> JS_IsException q v \<Longrightarrow>
      text_of h1 v = Some s \<and> \<not> allocated h v \<and>
      (\<forall>o'. allocated h o' \<longrightarrow> allocated h1 o' \<and> own_prop h1 o' = own_prop h o' \<and> str_prop h1 o' = str_prop h o')"
    and new_object: "JS_NewObject q c h = (v, h1) \<Longrightarrow> \<not> JS_IsException q v \<Longrightarrow>
      \<not> allocated h v \<and> allocated h1 v \<and> own_prop h1 v = (\<lambda>k. None) \<and> str_prop h1 v = (\<lambda>k. None) \<and>
      (\<forall>o'. allocated h o' \<longrightarrow> allocated h1 o' \<and> own_prop h1 o' = own_prop h o' \<and> str_prop h1 o' = str_prop h o')"
    and set_property: "JS_SetPropertyStr q c ob n w h = (r, h1) \<Longrightarrow> 0 \<le> r \<Longrightarrow> allocated h ob \<Longrightarrow>
      (n = ''__proto__'' \<longrightarrow> text_of h w \<noteq> None) \<Longrightarrow>
      own_prop h1 ob n = (if n = ''__proto__'' then own_prop h ob n else Some w) \<and>
      (n \<noteq> ''__proto__'' \<longrightarrow> str_prop h1 ob n = text_of h w) \<and>
      (\<forall>o' k. allocated h o' \<longrightarrow> (o', k) \<noteq> (ob, n) \<longrightarrow>
         own_prop h1 o' k = own_prop h o' k \<and> str_prop h1 o' k = str_prop h o' k) \<and>
      (\<forall>o'. allocated h o' \<longrightarrow> own_prop h ob n \<noteq> Some o' \<longrightarrow> allocated h1 o') \<and> allocated h1 ob"
    and get_global: "JS_GetGlobalObject q c h = (v, h1) \<Longrightarrow> \<not> JS_IsException q v \<Longrightarrow> v = global_of c \<and>
      (\<forall>o'. allocated h o' \<longrightarrow> allocated h1 o' \<and> own_prop h1 o' = own_prop h o' \<and> str_prop h1 o' = str_prop h o')"
    and release_global: "JS_FreeValue q c (global_of c) h = h1 \<Longrightarrow>
      (\<forall>o'. allocated h o' \<longrightarrow> allocated h1 o' \<and> own_prop h1 o' = own_prop h o' \<and> str_prop h1 o' = str_prop h o')"

lemma new_Impl_eq [simp]: "new_Impl c v = new_Impl c' v' \<longleftrightarrow> c = c' \<and> v = v'"
  by (simp add: new_Impl_def)

lemma SetProperty_success:
  assumes "SetProperty q v n w h = (Inr u, h')"
  shows "\<exists>c ob w' r. v = Some (new_Impl c ob) \<and> w = Some (new_Impl c w') \<and>
    JS_SetPropertyStr q c ob (c_str n) w' h = (r, h') \<and> 0 \<le> r"
proof -
  have "IsObject q v \<and> IsValid w \<and> Impl_Context v = Impl_Context w"
    using assms by (auto simp: SetProperty_def HandleInvalidValue_def HandleContextMismatch_def split: if_splits)
  then obtain c ob w' where "v = Some (new_Impl c ob)" "w = Some (new_Impl c w')"
    by (rule valid_same_context)
  with assms show ?thesis
    by (auto simp: SetProperty_def HandleInvalidValue_def HandleContextMismatch_def Release_def new_Impl_def
        destroy_Value_def destroy_Impl_def split: if_splits prod.splits)
qed

lemma Builder_SetProperty_success:
  assumes "Builder_SetProperty q n w b h = (b', h')" and "ob_error b' = None"
  shows "b' = b \<and> (\<exists>c ob w' r. ob_object b = Some (new_Impl c ob) \<and> w = Some (new_Impl c w') \<and>
    JS_SetPropertyStr q c ob (c_str n) w' h = (r, h') \<and> 0 \<le> r)"
  using assms SetProperty_success [of q "ob_object b" n w h _ h']
  by (auto simp: Builder_SetProperty_def split: prod.splits sum.splits)

text \<open>A builder that has not failed holds the object it was created with.\<close>

lemma builder_set_created_success:
  assumes "builder_set_created q n create b h = (b', h')" and "ob_error b' = None"
  shows "b' = b \<and> ob_error b = None \<and> (\<exists>c ob w h1 r. create h = (Inr (Some (new_Impl c w)), h1) \<and>
    ob_object b = Some (new_Impl c ob) \<and> JS_SetPropertyStr q c ob (c_str n) w h1 = (r, h') \<and> 0 \<le> r)"
  using assms Builder_SetProperty_success [of q n _ b _ b' h']
  by (fastforce simp: builder_set_created_def split: prod.splits sum.splits if_splits)

lemma Adopt_success: "AdoptValue q c v h = (Inr val, h1) \<Longrightarrow> val = Some (new_Impl c v) \<and> h1 = h"
  by (simp add: AdoptValue_def split: if_splits)

lemma Value_String_success:
  assumes "Value_String q x s h = (Inr val, h1)"
  shows "\<exists>c v. val = Some (new_Impl c v) \<and> JS_NewStringLen q c s h = (v, h1) \<and> \<not> JS_IsException q v"
  using assms by (auto simp: Value_String_def js_exception_def split: option.splits prod.splits if_splits
      dest!: Adopt_success)

lemma Value_Int32_success:
  "Value_Int32 q x i h = (Inr val, h1) \<Longrightarrow> \<exists>c. val = Some (new_Impl c (JS_NewInt32 q i)) \<and> h1 = h"
  by (auto simp: Value_Int32_def split: option.splits dest!: Adopt_success)

lemma ObjectBuilder_Create_success:
  assumes "ObjectBuilder_Create q x h = (Inr b, h1)"
  shows "ob_error b = None \<and> (\<exists>c v. ob_object b = Some (new_Impl c v) \<and> JS_NewObject q c h = (v, h1) \<and>
    \<not> JS_IsException q v)"
  using assms by (auto simp: ObjectBuilder_Create_def Value_Object_def js_exception_def
      split: option.splits prod.splits if_splits sum.splits dest!: Adopt_success)

lemma finish_build_success:
  "finish_build q b h = (Inr obj, h') \<Longrightarrow> ob_error b = None \<and> obj = ob_object b \<and> h' = h"
  by (auto simp: finish_build_def Build_def destroy_ObjectBuilder_def destroy_Value_def split: option.splits)

lemma set_headers_error: "ob_error b = Some e \<Longrightarrow> set_headers q hs b h = (b, h)"
  by (induction hs) (auto simp: SetString_def builder_set_created_def)

text \<open>A header as the expression finds it: the name in lower case, up to a NUL.\<close>

definition header_view :: "string \<times> string \<Rightarrow> string \<times> string" where
  "header_view nv = (c_str (to_lower_copy (fst nv)), snd nv)"

lemma GlobalObject_success:
  assumes "GlobalObject q x h = (Inr val, h1)"
  shows "\<exists>c v. Context_GetNativeHandle x = Some c \<and> val = Some (new_Impl c v) \<and> JS_GetGlobalObject q c h = (v, h1) \<and>
    \<not> JS_IsException q v"
  using assms by (auto simp: GlobalObject_def js_exception_def split: option.splits prod.splits if_splits
      dest!: Adopt_success)

text \<open>Setters applied one after the other to a builder.\<close>

fun run_setters ::
    "('v ObjectBuilder \<Rightarrow> 'h \<Rightarrow> 'v ObjectBuilder \<times> 'h) list \<Rightarrow> 'v ObjectBuilder \<Rightarrow> 'h \<Rightarrow> 'v ObjectBuilder \<times> 'h" where
  "run_setters [] b h = (b, h)"
| "run_setters (f # fs) b h = (case f b h of (b1, h1) \<Rightarrow> run_setters fs b1 h1)"

section \<open>Views\<close>

text \<open>What the properties of a message object read as.\<close>

definition headers_view ::
    "('h \<Rightarrow> 'v \<Rightarrow> string \<Rightarrow> string option) \<Rightarrow> (string \<times> string) list \<Rightarrow> 'h \<Rightarrow> 'v \<Rightarrow> bool" where
  "headers_view str_prop hs h hob \<longleftrightarrow> (\<forall>k. k \<noteq> ''__proto__'' \<longrightarrow>
     str_prop h hob k = map_of (rev (map (\<lambda>(n, v). (c_str (to_lower_copy n), v)) hs)) k)"

definition request_view ::
    "('h, 'v) quickjs \<Rightarrow> ('h \<Rightarrow> 'v \<Rightarrow> string \<Rightarrow> 'v option) \<Rightarrow> ('h \<Rightarrow> 'v \<Rightarrow> string \<Rightarrow> string option) \<Rightarrow>
     request_header \<Rightarrow> 'h \<Rightarrow> 'v \<Rightarrow> 'v \<Rightarrow> bool" where
  "request_view q own_prop str_prop req h ob hob \<longleftrightarrow>
     str_prop h ob ''method'' = Some (RequestMethod req) \<and> str_prop h ob ''target'' = Some (RequestTarget req) \<and>
     own_prop h ob ''version'' = Some (JS_NewInt32 q (RequestVersion req)) \<and> own_prop h ob ''headers'' = Some hob \<and>
     headers_view str_prop (RequestGetAllHeaders req) h hob"

definition response_view ::
    "('h, 'v) quickjs \<Rightarrow> ('h \<Rightarrow> 'v \<Rightarrow> string \<Rightarrow> 'v option) \<Rightarrow> ('h \<Rightarrow> 'v \<Rightarrow> string \<Rightarrow> string option) \<Rightarrow>
     response_header \<Rightarrow> 'h \<Rightarrow> 'v \<Rightarrow> 'v \<Rightarrow> bool" where
  "response_view q own_prop str_prop res h ob hob \<longleftrightarrow>
     own_prop h ob ''status'' = Some (JS_NewInt32 q (ResponseStatus res)) \<and>
     str_prop h ob ''reason'' = Some (ResponseReason res) \<and>
     own_prop h ob ''version'' = Some (JS_NewInt32 q (ResponseVersion res)) \<and> own_prop h ob ''headers'' = Some hob \<and>
     headers_view str_prop (ResponseGetAllHeaders res) h hob"

context quickjs_objects
begin

text \<open>An object is as it was; all objects are; all but one property are.\<close>

definition same :: "'h \<Rightarrow> 'h \<Rightarrow> 'v \<Rightarrow> bool" where
  "same h h' o' \<longleftrightarrow> allocated h' o' \<and> own_prop h' o' = own_prop h o' \<and> str_prop h' o' = str_prop h o'"

definition preserves :: "'h \<Rightarrow> 'h \<Rightarrow> bool" where
  "preserves h h' \<longleftrightarrow> (\<forall>o'. allocated h o' \<longrightarrow> same h h' o')"

definition changes_only :: "'v \<Rightarrow> string \<Rightarrow> 'h \<Rightarrow> 'h \<Rightarrow> bool" where
  "changes_only ob n h h' \<longleftrightarrow> allocated h' ob \<and>
     (\<forall>o' k. allocated h o' \<longrightarrow> (o', k) \<noteq> (ob, n) \<longrightarrow>
        own_prop h' o' k = own_prop h o' k \<and> str_prop h' o' k = str_prop h o' k) \<and>
     (\<forall>o'. allocated h o' \<longrightarrow> own_prop h ob n \<noteq> Some o' \<longrightarrow> allocated h' o')"

text \<open>An object under construction since \<open>h0\<close>, with the properties \<open>D\<close>.\<close>

definition building :: "'v \<Rightarrow> string set \<Rightarrow> 'h \<Rightarrow> 'h \<Rightarrow> bool" where
  "building ob D h0 h \<longleftrightarrow> \<not> allocated h0 ob \<and> allocated h ob \<and> (\<forall>k. k \<notin> D \<longrightarrow> own_prop h ob k = None) \<and>
     preserves h0 h"

text \<open>A setter of the property \<open>n\<close>, which afterwards reads as \<open>Q\<close> says.\<close>

definition sets ::
    "('v ObjectBuilder \<Rightarrow> 'h \<Rightarrow> 'v ObjectBuilder \<times> 'h) \<Rightarrow> string \<Rightarrow> ('v option \<Rightarrow> string option \<Rightarrow> bool) \<Rightarrow> bool" where
  "sets f n Q \<longleftrightarrow> (\<forall>b h. ob_error b \<noteq> None \<longrightarrow> ob_error (fst (f b h)) \<noteq> None) \<and>
     (\<forall>b h b' h' c ob. f b h = (b', h') \<longrightarrow> ob_error b' = None \<longrightarrow> ob_object b = Some (new_Impl c ob) \<longrightarrow>
        allocated h ob \<longrightarrow> b' = b \<and> ob_error b = None \<and> changes_only ob n h h' \<and>
          Q (own_prop h' ob n) (str_prop h' ob n))"

lemma setsI:
  assumes "\<And>b h. ob_error b \<noteq> None \<Longrightarrow> ob_error (fst (f b h)) \<noteq> None"
    and "\<And>b h b' h' c ob. f b h = (b', h') \<Longrightarrow> ob_error b' = None \<Longrightarrow> ob_object b = Some (new_Impl c ob) \<Longrightarrow>
      allocated h ob \<Longrightarrow> b' = b \<and> ob_error b = None \<and> changes_only ob n h h' \<and> Q (own_prop h' ob n) (str_prop h' ob n)"
  shows "sets f n Q"
  unfolding sets_def using assms by blast

lemma setsD:
  assumes "sets f n Q" and "f b h = (b', h')" and "ob_error b' = None"
  shows "ob_error b = None" "ob_object b = Some (new_Impl c ob) \<Longrightarrow> allocated h ob \<Longrightarrow>
    b' = b \<and> changes_only ob n h h' \<and> Q (own_prop h' ob n) (str_prop h' ob n)"
proof -
  from assms(1) have "ob_error b \<noteq> None \<Longrightarrow> ob_error (fst (f b h)) \<noteq> None"
    unfolding sets_def by blast
  with assms(2,3) show "ob_error b = None" by (cases "ob_error b") auto
  show "ob_object b = Some (new_Impl c ob) \<Longrightarrow> allocated h ob \<Longrightarrow>
      b' = b \<and> changes_only ob n h h' \<and> Q (own_prop h' ob n) (str_prop h' ob n)"
    using assms unfolding sets_def by blast
qed

lemma preserves_trans: "preserves h h1 \<Longrightarrow> preserves h1 h2 \<Longrightarrow> preserves h h2"
  by (simp add: preserves_def same_def)

lemma preserves_same: "preserves h h' \<Longrightarrow> allocated h o' \<Longrightarrow> same h h' o'"
  by (simp add: preserves_def)

lemma views_same:
  assumes "same h h' ob" and "same h h' hob"
  shows "request_view q own_prop str_prop req h ob hob \<Longrightarrow> request_view q own_prop str_prop req h' ob hob"
    "response_view q own_prop str_prop res h ob hob \<Longrightarrow> response_view q own_prop str_prop res h' ob hob"
  using assms by (simp_all add: request_view_def response_view_def headers_view_def same_def)

lemma SetString_success:
  assumes "SetString q n s b h = (b', h')" and "ob_error b' = None"
    and "ob_object b = Some (new_Impl c ob)" and "allocated h ob"
  shows "b' = b \<and> ob_error b = None \<and> changes_only ob (c_str n) h h' \<and>
    (c_str n \<noteq> ''__proto__'' \<longrightarrow> str_prop h' ob (c_str n) = Some s) \<and>
    (\<forall>w. own_prop h' ob (c_str n) = Some w \<longrightarrow> own_prop h ob (c_str n) = Some w \<or> \<not> allocated h w)"
proof -
  from builder_set_created_success [OF assms(1) [unfolded SetString_def] assms(2)] assms(3)
  obtain w h1 r where b: "b' = b" "ob_error b = None"
      and c: "Value_String q (ob_context b) s h = (Inr (Some (new_Impl c w)), h1)"
      and set: "JS_SetPropertyStr q c ob (c_str n) w h1 = (r, h')" "0 \<le> r"
    by auto
  from Value_String_success [OF c] have str: "JS_NewStringLen q c s h = (w, h1)" "\<not> JS_IsException q w"
    by auto
  note n = new_string [OF str]
  then have "allocated h1 ob" using assms(4) by blast
  note p = set_property [OF set this]
  then show ?thesis
    using b n p assms(4) unfolding changes_only_def by (auto split: if_splits)
qed

lemma SetString_sets: "c_str n \<noteq> ''__proto__'' \<Longrightarrow> sets (SetString q n s) (c_str n) (\<lambda>v t. t = Some s)"
  by (rule setsI) (simp add: SetString_def builder_set_created_def, blast dest: SetString_success)

lemma SetInt32_sets: "c_str n \<noteq> ''__proto__'' \<Longrightarrow> sets (SetInt32 q n i) (c_str n) (\<lambda>v t. v = Some (JS_NewInt32 q i))"
proof -
  assume n: "c_str n \<noteq> ''__proto__''"
  have "b' = b \<and> ob_error b = None \<and> changes_only ob (c_str n) h h' \<and> own_prop h' ob (c_str n) = Some (JS_NewInt32 q i)"
    if "SetInt32 q n i b h = (b', h')" "ob_error b' = None" "ob_object b = Some (new_Impl c ob)" "allocated h ob"
    for b h b' h' c ob
  proof -
    from builder_set_created_success [OF that(1) [unfolded SetInt32_def] that(2)] that(3)
    obtain r where "b' = b" "ob_error b = None" "JS_SetPropertyStr q c ob (c_str n) (JS_NewInt32 q i) h = (r, h')" "0 \<le> r"
      by (auto dest!: Value_Int32_success)
    with set_property [OF this(3,4) that(4)] n show ?thesis
      by (simp add: changes_only_def)
  qed
  note step = this
  show ?thesis
    by (rule setsI) (simp add: SetInt32_def builder_set_created_def, erule (3) step)
qed

lemma SetObject_sets:
  assumes "c_str n \<noteq> ''__proto__''"
  shows "sets (SetObject q n (Some (new_Impl c' w))) (c_str n) (\<lambda>v t. v = Some w)"
proof -
  have "b' = b \<and> ob_error b = None \<and> changes_only ob (c_str n) h h' \<and> own_prop h' ob (c_str n) = Some w"
    if "SetObject q n (Some (new_Impl c' w)) b h = (b', h')" "ob_error b' = None" "ob_object b = Some (new_Impl c ob)"
      "allocated h ob" for b h b' h' c ob
  proof -
    from that(1-3) Builder_SetProperty_success [of q n "Some (new_Impl c' w)" b h b' h']
    obtain r where "b' = b" "ob_error b = None" "JS_SetPropertyStr q c ob (c_str n) w h = (r, h')" "0 \<le> r"
      by (auto simp: SetObject_def split: if_splits)
    with set_property [OF this(3,4) that(4)] assms show ?thesis
      by (simp add: changes_only_def)
  qed
  note step = this
  show ?thesis
    by (rule setsI) (simp add: SetObject_def, erule (3) step)
qed

lemma building_step:
  assumes "building ob D h0 h" and "changes_only ob n h h'" and "n \<notin> D"
  shows "building ob (insert n D) h0 h'"
    "k \<in> D \<Longrightarrow> own_prop h' ob k = own_prop h ob k \<and> str_prop h' ob k = str_prop h ob k"
proof -
  have "same h h' o'" if "allocated h o'" "o' \<noteq> ob" for o'
    using assms that by (auto simp: building_def changes_only_def same_def fun_eq_iff)
  then have "preserves h0 h'"
    using assms(1) unfolding building_def preserves_def same_def by metis
  moreover have "own_prop h' ob k = own_prop h ob k \<and> str_prop h' ob k = str_prop h ob k" if "k \<noteq> n" for k
    using assms(1,2) that by (auto simp: building_def changes_only_def)
  ultimately show "building ob (insert n D) h0 h'"
    "k \<in> D \<Longrightarrow> own_prop h' ob k = own_prop h ob k \<and> str_prop h' ob k = str_prop h ob k"
    using assms by (auto simp: building_def changes_only_def)
qed

lemma run_setters_error:
  assumes "list_all2 (\<lambda>f (n, Q). sets f n Q) fs xs" and "run_setters fs b h = (b', h')" and "ob_error b' = None"
  shows "ob_error b = None"
  using assms
proof (induction fs xs arbitrary: b h rule: list_all2_induct)
  case (Cons f fs x xs)
  obtain b1 h1 where f: "f b h = (b1, h1)" by (cases "f b h")
  with Cons have "ob_error b1 = None" by simp
  with Cons.hyps(1) f show ?case
    by (cases x) (auto dest: setsD(1))
qed simp

lemma run_setters_success:
  assumes "list_all2 (\<lambda>f (n, Q). sets f n Q) fs xs" and "run_setters fs b h = (b', h')" and "ob_error b' = None"
    and "ob_object b = Some (new_Impl c ob)" and "building ob D h0 h" and "distinct (map fst xs)"
    and "fst ` set xs \<inter> D = {}"
  shows "b' = b \<and> building ob (fst ` set xs \<union> D) h0 h' \<and>
    (\<forall>(n, Q) \<in> set xs. Q (own_prop h' ob n) (str_prop h' ob n)) \<and>
    (\<forall>k \<in> D. own_prop h' ob k = own_prop h ob k \<and> str_prop h' ob k = str_prop h ob k)"
  using assms
proof (induction fs xs arbitrary: b h D rule: list_all2_induct)
  case (Cons f fs x xs)
  obtain n Q where x: "x = (n, Q)" by (cases x)
  obtain b1 h1 where f: "f b h = (b1, h1)" by (cases "f b h")
  with Cons.prems(1) have rest: "run_setters fs b1 h1 = (b', h')" by simp
  have "ob_error b1 = None"
    using run_setters_error [OF Cons.hyps(2) rest Cons.prems(2)] .
  moreover have "sets f n Q" "allocated h ob"
    using Cons.hyps(1) Cons.prems(4) x by (simp_all add: building_def)
  ultimately have one: "b1 = b" "changes_only ob n h h1" "Q (own_prop h1 ob n) (str_prop h1 ob n)"
    using setsD(2) f Cons.prems(3) by blast+
  have n: "n \<notin> D" "fst ` set xs \<inter> insert n D = {}"
    using Cons.prems(5,6) x by auto
  note step = building_step [OF Cons.prems(4) one(2) n(1)]
  have "distinct (map fst xs)" using Cons.prems(5) by simp
  note IH = Cons.IH [OF rest Cons.prems(2) _ step(1) this n(2)]
  show ?case
    using IH one Cons.prems(3) step(2) x by auto
qed simp

text \<open>An object built from a list of setters: new, with the properties, and all else untouched.\<close>

lemma object_built:
  assumes "ObjectBuilder_Create q x h = (Inr b, h1)" and "run_setters fs b h1 = (b', h2)"
    and "finish_build q b' h2 = (Inr obj, h')" and "list_all2 (\<lambda>f (n, Q). sets f n Q) fs xs"
    and "distinct (map fst xs)"
  shows "\<exists>c ob. obj = Some (new_Impl c ob) \<and> \<not> allocated h ob \<and> allocated h' ob \<and> preserves h h' \<and>
    (\<forall>(n, Q) \<in> set xs. Q (own_prop h' ob n) (str_prop h' ob n))"
proof -
  note f = finish_build_success [OF assms(3)]
  from ObjectBuilder_Create_success [OF assms(1)] obtain c ob where
      ob: "ob_object b = Some (new_Impl c ob)" "JS_NewObject q c h = (ob, h1)" "\<not> JS_IsException q ob"
    by blast
  have "building ob {} h h1"
    using new_object [OF ob(2,3)] by (simp add: building_def preserves_def same_def)
  from run_setters_success [OF assms(4,2) _ ob(1) this assms(5)] f ob(1) show ?thesis
    by (auto simp: building_def)
qed

text \<open>The header object: a later field replaces an earlier one of the same name.\<close>

definition heading :: "'v \<Rightarrow> 'h \<Rightarrow> 'h \<Rightarrow> bool" where
  "heading ob h0 h \<longleftrightarrow> \<not> allocated h0 ob \<and> allocated h ob \<and> preserves h0 h \<and>
     (\<forall>k w. own_prop h ob k = Some w \<longrightarrow> \<not> allocated h0 w)"

lemma heading_step:
  assumes "heading ob h0 h" and "SetString q n s b h = (b', h')" and "ob_error b' = None"
    and "ob_object b = Some (new_Impl c ob)"
  shows "b' = b" "heading ob h0 h'" "k \<noteq> ''__proto__'' \<Longrightarrow>
    str_prop h' ob k = (if k = c_str n then Some s else str_prop h ob k)"
proof -
  have a: "allocated h ob" using assms(1) by (simp add: heading_def)
  note one = SetString_success [OF assms(2-4) a]
  show "b' = b" using one by simp
  show "k \<noteq> ''__proto__'' \<Longrightarrow> str_prop h' ob k = (if k = c_str n then Some s else str_prop h ob k)"
    using one a by (auto simp: changes_only_def)
  have "same h h' o'" if "allocated h0 o'" for o'
  proof -
    have "allocated h o'" "o' \<noteq> ob" "own_prop h ob (c_str n) \<noteq> Some o'"
      using assms(1) that by (auto simp: heading_def preserves_def same_def)
    then show ?thesis
      using one by (auto simp: changes_only_def same_def fun_eq_iff)
  qed
  then have "preserves h0 h'"
    using assms(1) unfolding heading_def preserves_def same_def by metis
  moreover have "\<not> allocated h0 w" if "own_prop h' ob k = Some w" for k w
  proof (cases "k = c_str n")
    case True
    then show ?thesis
      using one that assms(1) by (auto simp: heading_def preserves_def same_def)
  next
    case False
    then have "own_prop h ob k = Some w"
      using one that a by (auto simp: changes_only_def)
    then show ?thesis
      using assms(1) by (auto simp: heading_def)
  qed
  ultimately show "heading ob h0 h'"
    using assms(1) one by (auto simp: heading_def changes_only_def)
qed

lemma set_headers_success:
  assumes "set_headers q hs b h = (b', h')" and "ob_error b' = None"
    and "ob_object b = Some (new_Impl c ob)" and "heading ob h0 h"
  shows "b' = b \<and> heading ob h0 h' \<and> (\<forall>k. k \<noteq> ''__proto__'' \<longrightarrow>
    str_prop h' ob k = (case map_of (rev (map header_view hs)) k of Some v \<Rightarrow> Some v | None \<Rightarrow> str_prop h ob k))"
  using assms
proof (induction hs arbitrary: b h)
  case (Cons nv hs)
  obtain n v where nv: "nv = (n, v)" by (cases nv)
  obtain b1 h1 where s: "SetString q (to_lower_copy n) v b h = (b1, h1)"
    by (cases "SetString q (to_lower_copy n) v b h")
  with Cons.prems(1) nv have rest: "set_headers q hs b1 h1 = (b', h')" by simp
  have err: "ob_error b1 = None"
    using rest Cons.prems(2) set_headers_error [of b1 _ q hs h1] by (cases "ob_error b1") auto
  note one = heading_step [OF Cons.prems(4) s err Cons.prems(3)]
  have view: "header_view nv = (c_str (to_lower_copy n), v)"
    by (simp add: nv header_view_def)
  show ?case
    using Cons.IH [OF rest Cons.prems(2) _ one(2)] Cons.prems(3) one(1,3) view
    by (auto simp: map_add_def split: option.splits)
qed simp

lemma BuildHeaderObject_success:
  assumes "BuildHeaderObject q hs x h = (Inr obj, h')"
  shows "\<exists>c ob. obj = Some (new_Impl c ob) \<and> \<not> allocated h ob \<and> allocated h' ob \<and> preserves h h' \<and>
    headers_view str_prop hs h' ob"
proof -
  from assms obtain b h1 b1 h2 where steps: "ObjectBuilder_Create q x h = (Inr b, h1)"
      "set_headers q hs b h1 = (b1, h2)" "finish_build q b1 h2 = (Inr obj, h')"
    by (auto simp: BuildHeaderObject_def split: prod.splits sum.splits)
  note f = finish_build_success [OF steps(3)]
  from ObjectBuilder_Create_success [OF steps(1)] obtain c ob where
      ob: "ob_object b = Some (new_Impl c ob)" "JS_NewObject q c h = (ob, h1)" "\<not> JS_IsException q ob"
    by blast
  note n = new_object [OF ob(2,3)]
  then have "heading ob h h1"
    by (simp add: heading_def preserves_def same_def)
  moreover have "header_view = (\<lambda>(n, v). (c_str (to_lower_copy n), v))"
    by (auto simp: header_view_def)
  ultimately show ?thesis
    using set_headers_success [OF steps(2) _ ob(1), of h] f n ob(1)
    by (auto simp: heading_def headers_view_def split: option.splits)
qed

lemma BuildRequestObject_success:
  assumes "BuildRequestObject q req x h = (Inr obj, h')"
  shows "\<exists>c ob hob. obj = Some (new_Impl c ob) \<and> \<not> allocated h ob \<and> \<not> allocated h hob \<and> allocated h' ob \<and>
    allocated h' hob \<and> preserves h h' \<and> request_view q own_prop str_prop req h' ob hob"
proof -
  from assms obtain headers h1 b h2 b' h3 where
      hd: "BuildHeaderObject q (RequestGetAllHeaders req) x h = (Inr headers, h1)"
      and ob: "ObjectBuilder_Create q x h1 = (Inr b, h2)"
      and set: "run_setters [SetString q ''method'' (RequestMethod req), SetString q ''target'' (RequestTarget req),
        SetInt32 q ''version'' (RequestVersion req), SetObject q ''headers'' headers] b h2 = (b', h3)"
      and fin: "finish_build q b' h3 = (Inr obj, h')"
    by (auto simp: BuildRequestObject_def split: prod.splits sum.splits)
  from BuildHeaderObject_success [OF hd] obtain c' hob where hob: "headers = Some (new_Impl c' hob)"
      "\<not> allocated h hob" "allocated h1 hob" "preserves h h1" "headers_view str_prop (RequestGetAllHeaders req) h1 hob"
    by blast
  let ?xs = "[(c_str ''method'', \<lambda>v t. t = Some (RequestMethod req)), (c_str ''target'', \<lambda>v t. t = Some (RequestTarget req)),
    (c_str ''version'', \<lambda>v t. v = Some (JS_NewInt32 q (RequestVersion req))), (c_str ''headers'', \<lambda>v t. v = Some hob)]"
  have c: "c_str ''method'' = ''method''" "c_str ''target'' = ''target''" "c_str ''version'' = ''version''"
      "c_str ''headers'' = ''headers''"
    by (simp_all add: c_str_def)
  have "list_all2 (\<lambda>f (n, Q). sets f n Q) [SetString q ''method'' (RequestMethod req),
      SetString q ''target'' (RequestTarget req), SetInt32 q ''version'' (RequestVersion req), SetObject q ''headers'' headers] ?xs"
    using SetString_sets [of "''method''"] SetString_sets [of "''target''"] SetInt32_sets [of "''version''"]
      SetObject_sets [of "''headers''"] by (simp add: c hob(1))
  from object_built [OF ob set fin this] obtain c0 ob where built: "obj = Some (new_Impl c0 ob)" "\<not> allocated h1 ob"
      "allocated h' ob" "preserves h1 h'" "\<forall>(n, Q) \<in> set ?xs. Q (own_prop h' ob n) (str_prop h' ob n)"
    by (auto simp: c)
  have "same h1 h' hob"
    using preserves_same [OF built(4) hob(3)] .
  then show ?thesis
    using built hob preserves_trans [OF hob(4) built(4)] preserves_same [OF hob(4), of ob]
    by (auto simp: request_view_def headers_view_def same_def c)
qed

lemma BuildResponseObject_success:
  assumes "BuildResponseObject q res x h = (Inr obj, h')"
  shows "\<exists>c ob hob. obj = Some (new_Impl c ob) \<and> \<not> allocated h ob \<and> \<not> allocated h hob \<and> allocated h' ob \<and>
    allocated h' hob \<and> preserves h h' \<and> response_view q own_prop str_prop res h' ob hob"
proof -
  from assms obtain headers h1 b h2 b' h3 where
      hd: "BuildHeaderObject q (ResponseGetAllHeaders res) x h = (Inr headers, h1)"
      and ob: "ObjectBuilder_Create q x h1 = (Inr b, h2)"
      and set: "run_setters [SetInt32 q ''status'' (ResponseStatus res), SetString q ''reason'' (ResponseReason res),
        SetInt32 q ''version'' (ResponseVersion res), SetObject q ''headers'' headers] b h2 = (b', h3)"
      and fin: "finish_build q b' h3 = (Inr obj, h')"
    by (auto simp: BuildResponseObject_def split: prod.splits sum.splits)
  from BuildHeaderObject_success [OF hd] obtain c' hob where hob: "headers = Some (new_Impl c' hob)"
      "\<not> allocated h hob" "allocated h1 hob" "preserves h h1" "headers_view str_prop (ResponseGetAllHeaders res) h1 hob"
    by blast
  let ?xs = "[(c_str ''status'', \<lambda>v t. v = Some (JS_NewInt32 q (ResponseStatus res))),
    (c_str ''reason'', \<lambda>v t. t = Some (ResponseReason res)),
    (c_str ''version'', \<lambda>v t. v = Some (JS_NewInt32 q (ResponseVersion res))), (c_str ''headers'', \<lambda>v t. v = Some hob)]"
  have c: "c_str ''status'' = ''status''" "c_str ''reason'' = ''reason''" "c_str ''version'' = ''version''"
      "c_str ''headers'' = ''headers''"
    by (simp_all add: c_str_def)
  have "list_all2 (\<lambda>f (n, Q). sets f n Q) [SetInt32 q ''status'' (ResponseStatus res),
      SetString q ''reason'' (ResponseReason res), SetInt32 q ''version'' (ResponseVersion res), SetObject q ''headers'' headers] ?xs"
    using SetString_sets [of "''reason''"] SetInt32_sets [of "''status''"] SetInt32_sets [of "''version''"]
      SetObject_sets [of "''headers''"] by (simp add: c hob(1))
  from object_built [OF ob set fin this] obtain c0 ob where built: "obj = Some (new_Impl c0 ob)" "\<not> allocated h1 ob"
      "allocated h' ob" "preserves h1 h'" "\<forall>(n, Q) \<in> set ?xs. Q (own_prop h' ob n) (str_prop h' ob n)"
    by (auto simp: c)
  have "same h1 h' hob"
    using preserves_same [OF built(4) hob(3)] .
  then show ?thesis
    using built hob preserves_trans [OF hob(4) built(4)] preserves_same [OF hob(4), of ob]
    by (auto simp: response_view_def headers_view_def same_def c)
qed

text \<open>The global \<open>ctx\<close>: set on the global object of the context, everything else untouched.\<close>

lemma AddObject_success:
  assumes "AddObject q mc ''ctx'' (Some (new_Impl c' cob)) h = (Inr u, h')"
    and "Context_GetNativeHandle (mc_context mc) = Some c" and "allocated h (global_of c)"
    and "own_prop h (global_of c) ''ctx'' = None"
  shows "own_prop h' (global_of c) ''ctx'' = Some cob"
    "allocated h o' \<Longrightarrow> o' \<noteq> global_of c \<Longrightarrow> same h h' o'"
proof -
  from assms(1) obtain glob h1 h2 u' where g: "GlobalObject q (mc_context mc) h = (Inr glob, h1)"
      and s: "SetProperty q glob ''ctx'' (Some (new_Impl c' cob)) h1 = (Inr u', h2)" and h': "h' = destroy_Value q glob h2"
    by (auto simp: AddObject_def AddGlobalValue_def split: if_splits prod.splits sum.splits)
  from GlobalObject_success [OF g] assms(2) obtain v where glob: "glob = Some (new_Impl c v)"
      "JS_GetGlobalObject q c h = (v, h1)" "\<not> JS_IsException q v" by auto
  note gg = get_global [OF glob(2,3)]
  then have v: "v = global_of c" by simp
  have "c_str ''ctx'' = ''ctx''" by (simp add: c_str_def)
  with SetProperty_success [OF s] glob(1) v obtain r where
      set: "JS_SetPropertyStr q c (global_of c) ''ctx'' cob h1 = (r, h2)" "0 \<le> r" by auto
  note p = set_property [OF set]
  have f: "JS_FreeValue q c (global_of c) h2 = h'"
    using h' glob(1) v by (simp add: destroy_Value_def destroy_Impl_def new_Impl_def)
  have "own_prop h1 (global_of c) ''ctx'' = None" "allocated h1 (global_of c)"
    using gg assms(3,4) by auto
  then show "own_prop h' (global_of c) ''ctx'' = Some cob"
    "allocated h o' \<Longrightarrow> o' \<noteq> global_of c \<Longrightarrow> same h h' o'"
    using p gg release_global [OF f] by (auto simp: same_def fun_eq_iff)
qed

lemma ctx_published:
  assumes "AddObject q mc ''ctx'' (Some (new_Impl c' cob)) h4 = (Inr u, h')"
    and "Context_GetNativeHandle (mc_context mc) = Some c" and "allocated h (global_of c)"
    and "own_prop h (global_of c) ''ctx'' = None" and "preserves h h4"
  shows "own_prop h' (global_of c) ''ctx'' = Some cob" "allocated h4 o' \<Longrightarrow> \<not> allocated h o' \<Longrightarrow> same h4 h' o'"
proof -
  have "allocated h4 (global_of c)" "own_prop h4 (global_of c) ''ctx'' = None"
    using preserves_same [OF assms(5,3)] assms(4) by (simp_all add: same_def)
  note a = AddObject_success [OF assms(1,2) this]
  show "own_prop h' (global_of c) ''ctx'' = Some cob" by (rule a(1))
  show "allocated h4 o' \<Longrightarrow> \<not> allocated h o' \<Longrightarrow> same h4 h' o'"
    using a(2) assms(3) by blast
qed

lemma not_allocated_before: "preserves h h1 \<Longrightarrow> \<not> allocated h1 o' \<Longrightarrow> \<not> allocated h o'"
  by (auto simp: preserves_def same_def)

lemma InjectRequestContext_success:
  assumes "InjectRequestContext q mc req h = (Inr u, h')"
    and "Context_GetNativeHandle (mc_context mc) = Some c" and "allocated h (global_of c)"
    and "own_prop h (global_of c) ''ctx'' = None"
  shows "\<exists>cob ob hob. own_prop h' (global_of c) ''ctx'' = Some cob \<and> str_prop h' cob ''phase'' = Some ''request'' \<and>
    own_prop h' cob ''request'' = Some ob \<and> request_view q own_prop str_prop req h' ob hob"
proof -
  from assms(1) obtain robj h1 b h2 b' h3 cobj h4 where r: "BuildRequestObject q req (mc_context mc) h = (Inr robj, h1)"
      and ob: "ObjectBuilder_Create q (mc_context mc) h1 = (Inr b, h2)"
      and set: "run_setters [SetString q ''phase'' ''request'', SetObject q ''request'' robj] b h2 = (b', h3)"
      and fin: "finish_build q b' h3 = (Inr cobj, h4)" and add: "AddObject q mc ''ctx'' cobj h4 = (Inr u, h')"
    by (auto simp: InjectRequestContext_def Let_def split: prod.splits sum.splits)
  from BuildRequestObject_success [OF r] obtain c1 rob hob where rob: "robj = Some (new_Impl c1 rob)" "\<not> allocated h rob"
      "\<not> allocated h hob" "allocated h1 rob" "allocated h1 hob" "preserves h h1"
      "request_view q own_prop str_prop req h1 rob hob" by blast
  have c: "c_str ''phase'' = ''phase''" "c_str ''request'' = ''request''"
    by (simp_all add: c_str_def)
  have "list_all2 (\<lambda>f (n, Q). sets f n Q) [SetString q ''phase'' ''request'', SetObject q ''request'' robj]
      [(''phase'', \<lambda>v t. t = Some ''request''), (''request'', \<lambda>v t. v = Some rob)]"
    using SetString_sets [of "''phase''"] SetObject_sets [of "''request''"] by (simp add: c rob(1))
  from object_built [OF ob set fin this] obtain c2 cob where cob: "cobj = Some (new_Impl c2 cob)" "\<not> allocated h1 cob"
      "allocated h4 cob" "preserves h1 h4" "str_prop h4 cob ''phase'' = Some ''request''" "own_prop h4 cob ''request'' = Some rob"
    by auto
  note pub = ctx_published [OF add [unfolded cob(1)] assms(2-4) preserves_trans [OF rob(6) cob(4)]]
  have old: "same h1 h4 rob" "same h1 h4 hob"
    using preserves_same [OF cob(4)] rob(4,5) by blast+
  then have new: "same h4 h' cob" "same h4 h' rob" "same h4 h' hob"
    using pub(2) rob(2,3) cob(3) not_allocated_before [OF rob(6) cob(2)] by (auto simp: same_def)
  have "request_view q own_prop str_prop req h' rob hob"
    using views_same(1) [OF new(2,3) views_same(1) [OF old rob(7)]] .
  then show ?thesis
    using pub(1) new(1) cob(5,6) by (auto simp: same_def)
qed

lemma InjectResponseContext_success:
  assumes "InjectResponseContext q mc req res h = (Inr u, h')"
    and "Context_GetNativeHandle (mc_context mc) = Some c" and "allocated h (global_of c)"
    and "own_prop h (global_of c) ''ctx'' = None"
  shows "\<exists>cob ob hob ob' hob'. own_prop h' (global_of c) ''ctx'' = Some cob \<and> str_prop h' cob ''phase'' = Some ''response'' \<and>
    own_prop h' cob ''request'' = Some ob \<and> request_view q own_prop str_prop req h' ob hob \<and>
    own_prop h' cob ''response'' = Some ob' \<and> response_view q own_prop str_prop res h' ob' hob'"
proof -
  from assms(1) obtain robj h1 sobj h2 b h3 b' h4 cobj h5 where
      r: "BuildRequestObject q req (mc_context mc) h = (Inr robj, h1)"
      and s: "BuildResponseObject q res (mc_context mc) h1 = (Inr sobj, h2)"
      and ob: "ObjectBuilder_Create q (mc_context mc) h2 = (Inr b, h3)"
      and set: "run_setters [SetString q ''phase'' ''response'', SetObject q ''request'' robj,
        SetObject q ''response'' sobj] b h3 = (b', h4)"
      and fin: "finish_build q b' h4 = (Inr cobj, h5)" and add: "AddObject q mc ''ctx'' cobj h5 = (Inr u, h')"
    by (auto simp: InjectResponseContext_def Let_def split: prod.splits sum.splits)
  from BuildRequestObject_success [OF r] obtain c1 rob hob where rob: "robj = Some (new_Impl c1 rob)" "\<not> allocated h rob"
      "\<not> allocated h hob" "allocated h1 rob" "allocated h1 hob" "preserves h h1"
      "request_view q own_prop str_prop req h1 rob hob" by blast
  from BuildResponseObject_success [OF s] obtain c3 sob tob where sob: "sobj = Some (new_Impl c3 sob)"
      "\<not> allocated h1 sob" "\<not> allocated h1 tob" "allocated h2 sob" "allocated h2 tob" "preserves h1 h2"
      "response_view q own_prop str_prop res h2 sob tob" by blast
  have c: "c_str ''phase'' = ''phase''" "c_str ''request'' = ''request''" "c_str ''response'' = ''response''"
    by (simp_all add: c_str_def)
  have "list_all2 (\<lambda>f (n, Q). sets f n Q) [SetString q ''phase'' ''response'', SetObject q ''request'' robj,
      SetObject q ''response'' sobj]
      [(''phase'', \<lambda>v t. t = Some ''response''), (''request'', \<lambda>v t. v = Some rob), (''response'', \<lambda>v t. v = Some sob)]"
    using SetString_sets [of "''phase''"] SetObject_sets [of "''request''"] SetObject_sets [of "''response''"]
    by (simp add: c rob(1) sob(1))
  from object_built [OF ob set fin this] obtain c2 cob where cob: "cobj = Some (new_Impl c2 cob)" "\<not> allocated h2 cob"
      "allocated h5 cob" "preserves h2 h5" "str_prop h5 cob ''phase'' = Some ''response''"
      "own_prop h5 cob ''request'' = Some rob" "own_prop h5 cob ''response'' = Some sob"
    by auto
  note before = preserves_trans [OF rob(6) sob(6)]
  note pub = ctx_published [OF add [unfolded cob(1)] assms(2-4) preserves_trans [OF before cob(4)]]
  have old: "same h1 h5 rob" "same h1 h5 hob" "same h2 h5 sob" "same h2 h5 tob"
    using preserves_same [OF preserves_trans [OF sob(6) cob(4)]] preserves_same [OF cob(4)] rob(4,5) sob(4,5) by blast+
  then have new: "same h5 h' cob" "same h5 h' rob" "same h5 h' hob" "same h5 h' sob" "same h5 h' tob"
    using pub(2) rob(2,3) cob(3) not_allocated_before [OF before cob(2)] not_allocated_before [OF rob(6) sob(2)]
      not_allocated_before [OF rob(6) sob(3)] by (auto simp: same_def)
  have "request_view q own_prop str_prop req h' rob hob" "response_view q own_prop str_prop res h' sob tob"
    using views_same(1) [OF new(2,3) views_same(1) [OF old(1,2) rob(7)]]
      views_same(2) [OF new(4,5) views_same(2) [OF old(3,4) sob(7)]] by blast+
  then show ?thesis
    using pub(1) new(1) cob(5-7) by (auto simp: same_def)
qed

end

section \<open>The small engine has such objects\<close>

definition mini_prop :: "jsheap \<Rightarrow> jsval \<Rightarrow> string \<Rightarrow> jsval option" where
  "mini_prop h v k = (case v of
     JObject i \<Rightarrow> if i < length (objects h) \<and> k \<noteq> ''__proto__'' then map_of (objects h ! i) k else None | _ \<Rightarrow> None)"

definition mini_text :: "jsval \<Rightarrow> string option" where
  "mini_text v = (case v of JString s \<Rightarrow> Some s | _ \<Rightarrow> None)"

definition mini_str_prop :: "jsheap \<Rightarrow> jsval \<Rightarrow> string \<Rightarrow> string option" where
  "mini_str_prop h v k = (case mini_prop h v k of Some w \<Rightarrow> mini_text w | None \<Rightarrow> None)"

definition mini_allocated :: "jsheap \<Rightarrow> jsval \<Rightarrow> bool" where
  "mini_allocated h v = (case v of JObject i \<Rightarrow> i < length (objects h) | JArray i \<Rightarrow> i < length (objects h) | _ \<Rightarrow> False)"

lemmas mini_view_defs = mini_prop_def mini_str_prop_def mini_text_def mini_allocated_def

lemma mini_store:
  assumes "js_store ob n w h = (r, h1)" and "0 \<le> r" and "mini_allocated h ob"
  shows "length (objects h1) = length (objects h)"
    "mini_prop h1 v k = (if v = ob \<and> k = n \<and> n \<noteq> ''__proto__'' then Some w else mini_prop h v k)"
proof -
  from assms obtain i where i: "ob = JObject i" "i < length (objects h)"
      "objects h1 = (objects h)[i := (n, w) # objects h ! i]"
    by (auto simp: js_store_def js_take_def mini_allocated_def split: jsval.splits)
  then show "length (objects h1) = length (objects h)" by simp
  show "mini_prop h1 v k = (if v = ob \<and> k = n \<and> n \<noteq> ''__proto__'' then Some w else mini_prop h v k)"
    using i by (cases v) (auto simp: mini_prop_def nth_list_update)
qed

lemma mini_objects:
  assumes "objects h1 = objects h"
  shows "mini_prop h1 = mini_prop h" "mini_str_prop h1 = mini_str_prop h" "mini_allocated h1 = mini_allocated h"
  using assms by (auto simp: mini_view_defs fun_eq_iff split: jsval.splits option.splits)

interpretation view: quickjs_objects "mini_js ev" mini_prop mini_str_prop "\<lambda>h. mini_text" mini_allocated JObject for ev
proof
  fix c s h v h1
  assume "JS_NewStringLen (mini_js ev) c s h = (v, h1)"
  then have "v = JString s" "objects h1 = objects h"
    by (auto simp: mini_js_def js_give_def)
  then show "mini_text v = Some s \<and> \<not> mini_allocated h v \<and> (\<forall>o'. mini_allocated h o' \<longrightarrow>
      mini_allocated h1 o' \<and> mini_prop h1 o' = mini_prop h o' \<and> mini_str_prop h1 o' = mini_str_prop h o')"
    using mini_objects [of h1 h] by (simp add: mini_text_def mini_allocated_def)
next
  fix c h v h1
  assume "JS_NewObject (mini_js ev) c h = (v, h1)"
  then show "\<not> mini_allocated h v \<and> mini_allocated h1 v \<and> mini_prop h1 v = (\<lambda>k. None) \<and>
      mini_str_prop h1 v = (\<lambda>k. None) \<and> (\<forall>o'. mini_allocated h o' \<longrightarrow>
      mini_allocated h1 o' \<and> mini_prop h1 o' = mini_prop h o' \<and> mini_str_prop h1 o' = mini_str_prop h o')"
    by (auto simp: mini_js_def js_alloc_def js_give_def mini_view_defs fun_eq_iff nth_append split: jsval.splits)
next
  fix c ob n w h r h1
  assume "JS_SetPropertyStr (mini_js ev) c ob n w h = (r, h1)" "0 \<le> r" "mini_allocated h ob"
  then show "mini_prop h1 ob n = (if n = ''__proto__'' then mini_prop h ob n else Some w) \<and>
      (n \<noteq> ''__proto__'' \<longrightarrow> mini_str_prop h1 ob n = mini_text w) \<and>
      (\<forall>o' k. mini_allocated h o' \<longrightarrow> (o', k) \<noteq> (ob, n) \<longrightarrow>
         mini_prop h1 o' k = mini_prop h o' k \<and> mini_str_prop h1 o' k = mini_str_prop h o' k) \<and>
      (\<forall>o'. mini_allocated h o' \<longrightarrow> mini_prop h ob n \<noteq> Some o' \<longrightarrow> mini_allocated h1 o') \<and> mini_allocated h1 ob"
    using mini_store [of ob n w h r h1]
    by (auto simp: mini_js_def mini_str_prop_def mini_allocated_def split: jsval.splits)
next
  fix c h v h1
  assume "JS_GetGlobalObject (mini_js ev) c h = (v, h1)"
  then have "v = JObject c" "objects h1 = objects h"
    by (auto simp: mini_js_def js_give_def)
  then show "v = JObject c \<and> (\<forall>o'. mini_allocated h o' \<longrightarrow>
      mini_allocated h1 o' \<and> mini_prop h1 o' = mini_prop h o' \<and> mini_str_prop h1 o' = mini_str_prop h o')"
    using mini_objects [of h1 h] by simp
next
  fix c h h1
  assume "JS_FreeValue (mini_js ev) c (JObject c) h = h1"
  then have "objects h1 = objects h"
    by (auto simp: mini_js_def js_take_def)
  then show "\<forall>o'. mini_allocated h o' \<longrightarrow>
      mini_allocated h1 o' \<and> mini_prop h1 o' = mini_prop h o' \<and> mini_str_prop h1 o' = mini_str_prop h o'"
    using mini_objects [of h1 h] by simp
qed

definition view_request :: request_header where
  "view_request = \<lparr>rq_method = verb_head, method_string = ''HEAD'', target = ''/'', version = 11,
     rq_fields = [(''X-A'', ''1''), (''x-a'', ''2'')]\<rparr>"

definition view_context :: MatchContext where
  "view_context = \<lparr>mc_context = \<lparr>ctx_handle = Some 0\<rparr>\<rparr>"

definition view_heap :: jsheap where
  "view_heap = example_heap\<lparr>objects := [[]]\<rparr>"

section \<open>Properties\<close>

text \<open>
  C21. What a match expression finds in \<open>ctx\<close>, for every engine with ordinary objects: after
  the injection into a fresh context, \<open>ctx.phase\<close> is the phase, \<open>ctx.request\<close> has the method
  and the target of the request as strings and its version as an integer, in the response
  phase \<open>ctx.response\<close> has the status and version as integers and the reason as a string, and
  both have a header object in which every name in lower case reads as the value of the last
  field of that name, and a name no field has is absent.
\<close>

theorem expressions_see_the_messages:
  fixes q :: "('h, 'v) quickjs"
  assumes "quickjs_objects q own_prop str_prop text_of allocated global_of"
    and "Context_GetNativeHandle (mc_context mc) = Some c" and "allocated h (global_of c)"
    and "own_prop h (global_of c) ''ctx'' = None"
  shows "(\<forall>h'. InjectRequestContext q mc req h = (Inr (), h') \<longrightarrow>
      (\<exists>cob ob hob. own_prop h' (global_of c) ''ctx'' = Some cob \<and> str_prop h' cob ''phase'' = Some ''request'' \<and>
         own_prop h' cob ''request'' = Some ob \<and> request_view q own_prop str_prop req h' ob hob)) \<and>
    (\<forall>h'. InjectResponseContext q mc req res h = (Inr (), h') \<longrightarrow>
      (\<exists>cob ob hob ob' hob'. own_prop h' (global_of c) ''ctx'' = Some cob \<and> str_prop h' cob ''phase'' = Some ''response'' \<and>
         own_prop h' cob ''request'' = Some ob \<and> request_view q own_prop str_prop req h' ob hob \<and>
         own_prop h' cob ''response'' = Some ob' \<and> response_view q own_prop str_prop res h' ob' hob'))"
  using quickjs_objects.InjectRequestContext_success [OF assms(1) _ assms(2-4), of req]
    quickjs_objects.InjectResponseContext_success [OF assms(1) _ assms(2-4), of req res] by blast

theorem expressions_see_the_messages_witness:
  "\<exists>h' cob ob hob. InjectRequestContext example_js view_context view_request view_heap = (Inr (), h') \<and>
    mini_prop h' (JObject 0) ''ctx'' = Some cob \<and> mini_prop h' cob ''request'' = Some ob \<and>
    mini_str_prop h' ob ''method'' = Some ''HEAD'' \<and> mini_prop h' ob ''headers'' = Some hob \<and>
    mini_str_prop h' hob ''x-a'' = Some ''2''"
proof -
  have "\<not> isl (fst (InjectRequestContext example_js view_context view_request view_heap))"
    by code_simp
  then obtain h' where i: "InjectRequestContext example_js view_context view_request view_heap = (Inr (), h')"
    by (metis (full_types) old.unit.exhaust prod.collapse sum.collapse(2))
  have "Context_GetNativeHandle (mc_context view_context) = Some 0" "mini_allocated view_heap (JObject 0)"
      "mini_prop view_heap (JObject 0) ''ctx'' = None"
    by (simp_all add: view_context_def view_heap_def mini_view_defs Context_GetNativeHandle_def)
  from expressions_see_the_messages [OF view.quickjs_objects_axioms this, where req = view_request] i obtain cob ob hob where
      v: "mini_prop h' (JObject 0) ''ctx'' = Some cob" "mini_prop h' cob ''request'' = Some ob"
        "request_view example_js mini_prop mini_str_prop view_request h' ob hob" by blast
  have "map_of (rev (map (\<lambda>(n, v). (c_str (to_lower_copy n), v)) (RequestGetAllHeaders view_request))) ''x-a'' = Some ''2''"
    and "RequestMethod view_request = ''HEAD''"
    by code_simp+
  with i v show ?thesis
    by (fastforce simp: request_view_def headers_view_def)
qed

end
