(* ===== verification/Engine_Sharing.thy ===== *)
theory Engine_Sharing
  imports Session_Exchange
begin

text \<open>
  The sessions of the server share one script engine. \<open>engine_steps\<close> relates two states of it
  when some sequence of rule applications, of any sessions in any order, leads from one to the
  other. A session relies on the others to change the engine only in this way while it awaits
  its network, and guarantees the same of itself (\<open>Run_engine_steps\<close>), so what is shown of
  \<open>engine_steps\<close> holds for all interleavings of all sessions.
\<close>

inductive engine_steps ::
    "('h, 'v) quickjs \<Rightarrow> fields_api \<Rightarrow> RuleEngine \<Rightarrow> 'h \<Rightarrow> 'h \<Rightarrow> bool" for q api eng where
  engine_idle: "engine_steps q api eng h h"
| engine_request: "engine_steps q api eng h h1 \<Longrightarrow> ApplyRequest q api eng cfg req h1 = (r, req', h2) \<Longrightarrow>
    engine_steps q api eng h h2"
| engine_response: "engine_steps q api eng h h1 \<Longrightarrow> ApplyResponse q api eng cfg req res h1 = (r, res', h2) \<Longrightarrow>
    engine_steps q api eng h h2"

lemma engine_steps_trans:
  assumes "engine_steps q api eng h1 h2" and "engine_steps q api eng h h1"
  shows "engine_steps q api eng h h2"
  using assms by (induction rule: engine_steps.induct) (auto intro: engine_steps.intros)

lemma engine_steps_balance:
  assumes "quickjs_refs q owned counted" and "engine_steps q api eng h h'"
  shows "owned h' = owned h"
  using assms(2)
proof (induction rule: engine_steps.induct)
  case (engine_request h h1 cfg req r req' h2)
  then show ?case using quickjs_refs.Apply_balance(1) [OF assms(1), of api eng cfg req h1] by simp
next
  case (engine_response h h1 cfg req res r res' h2)
  then show ?case using quickjs_refs.Apply_balance(2) [OF assms(1), of api eng cfg req res h1] by simp
qed simp

text \<open>What the others do is made of rule applications: the reliance of a session.\<close>

locale shared_engine =
  fixes w :: "('h, 'v) world" and eng :: RuleEngine
  assumes rely: "engine_steps (js w) (fields_of (beast w)) eng h (others w log h)"
begin

lemma rules_steps:
  "apply_request_rules w eng s hdr h = (hdr', h') \<Longrightarrow> engine_steps (js w) (fields_of (beast w)) eng h h'"
  "apply_response_rules w eng s req res h = (res', h') \<Longrightarrow> engine_steps (js w) (fields_of (beast w)) eng h h'"
  by (auto simp: apply_request_rules_def apply_response_rules_def Let_def
      intro: rely engine_request engine_response split: option.splits prod.splits)

lemma exchange_response_steps:
  assumes "exchange_response w eng p req s h = Some (out, s', h')"
  shows "engine_steps (js w) (fields_of (beast w)) eng h h'"
  using assms by (auto simp: exchange_response_def intro: engine_idle dest: rules_steps
      split: prod.splits option.splits bool.splits if_splits)

lemma HandleOneExchange_steps:
  assumes "HandleOneExchange w eng s h = Some (out, s', h')"
  shows "engine_steps (js w) (fields_of (beast w)) eng h h'"
proof -
  have "engine_steps (js w) (fields_of (beast w)) eng h h'"
    if "forward_exchange w eng p req s1 h = Some (out, s', h')" for p req s1
    using that engine_steps_trans [OF exchange_response_steps rules_steps(1)]
    by (auto simp: forward_exchange_def intro: engine_idle dest: rules_steps
        split: prod.splits option.splits bool.splits)
  with assms show ?thesis
    by (auto simp: HandleOneExchange_def intro: engine_idle split: prod.splits option.splits if_splits)
qed

text \<open>The guarantee: the session itself only applies rules.\<close>

lemma Run_engine_steps:
  assumes "Run w eng s h = Some (exn, s', h')"
  shows "engine_steps (js w) (fields_of (beast w)) eng h h'"
proof -
  from assms have "loop (Run_body w eng) (s, h) = Some (Some (exn, s', h'))"
    by (auto simp: Run_def split: option.splits)
  then have "case Some (exn, s', h') of None \<Rightarrow> True | Some (exn, s', h') \<Rightarrow>
      engine_steps (js w) (fields_of (beast w)) eng h h'"
    by (rule loop_invariant [where P = "\<lambda>st. engine_steps (js w) (fields_of (beast w)) eng h (snd st)"])
      (auto simp: Run_body_def intro: engine_idle engine_steps_trans [OF HandleOneExchange_steps]
        split: prod.splits option.splits exchange_outcome.splits ExchangeResult.splits)
  then show ?thesis by simp
qed

end

section \<open>A busy server\<close>

text \<open>Another session applies a rule whenever this one awaits its network.\<close>

definition busy_world :: "(jsheap, jsval) world" where
  "busy_world = demo_world\<lparr>others := (\<lambda>_ h. snd (snd (ApplyRequest example_js list_fields demo_engine
     \<lparr>rules = Some [example_rule (Some \<lparr>expr = ''true''\<rparr>)]\<rparr> example_request h)))\<rparr>"

interpretation busy: shared_engine busy_world demo_engine
proof unfold_locales
  fix h :: jsheap and log
  obtain r req' h' where "ApplyRequest example_js list_fields demo_engine
      \<lparr>rules = Some [example_rule (Some \<lparr>expr = ''true''\<rparr>)]\<rparr> example_request h = (r, req', h')"
    using prod_cases3 by blast
  with engine_request [OF engine_idle this]
  show "engine_steps (js busy_world) (fields_of (beast busy_world)) demo_engine h (others busy_world log h)"
    by (simp add: busy_world_def demo_world_def)
qed

text \<open>The session of \<open>demo_exchange\<close>, with the others at work.\<close>

lemma busy_exchange:
  "\<exists>s' h'. HandleOneExchange busy_world demo_engine (HttpProxySession 1 None) h = Some (Returned ExContinue, s', h') \<and>
     list_ex is_read_request (io_log s')"
  by (simp add: HandleOneExchange_def ReadClientRequestHeader_def busy_world_def demo_defs HttpProxySession_def
      forward_exchange_def ParseRemoteInfo_def ParseHttpRemoteInfo_def EnsureRemoteConnected_def
      CloseRemote_def CloseSocket_def ResetRemoteState_def ResolveRemote_def ConnectRemote_def
      BuildRemoteRequestHeader_def apply_request_rules_def WriteRemoteRequestHeader_def
      ForwardRequestBody_def DetermineRequestBodyInfo_def exchange_response_def ReadRemoteResponseHeader_def
      apply_response_rules_def WriteRemoteResponseHeaderToClient_def ForwardResponseBody_def
      DetermineResponseBodyInfo_def ShouldKeepAlive_def record_event_def opened_def Let_def)

lemma busy_run: "\<exists>s' h'. Run busy_world demo_engine (HttpProxySession 1 None) h = Some (None, s', h')"
proof -
  let ?body = "Run_body busy_world demo_engine"
  from busy_exchange obtain s1 h1 where s1: "HandleOneExchange busy_world demo_engine (HttpProxySession 1 None) h =
      Some (Returned ExContinue, s1, h1)" "list_ex is_read_request (io_log s1)" by blast
  have "\<exists>s2. HandleOneExchange busy_world demo_engine s1 h1 = Some (Returned ExClose, s2, h1)"
    using s1(2) by (simp add: HandleOneExchange_def ReadClientRequestHeader_def busy_world_def demo_defs Let_def)
  then obtain s2 where s2: "HandleOneExchange busy_world demo_engine s1 h1 = Some (Returned ExClose, s2, h1)" ..
  have "loop ?body (HttpProxySession 1 None, h) = loop ?body (s1, h1)"
    by (rule loop_Inl) (simp add: Run_body_def s1(1))
  also have "\<dots> = Some (Some (None, Close (net busy_world) s2, h1))"
    by (rule loop_Inr) (simp add: Run_body_def s2)
  finally show ?thesis by (simp add: Run_def)
qed

section \<open>Properties\<close>

text \<open>
  C34. Sessions share the script engine safely: if the other sessions do nothing to it but
  apply rules, then neither does this one, on every path and with every outcome, and whatever
  the interleaving the engine owns as many script values, strings and contexts afterwards as
  before. The run of this session is in turn something every other session can rely on.
\<close>

theorem sessions_share_the_engine:
  fixes w w' :: "('h, 'v) world"
  assumes "shared_engine w eng" and "quickjs_refs (js w) owned counted"
    and "js w' = js w" and "beast w' = beast w"
  shows "(\<forall>s h exn s' h'. Run w eng s h = Some (exn, s', h') \<longrightarrow>
      engine_steps (js w) (fields_of (beast w)) eng h h' \<and> owned h' = owned h) \<and>
    shared_engine (w'\<lparr>others := \<lambda>log h. case Run w eng s0 h of Some (_, _, h1) \<Rightarrow> h1 | None \<Rightarrow> h\<rparr>) eng"
proof -
  have steps: "engine_steps (js w) (fields_of (beast w)) eng h h'"
    if "Run w eng s h = Some (exn, s', h')" for s h exn s' h'
    using shared_engine.Run_engine_steps [OF assms(1) that] .
  have "shared_engine (w'\<lparr>others := \<lambda>log h. case Run w eng s0 h of Some (_, _, h1) \<Rightarrow> h1 | None \<Rightarrow> h\<rparr>) eng"
    using assms(3,4) by (auto simp: shared_engine_def intro: engine_idle steps split: option.splits)
  with steps engine_steps_balance [OF assms(2) steps] show ?thesis by blast
qed

theorem sessions_share_the_engine_witness:
  "\<exists>s' h'. Run busy_world demo_engine (HttpProxySession 1 None) example_heap = Some (None, s', h') \<and> live h' = 0"
proof -
  have q: "quickjs_refs (js busy_world) live js_counted"
    using mini.quickjs_refs_axioms by (simp add: busy_world_def demo_world_def)
  obtain s' h' where r: "Run busy_world demo_engine (HttpProxySession 1 None) example_heap = Some (None, s', h')"
    using busy_run by blast
  from sessions_share_the_engine [OF busy.shared_engine_axioms q refl refl] r show ?thesis by auto
qed

end
