(* ===== verification/Exchange_Trace.thy ===== *)
theory Exchange_Trace
  imports Session_Exchange
begin

text \<open>
  What a session does, as the sequence of its I/O events. \<open>complete_exchange\<close> describes the
  events of one exchange that ends with the connections kept: the header read from the
  client, the connection to the remote, the header sent, the request body, the header of the
  answer, the header sent to the client, the response body, in this order and with nothing
  in between. Every exchange that asks for another one has this form, so the log of a session
  is a sequence of complete exchanges followed by the events of its last one.
\<close>

section \<open>Complete exchanges\<close>

definition request_body :: "request_parser \<Rightarrow> bytes \<Rightarrow> bool" where
  "request_body p out \<longleftrightarrow> (case framing (DetermineRequestBodyInfo p) of
     ReqContentLength \<Rightarrow> length out = unat (content_length (DetermineRequestBodyInfo p))
   | ReqChunked \<Rightarrow> chunked_message out
   | ReqNone \<Rightarrow> out = [])"

definition response_body :: "request_parser \<Rightarrow> response_parser \<Rightarrow> bytes \<Rightarrow> bool" where
  "response_body p r out \<longleftrightarrow> (case framing (DetermineResponseBodyInfo p r) of
     RespContentLength \<Rightarrow> length out = unat (content_length (DetermineResponseBodyInfo p r))
   | RespChunked \<Rightarrow> chunked_message out
   | RespCloseDelimited \<Rightarrow> True
   | RespTunnel \<Rightarrow> False
   | RespNone \<Rightarrow> out = [])"

definition complete_exchange :: "request_parser \<Rightarrow> response_parser \<Rightarrow> io_log \<Rightarrow> bool" where
  "complete_exchange p r evs \<longleftrightarrow> (\<exists>conn hdr up res down.
     evs = EvReadRequest None p # conn @ EvWriteRequest hdr None # up @
       EvReadResponse None r # EvWriteResponse res None # down \<and>
     list_all connect_event conn \<and> list_all (forwards Client Remote) up \<and> list_all (forwards Remote Client) down \<and>
     request_body p (delivered Remote up) \<and> response_body p r (delivered Client down) \<and>
     rq_method (rq_header p) \<noteq> verb_connect \<and> rq_keep_alive p \<and> rs_keep_alive r)"

section \<open>The steps of an exchange\<close>

lemma ForwardRequestBody_events:
  assumes "ForwardRequestBody env p s = Some (True, s')"
  obtains up where "io_log s' = io_log s @ up" "list_all (forwards Client Remote) up" "request_body p (delivered Remote up)"
proof -
  from bodies_move(1) [OF assms] obtain up where up: "io_log s' = io_log s @ up" "list_all (forwards Client Remote) up"
    by (auto simp: moves_def list_all_iff)
  moreover have "request_body p (delivered Remote up)"
    using ForwardRequestBody_True [OF assms] up(1)
    by (auto simp: request_body_def transfer_def io_simps split: RequestBodyFraming.splits)
  ultimately show thesis by (rule that)
qed

lemma ForwardResponseBody_events:
  assumes "ForwardResponseBody env p r s = Some (True, s')"
  obtains down where "io_log s' = io_log s @ down" "list_all (forwards Remote Client) down"
    "response_body p r (delivered Client down)"
proof -
  from bodies_move(2) [OF assms] obtain down where down: "io_log s' = io_log s @ down"
      "list_all (forwards Remote Client) down"
    by (auto simp: moves_def list_all_iff)
  moreover have "response_body p r (delivered Client down)"
    using ForwardResponseBody_True [OF assms] down(1)
    by (auto simp: response_body_def transfer_def io_simps split: ResponseBodyFraming.splits)
  ultimately show thesis by (rule that)
qed

lemma exchange_response_Continue:
  assumes "exchange_response w eng p req s h = Some (Returned ExContinue, s', h')"
  obtains r res down where
    "io_log s' = io_log s @ EvReadResponse None r # EvWriteResponse res None # down"
    "list_all (forwards Remote Client) down" "response_body p r (delivered Client down)"
    "ShouldKeepAlive (net w) p r s'"
proof -
  obtain x s1 where x: "ReadRemoteResponseHeader (net w) s = (x, s1)"
    by (cases "ReadRemoteResponseHeader (net w) s")
  then obtain r where r: "x = Some (r, rs_header r)" "io_log s1 = io_log s @ [EvReadResponse None r]"
    using assms by (auto simp: exchange_response_def ReadRemoteResponseHeader_def Let_def record_event_def
        split: prod.splits if_splits)
  with assms x obtain res' s2 where w: "WriteRemoteResponseHeaderToClient (net w) (beast w) res' s1 = (True, s2)"
      and b: "ForwardResponseBody (net w) p r s2 = Some (True, s')" "ShouldKeepAlive (net w) p r s'"
    by (auto simp: exchange_response_def split: prod.splits bool.splits option.splits if_splits)
  from w have "io_log s2 = io_log s1 @ [EvWriteResponse (response_copy (beast w) res') None]"
    by (auto simp: WriteRemoteResponseHeaderToClient_def Let_def record_event_def)
  moreover from b(1) obtain down where "io_log s' = io_log s2 @ down" "list_all (forwards Remote Client) down"
      "response_body p r (delivered Client down)"
    by (rule ForwardResponseBody_events)
  ultimately show thesis
    using that [of r "response_copy (beast w) res'" down] r(2) b(2) by simp
qed

lemma HandleOneExchange_Continue:
  assumes "HandleOneExchange w eng s h = Some (Returned ExContinue, s', h')"
  obtains p r evs where "io_log s' = io_log s @ evs" "complete_exchange p r evs" "ShouldKeepAlive (net w) p r s'"
proof -
  obtain x s1 where x: "ReadClientRequestHeader (net w) s = (x, s1)"
    by (cases "ReadClientRequestHeader (net w) s")
  then obtain p where p: "x = Some (p, rq_header p)" "io_log s1 = io_log s @ [EvReadRequest None p]"
    using assms by (auto simp: HandleOneExchange_def ReadClientRequestHeader_def Let_def record_event_def
        split: prod.splits if_splits)
  have nc: "rq_method (rq_header p) \<noteq> verb_connect"
    using assms x p by (auto simp: HandleOneExchange_def HandleConnectExchange_def
        split: prod.splits option.splits bool.splits)
  with assms x p have "forward_exchange w eng p (rq_header p) s1 h = Some (Returned ExContinue, s', h')"
    by (simp add: HandleOneExchange_def)
  then obtain info s2 hdr s3 s4 h1 where ec: "EnsureRemoteConnected (net w) info s1 = (True, s2)"
      and wr: "WriteRemoteRequestHeader (net w) (beast w) hdr s2 = Some (True, s3)"
      and rb: "ForwardRequestBody (net w) p s3 = Some (True, s4)"
      and er: "exchange_response w eng p hdr s4 h1 = Some (Returned ExContinue, s', h')"
    by (auto simp: forward_exchange_def split: prod.splits option.splits bool.splits)
  from EnsureRemoteConnected_frame(5) [OF ec] obtain conn where
    conn: "io_log s2 = io_log s1 @ conn" "list_all connect_event conn" by (auto simp: list_all_iff)
  from wr have hdr: "io_log s3 = io_log s2 @ [EvWriteRequest (request_copy (beast w) hdr) None]"
    by (auto simp: WriteRemoteRequestHeader_def Let_def record_event_def split: if_splits)
  from rb obtain up where up: "io_log s4 = io_log s3 @ up" "list_all (forwards Client Remote) up"
      "request_body p (delivered Remote up)"
    by (rule ForwardRequestBody_events)
  from er obtain r res down where down: "io_log s' = io_log s4 @ EvReadResponse None r # EvWriteResponse res None # down"
      "list_all (forwards Remote Client) down" "response_body p r (delivered Client down)"
      "ShouldKeepAlive (net w) p r s'"
    by (rule exchange_response_Continue)
  let ?evs = "EvReadRequest None p # conn @ EvWriteRequest (request_copy (beast w) hdr) None # up @
      EvReadResponse None r # EvWriteResponse res None # down"
  have "complete_exchange p r ?evs"
    unfolding complete_exchange_def using conn(2) up(2,3) down(2-4) nc
    by (intro exI conjI) (rule refl, simp_all add: ShouldKeepAlive_def)
  with that [of ?evs p r] show thesis
    using p(2) conn(1) hdr up(1) down(1,4) by simp
qed

section \<open>Sessions\<close>

text \<open>
  \<open>exchanges env l ms\<close>: the log \<open>l\<close> consists of complete exchanges, one for each pair of
  messages in \<open>ms\<close>, and after each of them both sockets are open.
\<close>

inductive exchanges :: "asio \<Rightarrow> io_log \<Rightarrow> (request_parser \<times> response_parser) list \<Rightarrow> bool" for env where
  no_exchange: "exchanges env [] []"
| one_more: "exchanges env l ms \<Longrightarrow> complete_exchange p r evs \<Longrightarrow> is_open env (l @ evs) Client \<Longrightarrow>
    is_open env (l @ evs) Remote \<Longrightarrow> exchanges env (l @ evs) (ms @ [(p, r)])"

text \<open>The messages of a log: headers read from the client and from the remote, headers sent to the client.\<close>

fun request_ev :: "io_event \<Rightarrow> request_parser list" where
  "request_ev (EvReadRequest None p) = [p]"
| "request_ev e = []"

fun response_ev :: "io_event \<Rightarrow> response_parser list" where
  "response_ev (EvReadResponse None r) = [r]"
| "response_ev e = []"

fun answer_ev :: "io_event \<Rightarrow> response_header list" where
  "answer_ev (EvWriteResponse res ec) = [res]"
| "answer_ev e = []"

definition requests_read :: "io_log \<Rightarrow> request_parser list" where
  "requests_read l = concat (map request_ev l)"

definition responses_read :: "io_log \<Rightarrow> response_parser list" where
  "responses_read l = concat (map response_ev l)"

definition responses_written :: "io_log \<Rightarrow> response_header list" where
  "responses_written l = concat (map answer_ev l)"

lemmas messages_defs = requests_read_def responses_read_def responses_written_def

lemma messages_simps [simp]:
  "requests_read [] = []" "requests_read (e # l) = request_ev e @ requests_read l"
  "requests_read (l @ l') = requests_read l @ requests_read l'"
  "responses_read [] = []" "responses_read (e # l) = response_ev e @ responses_read l"
  "responses_read (l @ l') = responses_read l @ responses_read l'"
  "responses_written [] = []" "responses_written (e # l) = answer_ev e @ responses_written l"
  "responses_written (l @ l') = responses_written l @ responses_written l'"
  by (simp_all add: messages_defs)

lemma quiet_event:
  assumes "byte_event e \<or> connect_event e"
  shows "request_ev e = []" "response_ev e = []" "answer_ev e = []"
  using assms by (cases e; simp)+

lemma read_quiet:
  assumes "\<And>e. e \<in> set evs \<Longrightarrow> byte_event e \<or> connect_event e"
  shows "requests_read evs = []" "responses_read evs = []" "responses_written evs = []"
  using quiet_event [OF assms] by (simp_all add: messages_defs)

lemma complete_exchange_messages:
  assumes "complete_exchange p r evs"
  shows "requests_read evs = [p]" "responses_read evs = [r]" "length (responses_written evs) = 1"
proof -
  from assms obtain conn hdr up res down where evs:
      "evs = EvReadRequest None p # conn @ EvWriteRequest hdr None # up @ EvReadResponse None r # EvWriteResponse res None # down"
      "list_all connect_event conn" "list_all (forwards Client Remote) up" "list_all (forwards Remote Client) down"
    unfolding complete_exchange_def by blast
  then have "requests_read x = []" "responses_read x = []" "responses_written x = []" if "x \<in> {conn, up, down}" for x
    using that by (auto intro!: read_quiet simp: list_all_iff dest: forwards_byte_event)
  with evs(1) show "requests_read evs = [p]" "responses_read evs = [r]" "length (responses_written evs) = 1"
    by simp_all
qed

lemma exchanges_messages:
  assumes "exchanges env l ms"
  shows "requests_read l = map fst ms \<and> responses_read l = map snd ms \<and> length (responses_written l) = length ms"
  using assms by (induction rule: exchanges.induct) (simp_all add: complete_exchange_messages)

lemma Run_exchanges:
  assumes "Run w eng s h = Some (exn, s', h')" and "exchanges (net w) (io_log s) ms"
  shows "\<exists>ms s1 h1 out s2. exchanges (net w) (io_log s1) ms \<and> HandleOneExchange w eng s1 h1 = Some (out, s2, h') \<and>
    (case out of Threw m \<Rightarrow> exn = Some m \<and> s' = s2
     | Returned res \<Rightarrow> res = ExClose \<and> exn = None \<and> s' = Close (net w) s2)"
proof -
  have "\<exists>s1 h1 out s2. (\<exists>ms. exchanges (net w) (io_log s1) ms) \<and> HandleOneExchange w eng s1 h1 = Some (out, s2, h') \<and>
    (case out of Threw m \<Rightarrow> exn = Some m \<and> s' = s2
     | Returned res \<Rightarrow> res = ExClose \<and> exn = None \<and> s' = Close (net w) s2)"
  proof (rule Run_final [OF assms(1), where P = "\<lambda>s. \<exists>ms. exchanges (net w) (io_log s) ms"])
    fix s0 h0 s1 h1
    assume P: "\<exists>ms. exchanges (net w) (io_log s0) ms"
      and e: "HandleOneExchange w eng s0 h0 = Some (Returned ExContinue, s1, h1)"
    from e obtain p r evs where "io_log s1 = io_log s0 @ evs" "complete_exchange p r evs" "ShouldKeepAlive (net w) p r s1"
      by (rule HandleOneExchange_Continue)
    with P show "\<exists>ms. exchanges (net w) (io_log s1) ms"
      by (fastforce simp: ShouldKeepAlive_def intro: one_more)
  qed (use assms(2) in blast)
  then show ?thesis by blast
qed

text \<open>
  C9. A session is a sequence of complete exchanges: its log is made of exchanges in each of
  which a request header is read, the request is sent on over a connection, its body follows
  as the framing says, then the header of the answer is read and sent to the client and the
  response body follows as the framing says, with nothing in between; the connection is kept
  only when both messages allow it and both sockets are open. The messages read are those of
  the exchanges in order, with one answer for each. After them comes the last exchange, which
  does not ask to continue; the session is closed after it unless it threw.
\<close>

theorem session_is_a_sequence_of_exchanges:
  assumes "Run w eng (HttpProxySession sid cfg) h = Some (exn, s', h')"
  shows "\<exists>ms s1 h1 out s2. exchanges (net w) (io_log s1) ms \<and>
    requests_read (io_log s1) = map fst ms \<and> responses_read (io_log s1) = map snd ms \<and>
    length (responses_written (io_log s1)) = length ms \<and>
    HandleOneExchange w eng s1 h1 = Some (out, s2, h') \<and>
    (case out of Threw m \<Rightarrow> exn = Some m \<and> s' = s2
     | Returned res \<Rightarrow> res = ExClose \<and> exn = None \<and> s' = Close (net w) s2)"
proof -
  have "exchanges (net w) (io_log (HttpProxySession sid cfg)) []"
    by (simp add: HttpProxySession_def no_exchange)
  from Run_exchanges [OF assms this] show ?thesis
    using exchanges_messages by blast
qed

theorem session_is_a_sequence_of_exchanges_witness:
  "\<exists>ms (s1 :: session) s' h'. Run demo_world demo_engine (HttpProxySession 1 None) example_heap = Some (None, s', h') \<and>
     exchanges (net demo_world) (io_log s1) ms \<and> requests_read (io_log s1) = map fst ms"
proof -
  obtain s' h' where r: "Run demo_world demo_engine (HttpProxySession 1 None) example_heap = Some (None, s', h')"
    using demo_run by blast
  from session_is_a_sequence_of_exchanges [OF r] r show ?thesis by blast
qed

end
