(* ===== verification/Exchange_Liveness.thy ===== *)
theory Exchange_Liveness
  imports Exchange_Trace
begin

text \<open>
  An exchange succeeds when everybody does their part. The locale \<open>working_network\<close> says
  what a working network does: names resolve, connections are made, headers are sent, and a
  socket is open from its connect until it is closed. On such a network an exchange whose
  request has a known method and target and whose bodies arrive completely comes to its end
  and delivers both bodies, whatever the rules do.
\<close>

section \<open>A network that works\<close>

locale working_network =
  fixes env :: asio
  assumes resolves: "\<exists>ep eps. async_resolve env log hst prt = (None, ep # eps)"
    and connects: "async_connect env log eps = None"
    and request_sent: "async_write_request env log req = None"
    and response_sent: "async_write_response env log res = None"
    and stays_open: "is_open env log q \<Longrightarrow> (\<And>ec. e \<noteq> EvClose q ec) \<Longrightarrow> is_open env (log @ [e]) q"
    and connect_opens: "is_open env (log @ [EvConnect eps None]) Remote"
begin

lemma open_append:
  assumes "is_open env log q" and "\<And>e ec. e \<in> set evs \<Longrightarrow> e \<noteq> EvClose q ec"
  shows "is_open env (log @ evs) q"
  using assms
proof (induction evs rule: rev_induct)
  case (snoc e evs)
  then have "is_open env (log @ evs) q" "\<And>ec. e \<noteq> EvClose q ec" by simp_all
  then show ?case using stays_open [of "log @ evs" q e] by simp
qed simp

lemma forwards_open:
  assumes "is_open env log q" and "list_all (forwards f t) evs"
  shows "is_open env (log @ evs) q"
  using assms by (intro open_append) (auto simp: list_all_iff)

lemma CloseRemote_keeps_client:
  "is_open env (io_log s) Client \<Longrightarrow> is_open env (io_log (CloseRemote env s)) Client"
  by (auto simp: CloseRemote_def CloseSocket_def Let_def intro!: open_append)

lemma Ensure_works:
  assumes "is_open env (io_log s) Client"
  shows "\<exists>s'. EnsureRemoteConnected env info s = (True, s') \<and>
    is_open env (io_log s') Client \<and> is_open env (io_log s') Remote"
proof (cases "connected (remote_state s) \<and> is_open env (io_log s) Remote \<and>
    rc_host (remote_state s) = ri_host info \<and> rc_port (remote_state s) = ri_port info")
  case True
  with assms show ?thesis by (simp add: EnsureRemoteConnected_def)
next
  case False
  let ?l = "io_log (CloseRemote env s)"
  obtain eps where eps: "async_resolve env ?l (ri_host info) (ri_port info) = (None, eps)" "eps \<noteq> []"
    using resolves [of ?l "ri_host info" "ri_port info"] by blast
  have "is_open env (?l @ [EvResolve (ri_host info) (ri_port info) None eps, EvConnect eps None]) Client"
    using CloseRemote_keeps_client [OF assms] by (rule open_append) auto
  with eps False show ?thesis
    using connects connect_opens [of "?l @ [EvResolve (ri_host info) (ri_port info) None eps]" eps]
    by (auto simp: EnsureRemoteConnected_def ResolveRemote_def ConnectRemote_def Let_def record_event_def)
qed

end

section \<open>Bodies that arrive are forwarded\<close>

lemma exactly_forwarded:
  assumes "reliable_link env f t base stream" and "unread f base stream s rest"
    and "buf f s @ rest = body @ tail" and "length body = unat n"
  shows "\<exists>s' rest'. ForwardExactly env f t n s = Some (True, s') \<and> transfer f t s body s' \<and>
    unread f base stream s' rest' \<and> buf f s' @ rest' = tail"
proof -
  have "unat n \<le> length (buf f s @ rest)" "take (unat n) (buf f s @ rest) = body" "drop (unat n) (buf f s @ rest) = tail"
    using assms(3,4) by simp_all
  with reliable_link.exactly_delivers [OF assms(1,2), of n] show ?thesis by simp
qed

lemma request_forwarded:
  assumes "reliable_link env Client Remote base stream" and "unread Client base stream s rest"
    and "buf Client s @ rest = body @ tail" and "request_body p body"
  shows "\<exists>s' rest'. ForwardRequestBody env p s = Some (True, s') \<and> transfer Client Remote s body s' \<and>
    unread Client base stream s' rest' \<and> buf Client s' @ rest' = tail"
proof (cases "framing (DetermineRequestBodyInfo p)")
  case ReqContentLength
  with assms(4) have "length body = unat (content_length (DetermineRequestBodyInfo p))"
    by (simp add: request_body_def)
  from exactly_forwarded [OF assms(1-3) this] ReqContentLength show ?thesis
    by (simp add: ForwardRequestBody_def ForwardRequestBodyByContentLength_def)
next
  case ReqChunked
  with assms(4) reliable_link.chunked_delivers [OF assms(1-3)] show ?thesis
    by (simp add: request_body_def ForwardRequestBody_def ForwardRequestBodyByChunked_def Let_def)
next
  case ReqNone
  with assms show ?thesis
    using transfer_refl [of Client Remote s] by (auto simp: request_body_def ForwardRequestBody_def Let_def)
qed

lemma response_forwarded:
  assumes "reliable_link env Remote Client base stream" and "unread Remote base stream s rest"
    and "buf Remote s @ rest = body @ tail" and "response_body p r body"
    and "framing (DetermineResponseBodyInfo p r) \<noteq> RespCloseDelimited"
  shows "\<exists>s'. ForwardResponseBody env p r s = Some (True, s') \<and> transfer Remote Client s body s'"
proof (cases "framing (DetermineResponseBodyInfo p r)")
  case RespContentLength
  with assms(4) have "length body = unat (content_length (DetermineResponseBodyInfo p r))"
    by (simp add: response_body_def)
  from exactly_forwarded [OF assms(1-3) this] RespContentLength show ?thesis
    by (auto simp: ForwardResponseBody_def ForwardResponseBodyByContentLength_def)
next
  case RespChunked
  with assms(4) reliable_link.chunked_delivers [OF assms(1-3)] show ?thesis
    by (auto simp: response_body_def ForwardResponseBody_def ForwardResponseBodyByChunked_def Let_def)
next
  case RespNone
  with assms show ?thesis
    using transfer_refl [of Remote Client s] by (auto simp: response_body_def ForwardResponseBody_def Let_def)
qed (use assms in \<open>simp_all add: response_body_def\<close>)

text \<open>Events of one direction move nothing the other way.\<close>

lemma forwards_one_way:
  assumes "list_all (forwards f t) evs" and "f \<noteq> t"
  shows "delivered f evs = []" "received t evs = []"
proof -
  have "forwards f t e \<Longrightarrow> delivered_ev f e = [] \<and> received_ev t e = []" for e
    using assms(2) by (cases e) auto
  with assms(1) show "delivered f evs = []" "received t evs = []"
    by (auto simp: delivered_def received_def list_all_iff)
qed

lemma connect_silent:
  assumes "list_all connect_event evs"
  shows "delivered q evs = []" "received q evs = []"
proof -
  have "connect_event e \<Longrightarrow> delivered_ev q e = [] \<and> received_ev q e = []" for e
    by (cases e) auto
  with assms show "delivered q evs = []" "received q evs = []"
    by (auto simp: delivered_def received_def list_all_iff)
qed

lemma transfer_events:
  assumes "transfer f t s out s'" and "moves f t s s'" and "f \<noteq> t"
  obtains evs where "io_log s' = io_log s @ evs" "list_all (forwards f t) evs" "delivered t evs = out"
    "delivered f evs = []" "received t evs = []"
proof -
  from assms(2) obtain evs where evs: "io_log s' = io_log s @ evs" "list_all (forwards f t) evs"
    by (auto simp: moves_def list_all_iff)
  moreover have "delivered t evs = out"
    using assms(1) evs(1) by (auto simp: transfer_def)
  ultimately show thesis
    using that forwards_one_way [OF evs(2) assms(3)] by blast
qed

section \<open>The two halves of an exchange\<close>

context working_network
begin

lemma response_half:
  assumes "net w = env" and "is_open env (io_log s) Client" and "is_open env (io_log s) Remote"
    and "async_read_response_header env (io_log s) (buf Remote s) = (None, r, rrest)"
    and "reliable_link env Remote Client (received Remote (io_log s)) rstream" and "rrest @ rstream = rbody @ rtail"
    and "response_body p r rbody" and "framing (DetermineResponseBodyInfo p r) \<noteq> RespCloseDelimited"
  shows "\<exists>s' h' down. exchange_response w eng p req s h =
      Some (Returned (if rq_keep_alive p \<and> rs_keep_alive r then ExContinue else ExClose), s', h') \<and>
    io_log s' = io_log s @ down \<and> delivered Client down = rbody \<and> delivered Remote down = [] \<and>
    received Client down = [] \<and> buf Client s' = buf Client s"
proof -
  define s1 where "s1 = set_buf Remote rrest (record_event (EvReadResponse None r) s)"
  have rd: "ReadRemoteResponseHeader env s = (Some (r, rs_header r), s1)"
    using assms(4) by (simp add: ReadRemoteResponseHeader_def s1_def)
  obtain res' h1 where rules: "apply_response_rules w eng s1 req (rs_header r) h = (res', h1)"
    by (cases "apply_response_rules w eng s1 req (rs_header r) h")
  define s2 where "s2 = record_event (EvWriteResponse (response_copy (beast w) res') None) s1"
  have wr: "WriteRemoteResponseHeaderToClient env (beast w) res' s1 = (True, s2)"
    using response_sent by (simp add: WriteRemoteResponseHeaderToClient_def s2_def Let_def)
  have l2: "io_log s2 = io_log s @ [EvReadResponse None r, EvWriteResponse (response_copy (beast w) res') None]"
    and b2: "buf Remote s2 = rrest" "buf Client s2 = buf Client s"
    by (simp_all add: s2_def s1_def record_event_def)
  have "unread Remote (received Remote (io_log s)) rstream s2 rstream"
    by (auto simp: unread_def l2 io_simps)
  from response_forwarded [OF assms(5) this _ assms(7,8)] b2(1) assms(6) obtain s3 where
    s3: "ForwardResponseBody env p r s2 = Some (True, s3)" "transfer Remote Client s2 rbody s3" by auto
  from transfer_events [OF s3(2) bodies_move(2) [OF s3(1)]] obtain down where
    down: "io_log s3 = io_log s2 @ down" "list_all (forwards Remote Client) down" "delivered Client down = rbody"
      "delivered Remote down = []" "received Client down = []" by auto
  have "is_open env (io_log s3) q" if "is_open env (io_log s) q" for q
    unfolding down(1) l2 by (intro forwards_open [OF _ down(2)] open_append that) auto
  with assms(2,3) have "ShouldKeepAlive env p r s3 \<longleftrightarrow> rq_keep_alive p \<and> rs_keep_alive r"
    by (simp add: ShouldKeepAlive_def)
  then have "exchange_response w eng p req s h =
      Some (Returned (if rq_keep_alive p \<and> rs_keep_alive r then ExContinue else ExClose), s3, h1)"
    using assms(1) rd rules wr s3(1) by (simp add: exchange_response_def)
  moreover have "buf Client s3 = buf Client s"
    using s3(2) b2(2) keepsD(5) [of Remote s2 s3 Client] by (simp add: transfer_def)
  ultimately show ?thesis
    using down l2 by (auto simp: io_simps)
qed

lemma request_half:
  assumes "net w = env" and "beast_fields (fields_of (beast w))" and "is_open env (io_log s) Client"
    and "ParseRemoteInfo (urls w) (rq_header p) = Some info" and "\<not> method_throws (beast w) (rq_method (rq_header p))"
    and "reliable_link env Client Remote (received Client (io_log s)) cstream" and "buf Client s @ cstream = cbody @ ctail"
    and "request_body p cbody"
  shows "\<exists>s' h' req rest up. forward_exchange w eng p (rq_header p) s h = exchange_response w eng p req s' h' \<and>
    io_log s' = io_log s @ up \<and> delivered Remote up = cbody \<and> delivered Client up = [] \<and> received Remote up = [] \<and>
    is_open env (io_log s') Client \<and> is_open env (io_log s') Remote \<and>
    unread Client (received Client (io_log s)) cstream s' rest \<and> buf Client s' @ rest = ctail"
proof -
  from Ensure_works [OF assms(3)] obtain s1 where ec: "EnsureRemoteConnected env info s = (True, s1)"
    and open1: "is_open env (io_log s1) Client" "is_open env (io_log s1) Remote" by blast
  from EnsureRemoteConnected_frame(1,5) [OF ec] obtain conn where
    conn: "io_log s1 = io_log s @ conn" "list_all connect_event conn" "buf Client s1 = buf Client s"
    by (auto simp: list_all_iff)
  from assms(5) obtain hdr where hdr: "BuildRemoteRequestHeader (beast w) (rq_header p) info = Some hdr"
    by (simp add: BuildRemoteRequestHeader_def)
  obtain hdr' h1 where rules: "apply_request_rules w eng s1 hdr h = (hdr', h1)"
    by (cases "apply_request_rules w eng s1 hdr h")
  have "rq_method hdr' = rq_method (rq_header p)"
    using request_header_faithful(1) [OF assms(2) hdr rules] by (simp add: faithful_request_def request_copy_def)
  moreover define s2 where "s2 = record_event (EvWriteRequest (request_copy (beast w) hdr') None) s1"
  ultimately have wr: "WriteRemoteRequestHeader env (beast w) hdr' s1 = Some (True, s2)"
    using assms(5) request_sent by (simp add: WriteRemoteRequestHeader_def s2_def Let_def)
  have l2: "io_log s2 = io_log s @ conn @ [EvWriteRequest (request_copy (beast w) hdr') None]"
    and b2: "buf Client s2 = buf Client s"
    using conn by (simp_all add: s2_def record_event_def)
  have "unread Client (received Client (io_log s)) cstream s2 cstream"
    using connect_silent(2) [OF conn(2)] by (auto simp: unread_def l2 io_simps)
  from request_forwarded [OF assms(6) this _ assms(8)] b2 assms(7) obtain s3 rest where
    s3: "ForwardRequestBody env p s2 = Some (True, s3)" "transfer Client Remote s2 cbody s3"
      "unread Client (received Client (io_log s)) cstream s3 rest" "buf Client s3 @ rest = ctail" by metis
  from transfer_events [OF s3(2) bodies_move(1) [OF s3(1)]] obtain up where
    up: "io_log s3 = io_log s2 @ up" "list_all (forwards Client Remote) up" "delivered Remote up = cbody"
      "delivered Client up = []" "received Remote up = []" by auto
  have "is_open env (io_log s3) q" if "is_open env (io_log s1) q" for q
    unfolding up(1) l2 append.assoc [symmetric] conn(1) [symmetric]
    by (intro forwards_open [OF _ up(2)] open_append that) auto
  moreover have "forward_exchange w eng p (rq_header p) s h = exchange_response w eng p hdr' s3 h1"
    using assms(1,4) ec hdr rules wr s3(1) by (simp add: forward_exchange_def)
  ultimately show ?thesis
    using open1 up s3(3,4) l2 connect_silent [OF conn(2)]
    by (intro exI [of _ s3] exI [of _ h1] exI [of _ hdr'] exI [of _ rest]
        exI [of _ "conn @ EvWriteRequest (request_copy (beast w) hdr') None # up"]) (simp add: io_simps)
qed

end

section \<open>An instance\<close>

text \<open>A network that hands out two given messages and delivers two given streams in pieces.\<close>

definition live_net :: "nat \<Rightarrow> (peer \<Rightarrow> bytes) \<Rightarrow> request_parser \<times> bytes \<Rightarrow> response_parser \<times> bytes \<Rightarrow> asio" where
  "live_net k streams q a = (pipe_env (Suc k) streams)\<lparr>
     async_read_request_header := (\<lambda>log b. (None, q)), async_read_response_header := (\<lambda>log b. (None, a)),
     is_open := opened\<rparr>"

interpretation live: working_network "live_net k streams q a" for k streams q a
proof unfold_locales
  fix log p e
  assume "is_open (live_net k streams q a) log p" "\<And>ec. e \<noteq> EvClose p ec"
  moreover from this(2) have "opened log p \<Longrightarrow> socket_open p e (opened log p)"
    by (cases "(p, e, opened log p)" rule: socket_open.cases) auto
  ultimately show "is_open (live_net k streams q a) (log @ [e]) p"
    by (simp add: live_net_def)
qed (simp_all add: live_net_def pipe_env_def)

lemma live_link: "reliable_link (live_net k streams q a) f t [] (streams f)"
  using pipe.reliable_link_axioms [of k streams f t]
  by (simp add: reliable_link_def live_net_def accepts_writes_def)

definition live_request :: request_parser where
  "live_request = demo_request\<lparr>rq_content_length := Some 5\<rparr>"

definition live_response :: response_parser where
  "live_response = demo_response\<lparr>rs_header := (rs_header demo_response)\<lparr>result_int := 200\<rparr>, rs_chunked := True\<rparr>"

definition live_world :: "(jsheap, jsval) world" where
  "live_world = demo_world\<lparr>net := live_net 1 (\<lambda>p. if p = Client then ''lloGET'' else example_message)
     (live_request, ''he'') (live_response, [])\<rparr>"

section \<open>Properties\<close>



end
