(* ===== verification/Exchange_Failures.thy ===== *)
theory Exchange_Failures
  imports Exchange_Trace
begin

text \<open>
  What a session does after an I/O call has failed. \<open>failed_event\<close> says which outcomes are
  failures: an error code other than end of file on a read, a write that was cut short, a
  name without addresses. \<open>clean s s'\<close> says that nothing failed between two states, and
  \<open>halted s s'\<close> that nothing was done after a failure; every operation of the session is the
  one when it reports success and the other when it reports failure.
\<close>

section \<open>Failures\<close>

fun failed_event :: "io_event \<Rightarrow> bool" where
  "failed_event (EvReadSome p ec bs) \<longleftrightarrow> ec \<noteq> None \<and> ec \<noteq> Some eof"
| "failed_event (EvWrite p bs ec n) \<longleftrightarrow> ec \<noteq> None \<or> n < length bs"
| "failed_event (EvReadRequest ec p) \<longleftrightarrow> ec \<noteq> None"
| "failed_event (EvReadResponse ec r) \<longleftrightarrow> ec \<noteq> None"
| "failed_event (EvWriteRequest hdr ec) \<longleftrightarrow> ec \<noteq> None"
| "failed_event (EvWriteResponse hdr ec) \<longleftrightarrow> ec \<noteq> None"
| "failed_event (EvResolve h p ec eps) \<longleftrightarrow> ec \<noteq> None \<or> eps = []"
| "failed_event (EvConnect eps ec) \<longleftrightarrow> ec \<noteq> None"
| "failed_event e \<longleftrightarrow> False"

definition no_failure :: "io_log \<Rightarrow> bool" where
  "no_failure l \<longleftrightarrow> list_all (\<lambda>e. \<not> failed_event e) l"

lemma no_failure_simps [simp]:
  "no_failure []" "no_failure (e # l) \<longleftrightarrow> \<not> failed_event e \<and> no_failure l"
  "no_failure (l @ l') \<longleftrightarrow> no_failure l \<and> no_failure l'"
  by (simp_all add: no_failure_def)

lemma no_failure_butlast: "no_failure l \<Longrightarrow> no_failure (butlast l)"
  by (auto simp: no_failure_def list_all_iff dest: in_set_butlastD)

lemma close_events_no_failure: "close_events l \<Longrightarrow> no_failure l"
  by (auto simp: close_events_def no_failure_def list_all_iff)

definition clean :: "session \<Rightarrow> session \<Rightarrow> bool" where
  "clean s s' \<longleftrightarrow> (\<exists>evs. io_log s' = io_log s @ evs \<and> no_failure evs)"

definition halted :: "session \<Rightarrow> session \<Rightarrow> bool" where
  "halted s s' \<longleftrightarrow> (\<exists>evs. io_log s' = io_log s @ evs \<and> no_failure (butlast evs))"

definition goes :: "bool \<Rightarrow> session \<Rightarrow> session \<Rightarrow> bool" where
  "goes ok s s' \<longleftrightarrow> (if ok then clean s s' else halted s s')"

lemma clean_refl [simp]: "clean s s"
  by (simp add: clean_def)

lemma clean_trans: "clean s s1 \<Longrightarrow> clean s1 s2 \<Longrightarrow> clean s s2"
  by (auto simp: clean_def)

lemma clean_halted: "clean s s' \<Longrightarrow> halted s s'"
  by (auto simp: clean_def halted_def dest: no_failure_butlast)

lemma clean_then_halted: "clean s s1 \<Longrightarrow> halted s1 s2 \<Longrightarrow> halted s s2"
  by (auto simp: clean_def halted_def butlast_append dest: no_failure_butlast)

lemma goes_trans: "clean s s1 \<Longrightarrow> goes ok s1 s2 \<Longrightarrow> goes ok s s2"
  by (auto simp: goes_def intro: clean_trans clean_then_halted)

lemma clean_goes: "clean s s' \<Longrightarrow> goes ok s s'"
  by (simp add: goes_def clean_halted)

lemma goes_simps [simp]: "goes True s s' = clean s s'" "goes False s s' = halted s s'"
  by (simp_all add: goes_def)

lemma goes_halted: "goes ok s s' \<Longrightarrow> halted s s'"
  by (cases ok) (simp_all add: clean_halted)

lemma goes_event: "io_log s' = io_log s @ [e] \<Longrightarrow> (ok \<Longrightarrow> \<not> failed_event e) \<Longrightarrow> goes ok s s'"
  by (auto simp: goes_def clean_def halted_def)

text \<open>A loop whose iterations go on only after success.\<close>

lemma loop_goes:
  assumes "loop body st = Some (ok, s')"
    and "\<And>st st'. body st = Inl st' \<Longrightarrow> clean (sess_of st) (sess_of st')"
    and "\<And>st ok s'. body st = Inr (ok, s') \<Longrightarrow> goes ok (sess_of st) s'"
  shows "goes ok (sess_of st) s'"
proof -
  have "goes (fst (ok, s')) (sess_of st) (snd (ok, s'))"
    by (rule loop_invariant [OF assms(1), where P = "\<lambda>st'. clean (sess_of st) (sess_of st')"])
      (use assms(2,3) in \<open>auto intro: clean_trans goes_trans\<close>)
  then show ?thesis by simp
qed

section \<open>Bytes\<close>

lemma ReadSome_goes: "ReadSomeFromPeer env f s = (r, s') \<Longrightarrow> goes (r \<noteq> None) s s'"
  by (cases "async_read_some env (io_log s) f (64 * 1024)")
    (auto simp: ReadSomeFromPeer_def Let_def clean_def halted_def split: option.splits if_splits)

lemma WriteToPeer_goes: "WriteToPeer env f t n s = (r, s') \<Longrightarrow> goes (r \<noteq> None) s s'"
  by (cases "async_write env (io_log s) t (take n (buf f s))")
    (auto simp: WriteToPeer_def Let_def clean_def halted_def split: if_splits)

lemma byte_clean:
  "ReadSomeFromPeer env f s = (Some r, s') \<Longrightarrow> clean s s'"
  "WriteToPeer env f t n s = (Some k, s') \<Longrightarrow> clean s s'"
  using ReadSome_goes [of env f s "Some r" s'] WriteToPeer_goes [of env f t n s "Some k" s'] by simp_all

lemma byte_halted:
  "ReadSomeFromPeer env f s = (None, s') \<Longrightarrow> halted s s'"
  "WriteToPeer env f t n s = (None, s') \<Longrightarrow> halted s s'"
  using ReadSome_goes [of env f s None s'] WriteToPeer_goes [of env f t n s None s'] by simp_all

lemmas byte_rules = byte_clean byte_halted clean_trans [OF byte_clean(1) byte_clean(2)]
  clean_then_halted [OF byte_clean(1) byte_halted(2)]

lemma ForwardExactly_goes: "ForwardExactly env f t n s = Some (ok, s') \<Longrightarrow> goes ok s s'"
  unfolding ForwardExactly_def
  by (drule loop_goes [where sess_of = snd])
    (auto simp: ForwardExactly_body_def Let_def intro: byte_rules split: prod.splits option.splits if_splits)

lemma ForwardChunked_goes: "ForwardChunked env f t s = Some (ok, s') \<Longrightarrow> goes ok s s'"
  unfolding ForwardChunked_def
  by (drule loop_goes [where sess_of = sess])
    (auto simp: ForwardChunked_body_def chunked_init_def Let_def intro: byte_rules clean_halted
      split: ChunkedState.splits prod.splits option.splits if_splits)

lemma until_eof_goes: "loop (ForwardUntilEof_body env f t) s = Some (ok, s') \<Longrightarrow> goes ok s s'"
  by (drule loop_goes [where sess_of = "\<lambda>s. s"])
    (auto simp: ForwardUntilEof_body_def Let_def intro: byte_rules split: prod.splits option.splits if_splits)

lemma ForwardUntilEof_goes: "ForwardUntilEof env f t s = Some (ok, s') \<Longrightarrow> goes ok s s'"
  using until_eof_goes byte_halted(2) goes_trans [OF byte_clean(2) until_eof_goes]
  by (auto simp: ForwardUntilEof_def split: if_splits prod.splits option.splits)

lemma bodies_go:
  "ForwardRequestBody env p s = Some (ok, s') \<Longrightarrow> goes ok s s'"
  "ForwardResponseBody env p r s = Some (ok, s') \<Longrightarrow> goes ok s s'"
  using ForwardExactly_goes ForwardChunked_goes ForwardUntilEof_goes clean_goes [OF clean_refl, of ok s]
  by (auto simp: ForwardRequestBody_def ForwardRequestBodyByContentLength_def ForwardRequestBodyByChunked_def
      ForwardResponseBody_def ForwardResponseBodyByContentLength_def ForwardResponseBodyByChunked_def
      ForwardResponseBodyByCloseDelimited_def Let_def clean_halted
      split: RequestBodyFraming.splits ResponseBodyFraming.splits)

section \<open>Headers and connections\<close>

lemma CloseRemote_clean: "clean s (CloseRemote env s)"
  using CloseSocket_log [of env Remote s] close_events_no_failure by (auto simp: clean_def CloseRemote_def)

lemma EnsureRemoteConnected_goes:
  assumes "EnsureRemoteConnected env info s = (ok, s')"
  shows "goes ok s s'"
proof (cases "connected (remote_state s) \<and> is_open env (io_log s) Remote \<and>
    rc_host (remote_state s) = ri_host info \<and> rc_port (remote_state s) = ri_port info")
  case True
  with assms show ?thesis by (simp add: EnsureRemoteConnected_def)
next
  case False
  have "goes ok (CloseRemote env s) s'"
    using assms unfolding EnsureRemoteConnected_def if_not_P [OF False]
    by (cases "async_resolve env (io_log (CloseRemote env s)) (ri_host info) (ri_port info)")
      (auto simp: ResolveRemote_def ConnectRemote_def Let_def clean_def halted_def
        split: if_splits bool.splits)
  then show ?thesis by (rule goes_trans [OF CloseRemote_clean])
qed

lemma headers_go:
  "ReadClientRequestHeader env s = (r, s') \<Longrightarrow> goes (r \<noteq> None) s s'"
  "ReadRemoteResponseHeader env s = (a, s') \<Longrightarrow> goes (a \<noteq> None) s s'"
  "WriteRemoteRequestHeader env api hdr s = Some (ok, s') \<Longrightarrow> goes ok s s'"
  "WriteRemoteResponseHeaderToClient env api res s = (ok, s') \<Longrightarrow> goes ok s s'"
  "WriteConnectEstablishedResponseToClient env api s = (ok, s') \<Longrightarrow> goes ok s s'"
  by (auto simp: ReadClientRequestHeader_def ReadRemoteResponseHeader_def WriteRemoteRequestHeader_def
      WriteRemoteResponseHeaderToClient_def WriteConnectEstablishedResponseToClient_def Let_def
      clean_def halted_def split: prod.splits if_splits)

section \<open>Exchanges\<close>

lemma exchange_response_goes:
  assumes "exchange_response w eng p req s h = Some (out, s', h')"
  shows "goes (out = Returned ExContinue) s s'"
proof -
  obtain a s1 where a: "ReadRemoteResponseHeader (net w) s = (a, s1)" by (cases "ReadRemoteResponseHeader (net w) s")
  note g1 = headers_go(2) [OF a]
  show ?thesis
  proof (cases a)
    case None
    with assms a g1 show ?thesis by (auto simp: exchange_response_def)
  next
    case (Some x)
    obtain r res where x: "x = (r, res)" by (cases x)
    obtain res' h1 where rules: "apply_response_rules w eng s1 req res h = (res', h1)"
      by (cases "apply_response_rules w eng s1 req res h")
    obtain ok s2 where wr: "WriteRemoteResponseHeaderToClient (net w) (beast w) res' s1 = (ok, s2)"
      by (cases "WriteRemoteResponseHeaderToClient (net w) (beast w) res' s1")
    from g1 Some have c1: "clean s s1" by simp
    have g2: "goes ok s s2" by (rule goes_trans [OF c1 headers_go(4) [OF wr]])
    have g3: "goes b s s3" if "ok" "ForwardResponseBody (net w) p r s2 = Some (b, s3)" for b s3
      using goes_trans [OF _ bodies_go(2) [OF that(2)]] g2 that(1) by simp
    show ?thesis
      using assms a Some x rules wr g2 g3
      by (auto simp: exchange_response_def clean_halted split: bool.splits option.splits if_splits)
  qed
qed

lemma forward_exchange_goes:
  assumes "forward_exchange w eng p req s h = Some (out, s', h')"
  shows "goes (out = Returned ExContinue) s s'"
proof (cases "ParseRemoteInfo (urls w) req")
  case None
  with assms show ?thesis by (auto simp: forward_exchange_def clean_halted)
next
  case (Some info)
  obtain ok s1 where ec: "EnsureRemoteConnected (net w) info s = (ok, s1)"
    by (cases "EnsureRemoteConnected (net w) info s")
  note g1 = EnsureRemoteConnected_goes [OF ec]
  show ?thesis
  proof (cases "ok \<and> BuildRemoteRequestHeader (beast w) req info \<noteq> None")
    case False
    with assms Some ec g1 show ?thesis
      by (auto simp: forward_exchange_def clean_halted split: bool.splits option.splits)
  next
    case True
    then obtain hdr where c1: "clean s s1" "ok" and hdr: "BuildRemoteRequestHeader (beast w) req info = Some hdr"
      using g1 by auto
    obtain hdr' h1 where rules: "apply_request_rules w eng s1 hdr h = (hdr', h1)"
      by (cases "apply_request_rules w eng s1 hdr h")
    have g2: "goes b s s2" if "WriteRemoteRequestHeader (net w) (beast w) hdr' s1 = Some (b, s2)" for b s2
      by (rule goes_trans [OF c1(1) headers_go(3) [OF that]])
    have g3: "goes b s s3" if "clean s s2" "ForwardRequestBody (net w) p s2 = Some (b, s3)" for s2 b s3
      by (rule goes_trans [OF that(1) bodies_go(1) [OF that(2)]])
    have g4: "goes (out = Returned ExContinue) s s'"
      if "clean s s3" "exchange_response w eng p hdr' s3 h1 = Some (out, s', h')" for s3
      by (rule goes_trans [OF that(1) exchange_response_goes [OF that(2)]])
    have *: "(case WriteRemoteRequestHeader (net w) (beast w) hdr' s1 of None \<Rightarrow> Some (Threw ''unknown verb'', s1, h1)
      | Some (False, s2) \<Rightarrow> Some (Returned ExClose, s2, h1)
      | Some (True, s2) \<Rightarrow> (case ForwardRequestBody (net w) p s2 of None \<Rightarrow> None
          | Some (False, s3) \<Rightarrow> Some (Returned ExClose, s3, h1)
          | Some (True, s3) \<Rightarrow> exchange_response w eng p hdr' s3 h1)) = Some (out, s', h')"
      using assms Some ec c1(2) hdr rules by (simp add: forward_exchange_def)
    show ?thesis
    proof (cases "WriteRemoteRequestHeader (net w) (beast w) hdr' s1")
      case None
      with * c1(1) show ?thesis by (auto simp: clean_halted)
    next
      case (Some y)
      then obtain b s2 where y: "y = (b, s2)" "goes b s s2" using g2 by (cases y) auto
      from * Some y g3 [of s2 True] g3 [of s2 False] g4 show ?thesis
        by (cases b; cases "ForwardRequestBody (net w) p s2") (auto split: bool.splits)
    qed
  qed
qed

text \<open>A CONNECT: nothing after a failure, or the events of a tunnel after a clean start.\<close>

definition tunnel_events :: "io_log \<Rightarrow> bool" where
  "tunnel_events l \<longleftrightarrow> list_all (\<lambda>e. byte_event e \<or> (\<exists>p ec. e = EvShutdown p ec \<or> e = EvClose p ec)) l"

definition tunnels :: "session \<Rightarrow> session \<Rightarrow> bool" where
  "tunnels s s' \<longleftrightarrow> (\<exists>evs. io_log s' = io_log s @ evs \<and> tunnel_events evs)"

lemma tunnels_refl: "tunnels s s"
  by (simp add: tunnels_def tunnel_events_def)

lemma tunnels_trans: "tunnels s s1 \<Longrightarrow> tunnels s1 s2 \<Longrightarrow> tunnels s s2"
  by (auto simp: tunnels_def tunnel_events_def)

lemma Close_tunnels: "tunnels s (Close env s)"
  using Close_log [of env s] by (auto simp: tunnels_def tunnel_events_def close_events_def list_all_iff)

lemma moves_tunnels: "moves f t s s' \<Longrightarrow> tunnels s s'"
  by (fastforce simp: moves_def tunnels_def tunnel_events_def list_all_iff dest: forwards_byte_event)

lemma tunnel_resume_tunnels:
  assumes "tunnel_resume env f t pc s = (pc', s')"
  shows "tunnels s s'"
  using assms tunnels_refl moves_tunnels [OF moves_read [of env f s _ _ t]] moves_tunnels [OF moves_write [of env f t _ s]]
    tunnels_trans [OF _ Close_tunnels]
  by (fastforce simp: tunnel_resume_def tunnel_write_def
      split: tunnel_pc.splits if_splits prod.splits option.splits)

lemma relay_run_tunnels: "relay_run env r r' \<Longrightarrow> tunnels (shared r) (shared r')"
proof (induction rule: relay_run.induct)
  case (run_step r r' r'')
  from run_step.hyps(2) show ?case
    by (rule relay_stepE) (use run_step.IH tunnel_resume_tunnels tunnels_trans in fastforce)+
qed (rule tunnels_refl)

lemma HandleConnectExchange_goes:
  assumes "HandleConnectExchange w req s = Some (out, s')"
  shows "halted s s' \<or> (\<exists>s1. clean s s1 \<and> tunnels s1 s' \<and> last_request (io_log s1) = last_request (io_log s))"
proof (cases "ParseRemoteInfo (urls w) req")
  case None
  with assms show ?thesis by (auto simp: HandleConnectExchange_def clean_halted)
next
  case (Some info)
  obtain ok s1 where ec: "EnsureRemoteConnected (net w) info s = (ok, s1)"
    by (cases "EnsureRemoteConnected (net w) info s")
  obtain b s2 where wr: "WriteConnectEstablishedResponseToClient (net w) (beast w) s1 = (b, s2)"
    by (cases "WriteConnectEstablishedResponseToClient (net w) (beast w) s1")
  note g1 = EnsureRemoteConnected_goes [OF ec] and g2 = headers_go(5) [OF wr]
  show ?thesis
  proof (cases "ok \<and> b")
    case False
    with assms Some ec wr g1 g2 show ?thesis
      by (auto simp: HandleConnectExchange_def intro: clean_then_halted split: bool.splits option.splits)
  next
    case True
    with g1 g2 have c: "clean s s2" by (auto intro: clean_trans)
    obtain evs where "io_log s1 = io_log s @ evs" "\<forall>e \<in> set evs. plain_event e"
      using EnsureRemoteConnected_frame(5) [OF ec] by (auto simp: plain_event_def)
    then have "last_request (io_log s1) = last_request (io_log s)" using plain_events(2) by metis
    then have l: "last_request (io_log s2) = last_request (io_log s)"
      using wr by (auto simp: WriteConnectEstablishedResponseToClient_def Let_def)
    from True assms Some ec wr obtain r where r: "RelayTunnelBidirectional (net w) (executor w) s2 = Some r" "s' = shared r"
      by (auto simp: HandleConnectExchange_def split: option.splits)
    have "tunnels s2 s'"
      using relay_run_tunnels [of "net w" "relay_start s2" r] RelayTunnelBidirectional_run [OF r(1)] r(2)
      by (simp add: relay_start_def)
    with c l show ?thesis by blast
  qed
qed

lemma HandleOneExchange_goes:
  assumes "HandleOneExchange w eng s h = Some (out, s', h')"
  shows "goes (out = Returned ExContinue) s s' \<or>
    out \<noteq> Returned ExContinue \<and> (\<exists>s1 p. clean s s1 \<and> tunnels s1 s' \<and> last_request (io_log s1) = Some p \<and>
      rq_method (rq_header p) = verb_connect)"
proof -
  obtain r s1 where r: "ReadClientRequestHeader (net w) s = (r, s1)" by (cases "ReadClientRequestHeader (net w) s")
  note g = headers_go(1) [OF r]
  show ?thesis
  proof (cases r)
    case None
    with assms r g show ?thesis by (auto simp: HandleOneExchange_def)
  next
    case (Some x)
    then obtain p where p: "r = Some (p, rq_header p)" "last_request (io_log s1) = Some p"
      using r by (auto simp: ReadClientRequestHeader_def Let_def split: prod.splits if_splits)
    from g Some have c: "clean s s1" by simp
    show ?thesis
    proof (cases "rq_method (rq_header p) = verb_connect")
      case True
      with assms r p obtain res where con: "HandleConnectExchange w (rq_header p) s1 = Some (res, s')" "out = Returned res"
        by (auto simp: HandleOneExchange_def split: option.splits)
      then have "out \<noteq> Returned ExContinue"
        by (auto simp: HandleConnectExchange_def split: option.splits prod.splits bool.splits)
      with HandleConnectExchange_goes [OF con(1)] c p(2) True show ?thesis
        by (auto intro: clean_then_halted clean_trans)
    next
      case False
      with assms r p have "forward_exchange w eng p (rq_header p) s1 h = Some (out, s', h')"
        by (simp add: HandleOneExchange_def)
      from goes_trans [OF c forward_exchange_goes [OF this]] show ?thesis by simp
    qed
  qed
qed

section \<open>Sessions\<close>

lemma failure_after:
  assumes "no_failure b" and "b @ c = pre @ e # post" and "failed_event e"
  obtains m where "pre = b @ m" "c = m @ e # post"
proof -
  have "\<exists>m. pre = b @ m \<and> c = m @ e # post"
    using assms(1,2)
  proof (induction b arbitrary: pre)
    case (Cons y b)
    then show ?case using assms(3) by (cases pre) auto
  qed simp
  with that show thesis by blast
qed

lemma failure_position:
  assumes "no_failure b" and "no_failure c" and "b @ x # c = pre @ e # post" and "failed_event e"
  shows "post = c"
proof -
  from failure_after [OF assms(1,3,4)] obtain m where "x # c = m @ e # post" by blast
  with assms(2,4) show ?thesis by (cases m) auto
qed

lemma halted_failure:
  assumes "no_failure (io_log s0)" and "halted s0 s1" and "io_log s' = io_log s1 @ cl" and "close_events cl"
    and "io_log s' = pre @ e # post" and "failed_event e"
  shows "close_events post"
proof -
  from assms(2) obtain evs where evs: "io_log s1 = io_log s0 @ evs" "no_failure (butlast evs)"
    by (auto simp: halted_def)
  note ncl = close_events_no_failure [OF assms(4)]
  show ?thesis
  proof (cases evs rule: rev_cases)
    case Nil
    with evs assms(1,3) ncl have "no_failure (io_log s')" by simp
    with assms(5,6) show ?thesis by simp
  next
    case (snoc b x)
    with evs assms(3,5) have "(io_log s0 @ b) @ x # cl = pre @ e # post" by simp
    with failure_position [of "io_log s0 @ b" cl x pre e post] assms(1,4,6) evs(2) snoc ncl show ?thesis by simp
  qed
qed

lemma tunnel_failure:
  assumes "no_failure (io_log s0)" and "io_log s' = io_log s0 @ evs" and "tunnel_events evs"
    and "io_log s' = pre @ e # post" and "failed_event e"
  shows "byte_event e \<and> tunnel_events post \<and> last_request pre = last_request (io_log s0)"
proof -
  from assms(2,4) have "io_log s0 @ evs = pre @ e # post" by simp
  from failure_after [OF assms(1) this assms(5)] obtain m where m: "pre = io_log s0 @ m" "evs = m @ e # post" .
  have "plain_event x" if "byte_event x \<or> (\<exists>p ec. x = EvShutdown p ec \<or> x = EvClose p ec)" for x
    using that by (auto simp: plain_event_def)
  with assms(3) m(2) have "\<forall>x \<in> set m. plain_event x"
    by (auto simp: tunnel_events_def list_all_iff)
  from plain_events(2) [OF this] m assms(3,5) show ?thesis
    by (auto simp: tunnel_events_def)
qed

lemma Close_of_run:
  assumes "case out of Threw m \<Rightarrow> exn = Some m \<and> s' = s1 | Returned res \<Rightarrow> res = ExClose \<and> exn = None \<and> s' = Close env s1"
  shows "out \<noteq> Returned ExContinue" "\<exists>cl. io_log s' = io_log s1 @ cl \<and> close_events cl"
  using assms Close_log [of env s1] by (cases out; force simp: close_events_def)+


text \<open>A world whose client resets the connection.\<close>

definition reset_world :: "(jsheap, jsval) world" where
  "reset_world = demo_world\<lparr>net := demo_net\<lparr>async_read_request_header :=
     (\<lambda>log b. (Some connection_reset, demo_request, b))\<rparr>\<rparr>"


end
