(* ===== verification/Session_Termination.thy ===== *)
theory Session_Termination
  imports Exchange_Trace
begin

text \<open>
  A session ends when its network does. The locale \<open>expiring_network\<close> is a network on which
  from some point on every read, every write and every wait for a request fails with an
  error other than end of file, as after a reset, a time-out or a cancellation. On it every
  loop of the session is bounded by the calls that are left: the forwarding loops, the state
  machine of chunked bodies with its steps without I/O, the tunnel under every schedule, and
  \<open>Run\<close>.
\<close>

section \<open>Networks that expire\<close>

locale expiring_network =
  fixes env :: asio and n :: nat
  assumes reads_fail: "n \<le> length log \<Longrightarrow> \<exists>e. fst (async_read_some env log p k) = Some e \<and> e \<noteq> eof"
    and writes_fail: "n \<le> length log \<Longrightarrow> fst (async_write env log p bs) \<noteq> None"
    and requests_fail: "n \<le> length log \<Longrightarrow> fst (async_read_request_header env log b) \<noteq> None"

text \<open>The calls a state has left, and a step that uses some of them.\<close>

definition calls_left :: "nat \<Rightarrow> session \<Rightarrow> nat" where
  "calls_left n s = n - length (io_log s)"

definition uses_calls :: "nat \<Rightarrow> session \<Rightarrow> session \<Rightarrow> bool" where
  "uses_calls n s s' \<longleftrightarrow> length (io_log s) < n \<and> length (io_log s) < length (io_log s')"

lemma uses_calls_less: "uses_calls n s s' \<Longrightarrow> calls_left n s' < calls_left n s"
  unfolding uses_calls_def calls_left_def by arith

lemma byte_calls:
  "ReadSomeFromPeer env f s = (r, s') \<Longrightarrow> length (io_log s') = Suc (length (io_log s))"
  "WriteToPeer env f t k s = (a, s') \<Longrightarrow> length (io_log s') = Suc (length (io_log s))"
  by (auto simp: ReadSomeFromPeer_def WriteToPeer_def Let_def split: prod.splits option.splits if_splits)

lemma Close_calls: "length (io_log s) \<le> length (io_log (Close env s))"
  using Close_log [of env s] by auto

text \<open>The state machine takes at most two steps in a row without I/O.\<close>

definition idle_steps :: "ChunkedState \<Rightarrow> nat" where
  "idle_steps st = (case st of St_ReadChunkSizeLine \<Rightarrow> 2 | St_ParseChunkSizeLine \<Rightarrow> 1 | _ \<Rightarrow> 0)"

lemma idle_steps_le: "idle_steps st \<le> 2"
  by (simp add: idle_steps_def split: ChunkedState.split)

context expiring_network
begin

lemma read_uses:
  assumes "ReadSomeFromPeer env f s = (Some r, s')"
  shows "uses_calls n s s'"
proof -
  have "\<not> n \<le> length (io_log s)"
    using assms reads_fail [of "io_log s" f "64 * 1024"]
    by (auto simp: ReadSomeFromPeer_def Let_def split: prod.splits option.splits if_splits)
  with byte_calls(1) [OF assms] show ?thesis by (simp add: uses_calls_def)
qed

lemma write_uses:
  assumes "WriteToPeer env f t k s = (Some r, s')"
  shows "uses_calls n s s'"
proof -
  have "\<not> n \<le> length (io_log s)"
    using assms writes_fail [of "io_log s" t "take k (buf f s)"]
    by (auto simp: WriteToPeer_def Let_def split: prod.splits if_splits)
  with byte_calls(2) [OF assms] show ?thesis by (simp add: uses_calls_def)
qed

lemma uses_trans: "uses_calls n s s1 \<Longrightarrow> uses_calls n s1 s2 \<Longrightarrow> uses_calls n s s2"
  by (simp add: uses_calls_def)

lemmas byte_uses = read_uses write_uses uses_trans [OF read_uses write_uses]

section \<open>Bodies\<close>

lemma exactly_returns: "\<exists>ok s'. ForwardExactly env f t k s = Some (ok, s')"
proof -
  have "uses_calls n (snd st) (snd st')" if "ForwardExactly_body env f t k st = Inl st'" for st st'
    using that by (cases st) (auto simp: ForwardExactly_body_def Let_def intro: byte_uses
        split: prod.splits option.splits if_splits)
  then have "\<exists>r. loop (ForwardExactly_body env f t k) (0, s) = Some r"
    by (intro loop_terminates [where P = "\<lambda>_. True" and m = "\<lambda>st. calls_left n (snd st)"]) (simp_all add: uses_calls_less)
  then show ?thesis by (simp add: ForwardExactly_def split_paired_Ex)
qed

lemma eof_loop_returns: "\<exists>ok s'. ForwardUntilEof env f t s = Some (ok, s')"
proof -
  have "uses_calls n s s'" if "ForwardUntilEof_body env f t s = Inl s'" for s s'
    using that by (auto simp: ForwardUntilEof_body_def Let_def intro: byte_uses
        split: prod.splits option.splits if_splits)
  then have "\<exists>r. loop (ForwardUntilEof_body env f t) s = Some r" for s
    by (intro loop_terminates [where P = "\<lambda>_. True" and m = "calls_left n"]) (simp_all add: uses_calls_less)
  then have "\<exists>ok s'. loop (ForwardUntilEof_body env f t) s = Some (ok, s')" for s
    by (simp add: split_paired_Ex)
  then show ?thesis
    by (auto simp: ForwardUntilEof_def split: prod.split option.split)
qed

lemma ForwardChunked_body_uses:
  assumes "ForwardChunked_body env f t c = Inl c'"
  shows "uses_calls n (sess c) (sess c') \<or> sess c' = sess c \<and> idle_steps (state c') < idle_steps (state c)"
  using assms
  by (auto simp: ForwardChunked_body_def Let_def idle_steps_def intro: byte_uses
      split: ChunkedState.splits prod.splits option.splits if_splits)

lemma chunked_returns: "\<exists>ok s'. ForwardChunked env f t s = Some (ok, s')"
proof -
  have "3 * calls_left n (sess c') + idle_steps (state c') < 3 * calls_left n (sess c) + idle_steps (state c)"
    if "ForwardChunked_body env f t c = Inl c'" for c c'
    using ForwardChunked_body_uses [OF that]
  proof
    assume "uses_calls n (sess c) (sess c')"
    from uses_calls_less [OF this] idle_steps_le [of "state c'"] show ?thesis by linarith
  qed simp
  then have "\<exists>r. loop (ForwardChunked_body env f t) (chunked_init s) = Some r"
    by (intro loop_terminates [where P = "\<lambda>_. True" and m = "\<lambda>c. 3 * calls_left n (sess c) + idle_steps (state c)"]) simp_all
  then show ?thesis by (simp add: ForwardChunked_def split_paired_Ex)
qed

lemma bodies_return:
  "\<exists>ok s'. ForwardRequestBody env p s = Some (ok, s')" "\<exists>ok s'. ForwardResponseBody env p r s = Some (ok, s')"
  using exactly_returns eof_loop_returns chunked_returns
  by (auto simp: ForwardRequestBody_def ForwardRequestBodyByContentLength_def ForwardRequestBodyByChunked_def
      ForwardResponseBody_def ForwardResponseBodyByContentLength_def ForwardResponseBodyByChunked_def
      ForwardResponseBodyByCloseDelimited_def Let_def split: RequestBodyFraming.split ResponseBodyFraming.split)

section \<open>The tunnel\<close>

lemma tunnel_resume_uses:
  assumes "tunnel_resume env f t pc s = (pc', s')" and "pc \<noteq> Tun_Stopped"
  shows "length (io_log s) < length (io_log s')" "n \<le> length (io_log s) \<Longrightarrow> pc' = Tun_Stopped"
proof -
  obtain a s2 where a: "WriteToPeer env f t (length (buf f s)) s = (a, s2)"
    by (cases "WriteToPeer env f t (length (buf f s)) s")
  have w: "length (io_log s) < length (io_log s')" "n \<le> length (io_log s) \<Longrightarrow> pc' = Tun_Stopped"
    if "tunnel_write env f t s = (pc', s')"
    using that a byte_calls(2) [OF a] write_uses [of f t "length (buf f s)" s _ s2] Close_calls [of s2 env]
    by (cases a; auto simp: tunnel_write_def uses_calls_def)+
  have r: "length (io_log s) < length (io_log s')" "n \<le> length (io_log s) \<Longrightarrow> pc' = Tun_Stopped"
    if "ReadSomeFromPeer env f s = (x, s1)"
      "(pc', s') = (case x of None \<Rightarrow> (Tun_Stopped, Close env s1)
         | Some r \<Rightarrow> if at_eof r then (Tun_Stopped, Close env s1) else (Tun_Write, s1))" for x s1
    using that byte_calls(1) [OF that(1)] read_uses [of f s _ s1] Close_calls [of s1 env]
    by (auto simp: uses_calls_def split: option.splits if_splits)
  obtain x s1 where x: "ReadSomeFromPeer env f s = (x, s1)" by (cases "ReadSomeFromPeer env f s")
  show "length (io_log s) < length (io_log s')" "n \<le> length (io_log s) \<Longrightarrow> pc' = Tun_Stopped"
    using assms w r [OF x] x by (auto simp: tunnel_resume_def split: tunnel_pc.splits if_splits)
qed

lemma relay_measure:
  assumes "tunnel_resume env f t pc s = (pc', s')" and "pc \<noteq> Tun_Stopped"
  shows "calls_left n s' + of_bool (pc' \<noteq> Tun_Stopped) < calls_left n s + (1 :: nat)"
proof (cases "n \<le> length (io_log s)")
  case True
  with tunnel_resume_uses [OF assms] show ?thesis by (simp add: calls_left_def)
next
  case False
  with tunnel_resume_uses(1) [OF assms] have "uses_calls n s s'" by (simp add: uses_calls_def)
  from uses_calls_less [OF this] show ?thesis by simp
qed

lemma relay_returns: "\<exists>r. RelayTunnelBidirectional env sched s = Some r"
  unfolding RelayTunnelBidirectional_def
proof (rule loop_terminates [where P = "\<lambda>_. True" and
      m = "\<lambda>r. calls_left n (shared r) + of_bool (c2r r \<noteq> Tun_Stopped) + of_bool (r2c r \<noteq> Tun_Stopped)"])
  fix r r' :: relay
  assume b: "(if r2c r = Tun_Stopped then Inr r
     else if sched (io_log (shared r)) = Client \<and> c2r r \<noteq> Tun_Stopped
     then (case tunnel_resume env Client Remote (c2r r) (shared r) of (pc, s') \<Rightarrow> Inl (r\<lparr>c2r := pc, shared := s'\<rparr>))
     else (case tunnel_resume env Remote Client (r2c r) (shared r) of (pc, s') \<Rightarrow> Inl (r\<lparr>r2c := pc, shared := s'\<rparr>)))
     = Inl r'"
  obtain pc1 s1 pc2 s2 where p: "tunnel_resume env Client Remote (c2r r) (shared r) = (pc1, s1)"
      "tunnel_resume env Remote Client (r2c r) (shared r) = (pc2, s2)" by fastforce
  from b p relay_measure [OF p(1)] relay_measure [OF p(2)]
  show "True \<and> calls_left n (shared r') + of_bool (c2r r' \<noteq> Tun_Stopped) + of_bool (r2c r' \<noteq> Tun_Stopped)
      < calls_left n (shared r) + of_bool (c2r r \<noteq> Tun_Stopped) + of_bool (r2c r \<noteq> Tun_Stopped)"
    by (auto split: if_splits)
qed simp

section \<open>Exchanges and sessions\<close>

lemma no_divergence:
  "ForwardRequestBody env p s \<noteq> None" "ForwardResponseBody env p r s \<noteq> None"
  "RelayTunnelBidirectional env sched s \<noteq> None"
  using bodies_return(1) [of p s] bodies_return(2) [of p r s] relay_returns [of sched s] by auto

lemma exchange_returns:
  assumes "net w = env"
  shows "HandleOneExchange w eng s h \<noteq> None"
proof -
  have resp: "exchange_response w eng p req s h \<noteq> None" for p req s h
    unfolding exchange_response_def assms
    by (simp add: no_divergence del: not_None_eq split: option.split prod.split bool.split)
  have fwd: "forward_exchange w eng p req s h \<noteq> None" for p req s h
    unfolding forward_exchange_def assms
    by (simp add: no_divergence resp del: not_None_eq split: option.split prod.split bool.split)
  have con: "HandleConnectExchange w req s \<noteq> None" for req s
    unfolding HandleConnectExchange_def assms
    by (simp add: no_divergence del: not_None_eq split: option.split prod.split bool.split)
  show ?thesis
    unfolding HandleOneExchange_def
    by (simp add: fwd con del: not_None_eq split: option.split prod.split)
qed

lemma Run_body_uses:
  assumes "net w = env" and "Run_body w eng (s, h) = Inl (s', h')"
  shows "uses_calls n s s'"
proof -
  from assms(2) have e: "HandleOneExchange w eng s h = Some (Returned ExContinue, s', h')"
    by (auto simp: Run_body_def split: option.splits exchange_outcome.splits ExchangeResult.splits)
  from e obtain p r evs where evs: "io_log s' = io_log s @ evs" "complete_exchange p r evs"
    by (rule HandleOneExchange_Continue)
  have "\<not> n \<le> length (io_log s)"
    using e requests_fail [of "io_log s" "buf Client s"] assms(1)
    by (auto simp: HandleOneExchange_def ReadClientRequestHeader_def Let_def split: prod.splits if_splits)
  with evs show ?thesis by (auto simp: uses_calls_def complete_exchange_def)
qed

lemma Run_returns:
  assumes "net w = env"
  shows "\<exists>r. Run w eng s h = Some r"
proof -
  have "calls_left n (fst st') < calls_left n (fst st)" if "Run_body w eng st = Inl st'" for st st'
    using uses_calls_less [OF Run_body_uses [OF assms, of eng "fst st" "snd st" "fst st'" "snd st'"]] that by simp
  then have "\<exists>r. loop (Run_body w eng) (s, h) = Some r"
    by (intro loop_terminates [where P = "\<lambda>_. True" and m = "\<lambda>st. calls_left n (fst st)"]) simp_all
  then obtain r where r: "loop (Run_body w eng) (s, h) = Some r" by blast
  have "r \<noteq> None"
  proof (rule loop_invariant [OF r, where P = "\<lambda>_. True"])
    fix st r
    assume "Run_body w eng st = Inr r"
    with exchange_returns [OF assms, of eng "fst st" "snd st"] show "r \<noteq> None"
      by (auto simp: Run_body_def split: prod.splits option.splits exchange_outcome.splits ExchangeResult.splits)
  qed simp_all
  with r show ?thesis by (auto simp: Run_def)
qed

end

section \<open>An instance\<close>

text \<open>Any network, cut off after \<open>n\<close> calls.\<close>

definition cut_off :: "nat \<Rightarrow> asio \<Rightarrow> asio" where
  "cut_off n env = env\<lparr>
     async_read_some := (\<lambda>log p k. if n \<le> length log then (Some operation_aborted, []) else async_read_some env log p k),
     async_write := (\<lambda>log p bs. if n \<le> length log then (Some operation_aborted, 0) else async_write env log p bs),
     async_read_request_header := (\<lambda>log b. if n \<le> length log
       then (Some operation_aborted, fst (snd (async_read_request_header env log b)), b)
       else async_read_request_header env log b)\<rparr>"

interpretation cut_off: expiring_network "cut_off n env" n for n env
  by unfold_locales (simp_all add: cut_off_def)

section \<open>Properties\<close>

text \<open>
  C12. A session ends when its network does: if from some point on every read, every write and
  every wait for a request fails with an error other than end of file (a reset, a time-out, a
  cancellation), then \<open>Run\<close> returns, whatever the messages, their framing, the rules, the
  script engine and the schedule of a tunnel, and the session is closed unless an exception
  ended it. No loop of the session runs on without a call to the network that succeeds.
\<close>

theorem session_ends_with_its_network:
  assumes "expiring_network (net w) n"
  shows "\<exists>exn s' h'. Run w eng s h = Some (exn, s', h') \<and> (exn = None \<longrightarrow> closed s')"
proof -
  from expiring_network.Run_returns [OF assms refl] obtain exn s' h' where r: "Run w eng s h = Some (exn, s', h')"
    by (metis prod_cases3)
  from Run_SomeD [OF r, where P = "\<lambda>_. True"] have "exn = None \<longrightarrow> closed s'" by auto
  with r show ?thesis by blast
qed

text \<open>A client that asks again and again, cut off after a hundred calls.\<close>

theorem session_ends_with_its_network_witness:
  "\<exists>exn s' h'. Run (demo_world\<lparr>net := cut_off 100 (demo_net\<lparr>async_read_request_header :=
      (\<lambda>log b. (None, demo_request, b))\<rparr>)\<rparr>) demo_engine (HttpProxySession 1 None) example_heap = Some (exn, s', h')"
proof -
  let ?w = "demo_world\<lparr>net := cut_off 100 (demo_net\<lparr>async_read_request_header := (\<lambda>log b. (None, demo_request, b))\<rparr>)\<rparr>"
  have "expiring_network (net ?w) 100"
    using cut_off.expiring_network_axioms by simp
  from session_ends_with_its_network [OF this] show ?thesis by blast
qed

end
