(* ===== verification/Spec2Isabelle.thy ===== *)
theory Spec2Isabelle
  imports App_Main Rule_View Engine_Sharing Exchange_Liveness Exchange_Failures Session_Termination
begin

text \<open>
  A verification of proxy++, an HTTP forward proxy in C++20 with header rules.

  \<^bold>\<open>The program.\<close> \<open>main\<close> (\<open>app/main.cpp\<close>) parses the command line, sets up the
  loggers, loads a rule file, creates the rule engine and starts a \<open>core::TcpServer\<close>. The server spawns an \<open>http::HttpProxySession\<close> per accepted
  connection. A session runs exchanges until one asks to close: it reads a request header,
  finds the remote the target names, connects to it or reuses the connection, applies the
  rules of the request phase, sends the request header and body, reads the response header,
  applies the rules of the response phase and sends header and body to the client; a CONNECT
  becomes a tunnel instead. Bodies are relayed by content length, by chunked coding or to the
  end of the connection. A rule has an optional JavaScript expression, evaluated by QuickJS on
  the request and response, and actions on header fields.

  \<^bold>\<open>Theories and sources\<close> (paths under \<open>src/src/proxypp/\<close>, in order of dependency).

  \<^item> \<open>Proxy_Prelude\<close>: machine types, generic lemmas, decimal numerals, paths and the
    combinator \<open>loop\<close>.
  \<^item> \<open>Proxy_Errors\<close>: \<open>error.h/.cpp\<close>, \<open>rule/error.*\<close>, \<open>script/qjs/error.*\<close>, \<open>result.h\<close>.
  \<^item> \<open>Http_Message_Utils\<close>: \<open>http/http_message_utils.cpp\<close>, the scanner of chunk-size lines.
  \<^item> \<open>Http_Fields\<close>: the header containers and \<open>http/adapter/beast_*_adapter.cpp\<close>; the
    contract of an adapter is the locale \<open>header_adapter\<close>.
  \<^item> \<open>Http_Body_Info\<close>: \<open>http/body_info.*\<close>, how a message body ends.
  \<^item> \<open>Rule_Model\<close>, \<open>Rule_Json\<close>, \<open>Rule_File\<close>: the rule language (\<open>rule/op.*\<close>, \<open>rule/match.h\<close>,
    \<open>rule/config.h\<close>, \<open>rule/http/model.*\<close>), its JSON traits (\<open>helper/json_helper.*\<close>), the
    schema and the loading of a rule file (\<open>rule/rule_file.cpp\<close>, \<open>helper/file_helper.cpp\<close>,
    \<open>helper/json_schema_helper.cpp\<close>); \<open>Json_Schema\<close> holds documents and schemas.
  \<^item> \<open>Rule_Actions\<close>: \<open>rule/http/action_executor.cpp\<close>.
  \<^item> \<open>Qjs_Value\<close>, \<open>Qjs_Ownership\<close>: \<open>script/qjs/*\<close>, values, contexts, runtimes, the evaluator
    and the object builder, with every constructor, move and destructor explicit.
  \<^item> \<open>Rule_Engine\<close>: \<open>rule/rule_engine.*\<close>, \<open>rule/match_context.cpp\<close>,
    \<open>rule/http/context_injector.cpp\<close>, \<open>rule/http/apply.cpp\<close>. \<open>Rule_Effects\<close>: what actions and
    rules do to an abstract header store, refined by the executors and the loop. \<open>Rule_View\<close>:
    what a match expression finds in \<open>ctx\<close>.
  \<^item> \<open>Session_IO\<close>, \<open>Session_Chunked\<close>, \<open>Session_Tunnel\<close>, \<open>Session_Connect\<close>,
    \<open>Session_Exchange\<close>: \<open>http/http_proxy_session.*\<close>, from reads and writes to \<open>Run\<close>.
    \<open>Exchange_Trace\<close>: the events of a session as a sequence of complete exchanges;
    \<open>Exchange_Liveness\<close>: an exchange over a working network succeeds; \<open>Exchange_Failures\<close>:
    nothing is sent after a failure; \<open>Session_Termination\<close>: a session ends when its network
    does; \<open>Engine_Sharing\<close>: what sessions that run at the same time rely on and guarantee.
  \<^item> \<open>Logging\<close>: \<open>log/log.*\<close>. \<open>Tcp_Server\<close>: \<open>core/tcp_server.*\<close>. \<open>Cli\<close> and \<open>App_Main\<close>:
    \<open>app/main.cpp\<close> and \<open>helper/cli_helper.cpp\<close>.

  A definition has the name of the function it models; the members of a class are the fields
  of a record; a function that changes its object returns the new one; an error is \<open>Inl\<close>, a
  C++ exception too, in a sum of its own. \<open>std::size_t\<close> and the counters keep their width.

  \<^bold>\<open>What is a parameter.\<close> Code outside the repository is never defined here. It is an argument
  of the definitions that use it, and what a theorem needs of it is a named premise, most
  often a locale: \<open>asio\<close> (every outcome of the network, as a function of the earlier I/O; a
  theorem over all \<open>asio\<close> holds for every network) with \<open>reliable_link\<close>, \<open>closing_link\<close>,
  \<open>socket_laws\<close>, \<open>closed_socket_laws\<close>, \<open>working_network\<close> and \<open>expiring_network\<close>; the field container of Boost.Beast with \<open>beast_fields\<close>; its messages
  (\<open>message_api\<close>) and Boost.URL (\<open>url_api\<close>) without laws; QuickJS (\<open>quickjs\<close>) with
  \<open>quickjs_refs\<close> and \<open>quickjs_objects\<close>; jsoncons with \<open>jsoncons_laws\<close>; spdlog with
  \<open>spdlog_laws\<close>; CLI11 with \<open>cli11_laws\<close>; the acceptor, the file system and the stream library
  of \<open>Tcp_Server\<close> and \<open>App_Main\<close>. Every locale is interpreted on an instance
  that satisfies it (field lists, a socket table, a small reference-counted heap), and the
  witnesses run the model on it.

  \<^bold>\<open>Loops and fuel.\<close> No definition takes fuel. A loop that may run forever is \<open>loop body s\<close>,
  whose value \<open>None\<close> means that it never returns; \<open>loop_invariant\<close>, \<open>loop_terminates\<close> and
  \<open>loop_diverges\<close> reason about it. That a loop returns is stated as such: for forwarding on a
  network that delivers, for the tunnel when finitely many bytes are sent, for a whole session
  when its network stops answering, for the accept loop exactly when it is aborted.

  \<^bold>\<open>What is shown.\<close>

  \<^item> Routing and faithfulness over a whole session: every request header sent goes to the host
    and port that the request names and carries its method, target and protected fields; every
    response header answers that request (\<open>Session_Exchange\<close>). The invariant is on the log of
    I/O events: each event is justified by those before it.
  \<^item> Bytes: forwarding by length, chunked forwarding and the tunnel neither lose, add nor
    reorder bytes, on every network; chunked forwarding is a refinement of a grammar of chunked
    messages; the tunnel is a step relation, its invariant holds for every interleaving.
  \<^item> Exchanges: the log of a session is a sequence of complete exchanges, one answer for each
    request; on a working network an exchange returns and delivers both bodies; after a failed
    call the session only closes; when the network is gone every session returns.
  \<^item> Connections: reuse only for the same host and port; a session that ends leaves nothing
    open, or its exception is reported.
  \<^item> Rules: the headers sent are the headers read, changed as an abstract specification of the
    actions says, by rules of the loaded file in its order (\<open>Rule_Effects\<close>, and for the whole
    program below); that no rule changes protected headers, what an expression finds in \<open>ctx\<close>, that the script engine, which all sessions
    share, gets back every reference whatever the interleaving; that a rule file is loaded
    exactly when it satisfies the schema, that loading inverts writing, and, below, that a
    loaded action can fail at run time for one reason only.
  \<^item> Start: the command line is obeyed, with no port lost to a conversion; every module gets its
    logger; one fresh session per connection with distinct numbers, every failure of the
    listener and of \<open>main\<close>, the ready file.
  \<^item> Flaws of the code that the model shows: two forwarding loops that never return when a body
    is cut short, bytes of one host read as the answer of another, an interim response taken
    for the answer, an exception that leaves a session unclosed, a blank chunk size read as zero.

  \<^bold>\<open>Concurrency.\<close> The program runs its executor on one thread. The two directions of a tunnel
  are a step relation over the session they share. Sessions share only the script engine and
  use it only while rules are applied, which no other coroutine interrupts; \<open>world\<close> has what
  the other sessions have done to the engine since as a parameter, so that every theorem
  about a session holds beside any others. The accept loop and the sessions share nothing else.

  \<^bold>\<open>Not modelled.\<close> The log calls, other than those of the server's completion handlers; the
  files the loggers write are not part of the file system of \<open>App_Main\<close>. Timeouts and
  cancellation are outcomes of \<open>asio\<close>. What a match expression computes is the engine's
  business; the model covers what is injected, how errors travel and what the answer does. The
  text of the schema is a parameter; its meaning is \<open>rule_schema\<close>. Headers that only include,
  name or forbid copies have nothing to model.
\<close>

section \<open>From the rule file to the executed actions\<close>

lemma spawned_config:
  assumes "app_main sys hs parsed opts fs h = (Serving (Some srv), fs', h')"
    and "accept_run (listener sys) srv srv'" and "x \<in> set (sessions srv')"
  shows "\<exists>sid. proxy_session x = HttpProxySession sid (http_rule_config (options srv))"
proof -
  from app_main_Serving [OF assms(1)] have inv: "server_inv srv"
    using Start_server(2) by blast
  have "sessions srv' = owed_sessions (options srv) (connections (accept_log srv'))"
    using server_inv_run [OF assms(2) inv] by (simp add: server_inv_def)
  with assms(3) show ?thesis
    by (auto simp: owed_sessions_def)
qed

lemma action_wf_ok: "action_wf a \<Longrightarrow> action_ok a \<longleftrightarrow> to_lower_copy (action_name a) \<notin> set kUnsupportedHeaders"
  by (cases "data a") (auto simp: action_wf_def action_ok_def shape_ok_def is_protected_def)

text \<open>The actions of a loaded configuration are accepted when their headers are supported.\<close>

lemma loaded_rules_ok:
  assumes "config_wf cfg" and "subseq chosen (phase_rules ph (http cfg))"
    and "\<forall>r \<in> set (phase_rules ph (http cfg)). \<forall>a \<in> set (actions r). \<not> is_protected (action_name a)"
  shows "list_all action_ok (concat (map actions chosen))"
proof -
  have "action_wf a" if "r \<in> set (phase_rules ph (http cfg))" "a \<in> set (actions r)" for r a
    using assms(1) that by (auto simp: phase_rules_def config_wf_def http_wf_def rule_wf_def list_all_iff
        split: option.splits)
  moreover have "set chosen \<subseteq> set (phase_rules ph (http cfg))"
    using assms(2) by (auto elim: list_emb_set)
  ultimately show ?thesis
    using assms(3) action_wf_ok by (auto simp: list_all_iff is_protected_def)
qed

lemma actions_spec_all: "list_all action_ok acts \<Longrightarrow> actions_spec acts st = fold action_spec acts st"
  by (induction acts arbitrary: st) simp_all

text \<open>
  C16. From the rule file to the header: in a program that is serving, every session runs with
  rules whose actions are well formed, so executing an action of such a rule on a request or a
  response fails for one reason only: the header is one of those the proxy does not let rules
  change. No action of a loaded file is rejected for its target, its operation or the shape of
  its data.
\<close>

theorem loaded_actions_fail_only_on_unsupported_headers:
  assumes "jsoncons_laws (json_lib sys) rx (schema_text sys) sj"
    and "\<And>t. ojson_parse (json_lib sys) t = json_parse (json_lib sys) t"
    and "app_main sys hs parsed opts fs h = (Serving (Some srv), fs', h')"
    and "accept_run (listener sys) srv srv'" and "x \<in> set (sessions srv')"
    and "rule_http_config (proxy_session x) = Some hc" and "rules hc = Some rs"
    and "r \<in> set rs" and "a \<in> set (actions r)"
  shows "(fst (ExecuteRequestAction api a req) = Inr () \<longleftrightarrow>
      to_lower_copy (action_name a) \<notin> set kUnsupportedHeaders) \<and>
    (fst (ExecuteResponseAction api a res) = Inr () \<longleftrightarrow>
      to_lower_copy (action_name a) \<notin> set kUnsupportedHeaders)"
proof -
  from app_main_Serving [OF assms(3)] obtain cfg eng ep where
      load: "LoadRulesFromFile (json_lib sys) (schema_text sys) fs (ResolveRuleFilePath (absolute_path sys) (exec_dir sys)
        (option_count parsed (ch_rule_file_opt hs)) (rule_file (http_opts opts))) = Inr (Inr cfg)"
      and start: "Start (listener sys) (new_TcpServer \<lparr>address = bind_address (http_opts opts),
        port = bind_port (http_opts opts), http_rule_config = http cfg, rule_engine = eng\<rparr>) = Inr (Inr ep, srv)"
    by blast
  have "http cfg = Some hc"
    using spawned_config [OF assms(3-5)] Start_server(3) [OF start] assms(6) by auto
  then have "action_wf a"
    using loaded_config_wf [OF assms(1,2) load] assms(7-9)
    by (auto simp: config_wf_def http_wf_def rule_wf_def list_all_iff)
  then have iff: "action_ok a \<longleftrightarrow> to_lower_copy (action_name a) \<notin> set kUnsupportedHeaders"
    by (rule action_wf_ok)
  show ?thesis
    unfolding iff [symmetric]
    using ExecuteRequestAction_cases [of a api req] ExecuteResponseAction_cases [of a api res]
    by (cases "action_ok a") auto
qed

theorem loaded_actions_fail_only_on_unsupported_headers_witness:
  "fst (ExecuteRequestAction list_fields example_action example_request) = Inr ()"
proof -
  obtain srv fs' h' where r:
      "app_main example_system example_handles example_parsed example_opts example_disk example_heap = (Serving (Some srv), fs', h')"
      and srv: "http_rule_config (options srv) = http example_config" "accept_log srv = []" "sessions srv = []"
    using example_app by blast
  obtain srv' x where srv': "accept_body example_acceptor srv = Inl srv'" "sessions srv' = [x]"
      "rule_http_config (proxy_session x) = http example_config"
    using srv by (simp add: accept_body_def Let_def example_acceptor_def)
  have run: "accept_run (listener example_system) srv srv'"
    using accept_step [OF accept_refl srv'(1)] by (simp add: example_system_def)
  have laws: "jsoncons_laws (json_lib example_system) example_rx (schema_text example_system) schema_document"
    using example.jsoncons_laws_axioms [of example_docs] by (simp add: example_system_def)
  have parse: "ojson_parse (json_lib example_system) t = json_parse (json_lib example_system) t" for t
    by (simp add: example_system_def)
  have x: "x \<in> set (sessions srv')" using srv'(2) by simp
  have "to_lower_copy (action_name example_action) \<notin> set kUnsupportedHeaders" by code_simp
  then show ?thesis
    using loaded_actions_fail_only_on_unsupported_headers [OF laws parse r run x, of _ _ _ example_action]
      srv'(3) by (simp add: example_config_def)
qed

section \<open>From the rule file to the headers on the wire\<close>

text \<open>
  C7. The rule file governs the headers: in a program that is serving, whatever connection a
  session was spawned for and whatever the network and the script engine did, every request
  the session sends has the fields of the client's request, without the proxy's own three,
  changed by the actions of enabled request rules of the file that was loaded at the start,
  in its order and up to the first action that is rejected, and by all of them when none of
  these rules has a match expression. If no header the file names is an unsupported one, no
  action is rejected.
\<close>

theorem rule_file_governs_the_headers:
  assumes "jsoncons_laws (json_lib sys) rx (schema_text sys) sj"
    and "\<And>t. ojson_parse (json_lib sys) t = json_parse (json_lib sys) t"
    and "app_main sys hs parsed opts fs h = (Serving (Some srv), fs', h')"
    and "accept_run (listener sys) srv srv'" and "x \<in> set (sessions srv')"
    and "beast_fields (fields_of (beast w))" and "Run w eng (proxy_session x) h1 = Some (exn, s', h2)"
    and "io_log s' = pre @ EvWriteRequest hdr ec # post"
  shows "\<exists>cfg p chosen. LoadRulesFromFile (json_lib sys) (schema_text sys) fs
      (ResolveRuleFilePath (absolute_path sys) (exec_dir sys) (option_count parsed (ch_rule_file_opt hs))
        (rule_file (http_opts opts))) = Inr (Inr cfg) \<and> last_request pre = Some p \<and>
    subseq chosen (phase_rules PhaseRequest (http cfg)) \<and>
    (unconditional (phase_rules PhaseRequest (http cfg)) \<longrightarrow> chosen = phase_rules PhaseRequest (http cfg)) \<and>
    field_store (rq_fields hdr) = actions_spec (concat (map actions chosen)) (forwarded_store (rq_header p)) \<and>
    ((\<forall>r \<in> set (phase_rules PhaseRequest (http cfg)). \<forall>a \<in> set (actions r). \<not> is_protected (action_name a)) \<longrightarrow>
      field_store (rq_fields hdr) = fold action_spec (concat (map actions chosen)) (forwarded_store (rq_header p)))"
proof -
  from app_main_Serving [OF assms(3)] obtain cfg eng' ep where
      load: "LoadRulesFromFile (json_lib sys) (schema_text sys) fs (ResolveRuleFilePath (absolute_path sys) (exec_dir sys)
        (option_count parsed (ch_rule_file_opt hs)) (rule_file (http_opts opts))) = Inr (Inr cfg)"
      and start: "Start (listener sys) (new_TcpServer \<lparr>address = bind_address (http_opts opts),
        port = bind_port (http_opts opts), http_rule_config = http cfg, rule_engine = eng'\<rparr>) = Inr (Inr ep, srv)"
    by blast
  from spawned_config [OF assms(3-5)] Start_server(3) [OF start] obtain sid where
    sess: "proxy_session x = HttpProxySession sid (http cfg)" by auto
  from Run_event_ok [OF assms(6) assms(7) [unfolded sess] assms(8)] obtain p where p: "last_request pre = Some p"
    and r: "ruled PhaseRequest (http cfg) (forwarded_store (rq_header p)) (field_store (rq_fields hdr))"
    by (auto simp: event_ok_def)
  from r obtain chosen where ch: "subseq chosen (phase_rules PhaseRequest (http cfg))"
      "unconditional (phase_rules PhaseRequest (http cfg)) \<longrightarrow> chosen = phase_rules PhaseRequest (http cfg)"
      "field_store (rq_fields hdr) = actions_spec (concat (map actions chosen)) (forwarded_store (rq_header p))"
    unfolding ruled_def by blast
  have all_ok: "list_all action_ok (concat (map actions chosen))"
    if "\<forall>r \<in> set (phase_rules PhaseRequest (http cfg)). \<forall>a \<in> set (actions r). \<not> is_protected (action_name a)"
    using loaded_rules_ok [OF loaded_config_wf [OF assms(1,2) load] ch(1)] that by blast
  with load p ch show ?thesis
    by (intro exI [of _ cfg] exI [of _ p] exI [of _ chosen]) (simp add: actions_spec_all)
qed

theorem rule_file_governs_the_headers_witness:
  "\<exists>srv fs' h' srv' x s' h2 pre hdr ec post p.
    app_main example_system example_handles example_parsed example_opts example_disk example_heap =
      (Serving (Some srv), fs', h') \<and> accept_run (listener example_system) srv srv' \<and> x \<in> set (sessions srv') \<and>
    Run demo_world demo_engine (proxy_session x) example_heap = Some (None, s', h2) \<and>
    io_log s' = pre @ EvWriteRequest hdr ec # post \<and> last_request pre = Some p"
proof -
  obtain srv fs' h' where r:
      "app_main example_system example_handles example_parsed example_opts example_disk example_heap = (Serving (Some srv), fs', h')"
      and srv: "http_rule_config (options srv) = http example_config" "accept_log srv = []" "sessions srv = []"
    using example_app by blast
  obtain srv' x where srv': "accept_body example_acceptor srv = Inl srv'" "x \<in> set (sessions srv')"
    using srv by (simp add: accept_body_def Let_def example_acceptor_def)
  have run: "accept_run (listener example_system) srv srv'"
    using accept_step [OF accept_refl srv'(1)] by (simp add: example_system_def)
  obtain sid where x: "proxy_session x = HttpProxySession sid (http example_config)"
    using spawned_config [OF r run srv'(2)] srv(1) by auto
  obtain s' h2 hdr ec where s': "Run demo_world demo_engine (proxy_session x) example_heap = Some (None, s', h2)"
      "EvWriteRequest hdr ec \<in> set (io_log s')"
    unfolding x using demo_run by blast
  then obtain pre post where l: "io_log s' = pre @ EvWriteRequest hdr ec # post" using split_list by metis
  have laws: "jsoncons_laws (json_lib example_system) example_rx (schema_text example_system) schema_document"
    using example.jsoncons_laws_axioms [of example_docs] by (simp add: example_system_def)
  have parse: "ojson_parse (json_lib example_system) t = json_parse (json_lib example_system) t" for t
    by (simp add: example_system_def)
  from rule_file_governs_the_headers [OF laws parse r run srv'(2) demo_beast s'(1) l] obtain p where
    "last_request pre = Some p" by blast
  with r run srv'(2) s'(1) l show ?thesis by blast
qed

end
